(* ===== verification/Prelude.thy ===== *)
theory Prelude
  imports Main
begin

text \<open>
  Shared vocabulary of the development: Go's error values, results, and the fact
  collections and generic lemmas that the component theories share.

  A Go function that returns \<open>(value, error)\<close> and has effects is a function of an
  explicit world \<open>'w\<close>: its result is \<open>('s go_error + 'a) \<times> 'w\<close>, with \<open>Inl\<close> for a
  non-nil error.  A function with effects and no result besides the error has \<open>'a = unit\<close>.
\<close>

named_theorems errs "facts about Go error chains"
named_theorems byte_facts "facts about byte strings"
named_theorems op_simps "unfoldings of operations into their guards and calls"

section \<open>Go error values\<close>

text \<open>
  Errors that come from code outside the repository (the AWS SDK, net/http, the
  operating system).  The code inspects only the classes named here:
  \<open>types.ConditionalCheckFailedException\<close>, \<open>types.TransactionCanceledException\<close> with its
  list of optional reason codes, and \<open>smithy.APIError\<close> with its code.
\<close>

datatype ext_error =
    Conditional_check_failed
  | Transaction_canceled "string option list"
  | Api_error string
  | Opaque_error string

text \<open>
  \<open>Sentinel s\<close> is a package-level error variable (identity matters to \<open>errors.Is\<close>),
  \<open>New_error\<close> an error made on the spot without a cause, \<open>Wrapf p e\<close> is
  \<open>fmt.Errorf(p + ": %w", e)\<close>.
\<close>

datatype 's go_error =
    Sentinel 's
  | New_error string
  | Wrapf string "'s go_error"
  | Foreign ext_error

text \<open>\<open>errors.Is(err, target)\<close> for a sentinel target walks the chain of wrapped errors.\<close>

fun errors_is :: "'s go_error \<Rightarrow> 's \<Rightarrow> bool" where
  "errors_is (Sentinel s) t = (s = t)"
| "errors_is (New_error _) t = False"
| "errors_is (Wrapf _ e) t = errors_is e t"
| "errors_is (Foreign _) t = False"

text \<open>\<open>errors.As\<close> for the SDK's error types: the external error at the end of the chain.\<close>

fun errors_as :: "'s go_error \<Rightarrow> ext_error option" where
  "errors_as (Sentinel _) = None"
| "errors_as (New_error _) = None"
| "errors_as (Wrapf _ e) = errors_as e"
| "errors_as (Foreign x) = Some x"

lemma errors_is_unique [errs]: "errors_is e s \<Longrightarrow> errors_is e t \<longleftrightarrow> t = s"
  by (induction e) auto

lemma errors_is_as [errs]: "errors_is e s \<Longrightarrow> errors_as e = None"
  by (induction e) auto

section \<open>Generic lemmas\<close>

lemma fun_upd_idem_iff_Some: "m k = Some v \<Longrightarrow> m(k \<mapsto> v) = m"
  by auto

lemma ran_upd_cases: "x \<in> ran (m(k \<mapsto> v)) \<Longrightarrow> x = v \<or> x \<in> ran m"
  by (auto simp: ran_def split: if_splits)

lemma ran_del_subset: "x \<in> ran (m(k := None)) \<Longrightarrow> x \<in> ran m"
  by (auto simp: ran_def split: if_splits)

end
