(* ===== verification/Go_Strings.thy ===== *)
theory Go_Strings
  imports Prelude "HOL-Library.Char_ord"
begin

text \<open>
  The functions of Go's standard library on strings that the repository uses
  (\<open>strings.HasPrefix\<close>, \<open>Index\<close>, \<open>LastIndex\<close>, \<open>SplitN\<close> with limit 2, \<open>TrimSpace\<close>,
  \<open>hex.EncodeToString\<close>, \<open>strconv.Atoi\<close> and the text of its error), and the arguments of the cookie
  that both HTTP services set.  A Go string is a sequence of bytes: a \<open>string\<close> here is its
  UTF-8 bytes.
\<close>

section \<open>A cookie to set\<close>

text \<open>A cookie as \<^verbatim>\<open>SetCookie\<close> gets it; \<open>ck_strict\<close> is \<^verbatim>\<open>SetSameSite(SameSiteStrictMode)\<close> before it.\<close>

record set_cookie =
  ck_name :: string
  ck_value :: string
  ck_maxAge :: int
  ck_path :: string
  ck_domain :: string
  ck_secure :: bool
  ck_httpOnly :: bool
  ck_strict :: bool

section \<open>Prefixes and searching\<close>

fun has_prefix :: "string \<Rightarrow> string \<Rightarrow> bool" where
  "has_prefix s [] = True"
| "has_prefix [] (p # ps) = False"
| "has_prefix (c # s) (p # ps) = (c = p \<and> has_prefix s ps)"

lemma has_prefix_iff [byte_facts]: "has_prefix s p \<longleftrightarrow> (\<exists>t. s = p @ t)"
  by (induction s p rule: has_prefix.induct) auto

lemma has_prefix_append [simp]: "has_prefix (p @ t) p"
  by (simp add: has_prefix_iff)

lemma has_prefix_drop: "has_prefix s p \<Longrightarrow> s = p @ drop (length p) s"
  by (auto simp: has_prefix_iff)

text \<open>\<open>strings.Index\<close>: the offset of the first occurrence, \<open>None\<close> for -1.\<close>

fun index_of :: "string \<Rightarrow> string \<Rightarrow> nat option" where
  "index_of [] p = (if p = [] then Some 0 else None)"
| "index_of (c # s) p =
     (if has_prefix (c # s) p then Some 0 else map_option Suc (index_of s p))"

lemma index_of_Some:
  "index_of s p = Some i \<Longrightarrow> i + length p \<le> length s \<and> s = take i s @ p @ drop (i + length p) s"
proof (induction s arbitrary: i)
  case Nil
  then show ?case by (auto split: if_splits)
next
  case (Cons c s)
  show ?case
  proof (cases "has_prefix (c # s) p")
    case True
    then obtain t where t: "c # s = p @ t" by (auto simp: has_prefix_iff)
    from True Cons.prems have "i = 0" by (simp del: has_prefix.simps)
    with t show ?thesis by simp
  next
    case False
    with Cons.prems obtain j where "index_of s p = Some j" "i = Suc j"
      by (auto simp del: has_prefix.simps)
    with Cons.IH [of j] show ?thesis by simp
  qed
qed

lemma index_of_None: "index_of s p = None \<longleftrightarrow> (\<nexists>a b. s = a @ p @ b)"
proof (induction s)
  case Nil
  then show ?case by auto
next
  case (Cons c s)
  have "(\<exists>a b. c # s = a @ p @ b) \<longleftrightarrow> has_prefix (c # s) p \<or> (\<exists>a b. s = a @ p @ b)"
    (is "?l \<longleftrightarrow> ?r")
  proof
    assume ?l
    then obtain a b where ab: "c # s = a @ p @ b" by blast
    then show ?r by (cases a) (auto simp: has_prefix_iff)
  next
    assume ?r
    then show ?l by (metis append_Cons append_Nil has_prefix_iff)
  qed
  with Cons.IH show ?case by (simp del: has_prefix.simps)
qed

text \<open>\<open>strings.LastIndex\<close> for a one-byte separator.\<close>

fun last_index :: "string \<Rightarrow> char \<Rightarrow> nat option" where
  "last_index [] c = None"
| "last_index (x # s) c =
     (case last_index s c of Some i \<Rightarrow> Some (Suc i)
      | None \<Rightarrow> if x = c then Some 0 else None)"

lemma last_index_None [simp]: "last_index s c = None \<longleftrightarrow> c \<notin> set s"
  by (induction s) (auto split: option.splits)

lemma last_index_Some:
  "last_index s c = Some i \<Longrightarrow> i < length s \<and> s ! i = c \<and> c \<notin> set (drop (Suc i) s)"
proof (induction s arbitrary: i)
  case Nil
  then show ?case by simp
next
  case (Cons x s)
  show ?case
  proof (cases "last_index s c")
    case None
    with Cons.prems show ?thesis by (auto split: if_splits)
  next
    case (Some j)
    with Cons.prems Cons.IH [OF Some] show ?thesis by auto
  qed
qed

text \<open>\<open>strings.SplitN(s, sep, 2)\<close> for a one-byte separator: one part or two.\<close>

fun split_n2 :: "string \<Rightarrow> char \<Rightarrow> string list" where
  "split_n2 [] c = [[]]"
| "split_n2 (x # s) c =
     (if x = c then [[], s]
      else (case split_n2 s c of [] \<Rightarrow> [] | p # ps \<Rightarrow> (x # p) # ps))"

lemma split_n2_hit [simp]: "c \<notin> set a \<Longrightarrow> split_n2 (a @ c # b) c = [a, b]"
  by (induction a) auto

lemma split_n2_miss [simp]: "c \<notin> set a \<Longrightarrow> split_n2 a c = [a]"
  by (induction a) auto

section \<open>White space\<close>

text \<open>
  The UTF-8 encodings of the code points for which \<open>unicode.IsSpace\<close> holds: the ASCII
  ones, U+0085, U+00A0, U+1680, U+2000..U+200A, U+2028, U+2029, U+202F, U+205F, U+3000.
\<close>

definition space_seqs :: "string list" where
  "space_seqs =
     [[CHR 0x20], [CHR 0x09], [CHR 0x0A], [CHR 0x0B], [CHR 0x0C], [CHR 0x0D],
      [CHR 0xC2, CHR 0x85], [CHR 0xC2, CHR 0xA0], [CHR 0xE1, CHR 0x9A, CHR 0x80],
      [CHR 0xE2, CHR 0x80, CHR 0x80], [CHR 0xE2, CHR 0x80, CHR 0x81],
      [CHR 0xE2, CHR 0x80, CHR 0x82], [CHR 0xE2, CHR 0x80, CHR 0x83],
      [CHR 0xE2, CHR 0x80, CHR 0x84], [CHR 0xE2, CHR 0x80, CHR 0x85],
      [CHR 0xE2, CHR 0x80, CHR 0x86], [CHR 0xE2, CHR 0x80, CHR 0x87],
      [CHR 0xE2, CHR 0x80, CHR 0x88], [CHR 0xE2, CHR 0x80, CHR 0x89],
      [CHR 0xE2, CHR 0x80, CHR 0x8A], [CHR 0xE2, CHR 0x80, CHR 0xA8],
      [CHR 0xE2, CHR 0x80, CHR 0xA9], [CHR 0xE2, CHR 0x80, CHR 0xAF],
      [CHR 0xE2, CHR 0x81, CHR 0x9F], [CHR 0xE3, CHR 0x80, CHR 0x80]]"

text \<open>Strip one leading sequence of a list, if one of them is a prefix.\<close>

fun strip_one :: "string list \<Rightarrow> string \<Rightarrow> string option" where
  "strip_one [] s = None"
| "strip_one (p # ps) s =
     (if has_prefix s p then Some (drop (length p) s) else strip_one ps s)"

lemma strip_one_Some:
  "strip_one ps s = Some t \<Longrightarrow> \<exists>p \<in> set ps. s = p @ t"
  by (induction ps) (auto simp: has_prefix_iff split: if_splits)

lemma strip_one_None: "strip_one ps s = None \<longleftrightarrow> (\<forall>p \<in> set ps. \<not> has_prefix s p)"
  by (induction ps) auto

lemma space_seqs_nonempty [simp]: "p \<in> set space_seqs \<Longrightarrow> p \<noteq> []"
  by (auto simp: space_seqs_def)

lemma strip_one_shorter:
  "(\<And>p. p \<in> set ps \<Longrightarrow> p \<noteq> []) \<Longrightarrow> strip_one ps s = Some t \<Longrightarrow> length t < length s"
  by (drule strip_one_Some) auto

text \<open>The recursion strips while a sequence matches; \<open>fuel\<close> is the length of the string.\<close>

fun strip_all :: "nat \<Rightarrow> string list \<Rightarrow> string \<Rightarrow> string" where
  "strip_all 0 ps s = s"
| "strip_all (Suc n) ps s =
     (case strip_one ps s of None \<Rightarrow> s | Some t \<Rightarrow> strip_all n ps t)"

definition trim_left :: "string list \<Rightarrow> string \<Rightarrow> string" where
  "trim_left ps s = strip_all (length s) ps s"

definition TrimSpace :: "string \<Rightarrow> string" where
  "TrimSpace s =
     rev (trim_left (map rev space_seqs) (rev (trim_left space_seqs s)))"


lemma strip_all_decomp:
  "\<exists>xs. set xs \<subseteq> set ps \<and> s = concat xs @ strip_all n ps s"
proof (induction n ps s rule: strip_all.induct)
  case (1 ps s)
  then show ?case by (intro exI [of _ "[]"]) simp
next
  case (2 n ps s)
  show ?case
  proof (cases "strip_one ps s")
    case None
    then show ?thesis by (intro exI [of _ "[]"]) simp
  next
    case (Some t)
    from strip_one_Some [OF Some] obtain p where p: "p \<in> set ps" "s = p @ t" by blast
    from "2.IH" [OF Some] obtain xs where "set xs \<subseteq> set ps" "t = concat xs @ strip_all n ps t"
      by blast
    with p Some show ?thesis by (intro exI [of _ "p # xs"]) auto
  qed
qed

lemma strip_all_done:
  "(\<And>p. p \<in> set ps \<Longrightarrow> p \<noteq> []) \<Longrightarrow> length s \<le> n \<Longrightarrow> strip_one ps (strip_all n ps s) = None"
proof (induction n ps s rule: strip_all.induct)
  case (1 ps s)
  then show ?case by (auto simp: strip_one_None has_prefix_iff)
next
  case (2 n ps s)
  show ?case
  proof (cases "strip_one ps s")
    case None
    then show ?thesis by simp
  next
    case (Some t)
    from "2.prems" Some have "length t < length s" by (intro strip_one_shorter)
    with "2.IH" [OF Some] "2.prems" Some show ?thesis by simp
  qed
qed

lemma trim_left_decomp: "\<exists>xs. set xs \<subseteq> set ps \<and> s = concat xs @ trim_left ps s"
  unfolding trim_left_def by (rule strip_all_decomp)

lemma trim_left_done:
  "(\<And>p. p \<in> set ps \<Longrightarrow> p \<noteq> []) \<Longrightarrow> strip_one ps (trim_left ps s) = None"
  unfolding trim_left_def by (rule strip_all_done) auto

lemma trim_left_fix: "strip_one ps s = None \<Longrightarrow> trim_left ps s = s"
  by (cases s) (simp_all add: trim_left_def)

text \<open>\<open>TrimSpace\<close> removes white space only, and only at the two ends.\<close>

lemma TrimSpace_decomp:
  "\<exists>as bs. set as \<subseteq> set space_seqs \<and> set bs \<subseteq> set space_seqs \<and>
     s = concat as @ TrimSpace s @ concat bs"
proof -
  let ?u = "trim_left space_seqs s"
  obtain as where as: "set as \<subseteq> set space_seqs" "s = concat as @ ?u"
    using trim_left_decomp by blast
  obtain xs where xs: "set xs \<subseteq> set (map rev space_seqs)"
    "rev ?u = concat xs @ trim_left (map rev space_seqs) (rev ?u)"
    using trim_left_decomp by blast
  from xs(2) have "?u = TrimSpace s @ rev (concat xs)"
    unfolding TrimSpace_def by (metis rev_append rev_rev_ident)
  then have "?u = TrimSpace s @ concat (map rev (rev xs))"
    by (simp add: rev_concat rev_map)
  moreover from xs(1) have "set (map rev (rev xs)) \<subseteq> set space_seqs"
    by fastforce
  ultimately show ?thesis using as by metis
qed

lemma TrimSpace_no_trailing:
  "strip_one (map rev space_seqs) (rev (TrimSpace s)) = None"
  unfolding TrimSpace_def rev_rev_ident by (rule trim_left_done) (auto dest: space_seqs_nonempty)

lemma TrimSpace_no_leading: "strip_one space_seqs (TrimSpace s) = None"
proof -
  let ?u = "trim_left space_seqs s"
  obtain xs where "rev ?u = concat xs @ trim_left (map rev space_seqs) (rev ?u)"
    using trim_left_decomp by blast
  then have u: "?u = TrimSpace s @ rev (concat xs)"
    unfolding TrimSpace_def by (metis rev_append rev_rev_ident)
  have "strip_one space_seqs ?u = None"
    by (rule trim_left_done) simp
  then show ?thesis
    by (subst (asm) u) (auto simp: strip_one_None has_prefix_iff)
qed

lemma TrimSpace_idem [simp]: "TrimSpace (TrimSpace s) = TrimSpace s"
  using TrimSpace_no_trailing [of s] TrimSpace_no_leading [of s]
  by (simp add: TrimSpace_def [of "TrimSpace s"] trim_left_fix)

section \<open>Hexadecimal\<close>

text \<open>\<open>hex.EncodeToString\<close>: two lower-case digits per byte.\<close>

definition hex_digit :: "nat \<Rightarrow> char" where
  "hex_digit n = (if n < 10 then char_of (48 + n) else char_of (87 + n))"

definition hex_encode :: "string \<Rightarrow> string" where
  "hex_encode bs = concat (map (\<lambda>b. [hex_digit (of_char b div 16), hex_digit (of_char b mod 16)]) bs)"

lemma length_hex_encode [simp]: "length (hex_encode bs) = 2 * length bs"
  by (induction bs) (auto simp: hex_encode_def)

lemma hex_digit_inj: "m < 16 \<Longrightarrow> n < 16 \<Longrightarrow> hex_digit m = hex_digit n \<longleftrightarrow> m = n"
  by (auto simp: hex_digit_def char_of_eq_iff take_bit_eq_mod split: if_splits)

lemma of_char_less [simp]: "(of_char c :: nat) < 256"
  using of_char_mod_256 [of c, where 'a = nat] by (metis mod_less_divisor zero_less_numeral)

lemma hex_encode_inj: "hex_encode as = hex_encode bs \<Longrightarrow> as = bs"
proof (induction as arbitrary: bs)
  case Nil
  then show ?case by (cases bs) (auto simp: hex_encode_def)
next
  case (Cons a as)
  show ?case
  proof (cases bs)
    case Nil
    with Cons.prems show ?thesis by (simp add: hex_encode_def)
  next
    case (Cons b bs')
    have "(of_char a :: nat) div 16 < 16" "(of_char b :: nat) div 16 < 16"
      by (simp_all add: less_mult_imp_div_less)
    with Cons Cons.prems have "(of_char a :: nat) div 16 = of_char b div 16"
      "(of_char a :: nat) mod 16 = of_char b mod 16" "hex_encode as = hex_encode bs'"
      by (auto simp: hex_encode_def hex_digit_inj)
    moreover from this have "(of_char a :: nat) = of_char b"
      by (metis div_mult_mod_eq)
    ultimately show ?thesis using Cons.IH Cons by simp
  qed
qed


section \<open>Decimal numbers\<close>

text \<open>The verb \<open>%d\<close> of \<open>fmt\<close> for a non-negative number.\<close>

fun dec :: "nat \<Rightarrow> string" where
  "dec n = (if n < 10 then [char_of (48 + n)] else dec (n div 10) @ [char_of (48 + n mod 10)])"

declare dec.simps [simp del]

lemma dec_nonempty [simp]: "dec n \<noteq> []"
  by (subst dec.simps) simp

definition dec_int :: "int \<Rightarrow> string" where
  "dec_int i = (if i < 0 then CHR 0x2D # dec (nat (- i)) else dec (nat i))"

definition is_digit :: "char \<Rightarrow> bool" where
  "is_digit c \<longleftrightarrow> 48 \<le> (of_char c :: nat) \<and> (of_char c :: nat) \<le> 57"

fun digits_value :: "nat \<Rightarrow> string \<Rightarrow> nat" where
  "digits_value acc [] = acc"
| "digits_value acc (c # s) = digits_value (10 * acc + (of_char c - 48)) s"

text \<open>\<open>strconv.Atoi\<close>: an optional sign, at least one digit, only digits, and a value of 64
  bits; \<open>None\<close> is a syntax or range error.\<close>

definition Atoi :: "string \<Rightarrow> int option" where
  "Atoi s =
     (let (neg, ds) = (case s of [] \<Rightarrow> (False, [])
                        | c # s' \<Rightarrow> if c = CHR 0x2D then (True, s')
                                   else if c = CHR 0x2B then (False, s') else (False, s));
          v = int (digits_value 0 ds); i = (if neg then - v else v)
      in if ds = [] \<or> \<not> list_all is_digit ds \<or> i < - (2 ^ 63) \<or> 2 ^ 63 \<le> i
         then None else Some i)"

text \<open>Why \<open>Atoi\<close> fails: the digits are read from the left, so a value that no longer fits 64 bits is out of
  range whatever follows, and any other byte before that is a syntax error.\<close>

fun digits_err :: "nat \<Rightarrow> string \<Rightarrow> string" where
  "digits_err acc [] = ''value out of range''"
| "digits_err acc (c # s) =
     (if \<not> is_digit c then ''invalid syntax''
      else let n = 10 * acc + (of_char c - 48) in
        if 2 ^ 64 \<le> n then ''value out of range'' else digits_err n s)"

text \<open>The text of the error; \<open>quote\<close> is \<^verbatim>\<open>strconv.Quote\<close>.\<close>

definition Atoi_err :: "(string \<Rightarrow> string) \<Rightarrow> string \<Rightarrow> string" where
  "Atoi_err quote s =
     (let ds = (case s of [] \<Rightarrow> [] | c # s' \<Rightarrow> if c = CHR 0x2D \<or> c = CHR 0x2B then s' else s)
      in ''strconv.Atoi: parsing '' @ quote s @ '': '' @
         (if ds = [] then ''invalid syntax'' else digits_err 0 ds))"

lemma digits_value_append:
  "digits_value acc (s @ [c]) = 10 * digits_value acc s + (of_char c - 48)"
  by (induction s arbitrary: acc) auto

lemma of_char_digit [simp]: "n < 10 \<Longrightarrow> (of_char (char_of (48 + n) :: char) :: nat) = 48 + n"
  by (simp add: take_bit_eq_mod)

lemma is_digit_dec: "(n :: nat) < 10 \<Longrightarrow> is_digit (char_of (48 + n))"
  unfolding is_digit_def by simp

lemma dec_digits: "list_all is_digit (dec n)"
proof (induction n rule: dec.induct)
  case (1 n)
  then show ?case
    by (subst dec.simps) (auto simp: is_digit_dec)
qed

lemma dec_value: "digits_value 0 (dec n) = n"
proof (induction n rule: dec.induct)
  case (1 n)
  then show ?case
    by (subst dec.simps) (auto simp: digits_value_append)
qed

lemma dec_inj: "dec m = dec n \<Longrightarrow> m = n"
  by (metis dec_value)

lemma dec_head: "dec n = c # s \<Longrightarrow> is_digit c"
  using dec_digits [of n] by simp

text \<open>Printing with \<open>%d\<close> and reading back with \<open>strconv.Atoi\<close> is the identity on the
  64-bit integers.\<close>

lemma Atoi_dec_int: "- (2 ^ 63) \<le> i \<Longrightarrow> i < 2 ^ 63 \<Longrightarrow> Atoi (dec_int i) = Some i"
proof (cases "i < 0")
  case True
  assume "- (2 ^ 63) \<le> i" "i < 2 ^ 63"
  with True show ?thesis
    using dec_digits [of "nat (- i)"] by (simp add: Atoi_def dec_int_def dec_value)
next
  case False
  assume "- (2 ^ 63) \<le> i" "i < 2 ^ 63"
  obtain c s where cs: "dec (nat i) = c # s" by (cases "dec (nat i)") auto
  with dec_head have "is_digit c" by blast
  then have "c \<noteq> CHR 0x2D" "c \<noteq> CHR 0x2B" by (auto simp: is_digit_def)
  with False cs \<open>i < 2 ^ 63\<close> show ?thesis
    using dec_digits [of "nat i"] dec_value [of "nat i"] by (simp add: Atoi_def dec_int_def)
qed

end
