(* ===== verification/Runner_Validate.thy ===== *)
theory Runner_Validate
  imports Go_Strings
begin

text \<open>
  Command classification of the runner (\<open>runner/validate.go\<close>): which commands run without
  asking the LLM validator.
\<close>

section \<open>Definitions\<close>

definition whitelistedCommands :: "string \<Rightarrow> bool" where
  "whitelistedCommands c \<longleftrightarrow>
     c \<in> set [''ls'', ''pwd'', ''date'', ''whoami'', ''env'', ''tree'', ''uname'']"

text \<open>The third entry quotes its argument with double and single quotes.\<close>

definition whitelistedExactCommands :: "string \<Rightarrow> bool" where
  "whitelistedExactCommands c \<longleftrightarrow>
     c \<in> set [''home-manager switch --rollback'',
               ''home-manager generations'',
               ''nix develop --command sh -c '' @ [CHR 0x22] @ ''figlet '' @ [CHR 0x27] @ ''Nix''
                 @ [CHR 0x27] @ '' | cowsay -n | lolcat -f'' @ [CHR 0x22]]"

text \<open>The regular expression: one character of a class, or the two characters of a
  command substitution.\<close>

definition meta_chars :: string where
  "meta_chars = '';|&<>'' @ [CHR 0x09, CHR 0x0A, CHR 0x0D, CHR 0x60]"

definition shellMetaChars_MatchString :: "string \<Rightarrow> bool" where
  "shellMetaChars_MatchString s \<longleftrightarrow>
     list_ex (\<lambda>c. c \<in> set meta_chars) s \<or> index_of s ''$('' \<noteq> None"

definition classifyCommand :: "string \<Rightarrow> string" where
  "classifyCommand cmd =
     (let trimmed = TrimSpace cmd in
      if whitelistedCommands trimmed then ''whitelisted''
      else if whitelistedExactCommands trimmed then ''whitelisted''
      else if has_prefix trimmed ''which '' \<and> \<not> shellMetaChars_MatchString trimmed
        then ''whitelisted''
      else if has_prefix trimmed ''nix run nixpkgs#'' \<and> \<not> shellMetaChars_MatchString trimmed
        then ''whitelisted''
      else ''validated'')"

section \<open>Properties\<close>

text \<open>Text in which no operator can chain, redirect, background or substitute a command.\<close>

definition operator_free :: "string \<Rightarrow> bool" where
  "operator_free t \<longleftrightarrow>
     (\<forall>c \<in> set t. c \<notin> set '';|&<>'' \<and> c \<noteq> CHR 0x09 \<and> c \<noteq> CHR 0x0A \<and> c \<noteq> CHR 0x0D \<and> c \<noteq> CHR 0x60)
     \<and> (\<nexists>a b. t = a @ ''$('' @ b)"

lemma operator_free_iff: "operator_free t \<longleftrightarrow> \<not> shellMetaChars_MatchString t"
  by (auto simp: operator_free_def shellMetaChars_MatchString_def meta_chars_def list_ex_iff
      index_of_None)

lemma bare_operator_free: "whitelistedCommands c \<Longrightarrow> operator_free c"
  by (auto simp: whitelistedCommands_def operator_free_iff shellMetaChars_MatchString_def
      meta_chars_def)

text \<open>C1. A command that runs without LLM validation is, between white space at its two
  ends, either one of three fixed commands or text without any shell operator: no
  separator, pipe, background, redirection, backquote, line break or command substitution
  can ride on the whitelist.\<close>

theorem whitelisted_operator_free:
  assumes "classifyCommand cmd = ''whitelisted''"
    and "\<not> whitelistedExactCommands (TrimSpace cmd)"
  shows "\<exists>as t bs. cmd = concat as @ t @ concat bs \<and> set as \<subseteq> set space_seqs \<and>
    set bs \<subseteq> set space_seqs \<and> operator_free t \<and>
    (whitelistedCommands t \<or> has_prefix t ''which '' \<or> has_prefix t ''nix run nixpkgs#'')"
proof -
  obtain as bs where "set as \<subseteq> set space_seqs" "set bs \<subseteq> set space_seqs"
    "cmd = concat as @ TrimSpace cmd @ concat bs"
    using TrimSpace_decomp by blast
  moreover from assms have "operator_free (TrimSpace cmd) \<and>
    (whitelistedCommands (TrimSpace cmd) \<or> has_prefix (TrimSpace cmd) ''which '' \<or>
     has_prefix (TrimSpace cmd) ''nix run nixpkgs#'')"
    by (auto simp: classifyCommand_def Let_def operator_free_iff [symmetric]
        dest: bare_operator_free split: if_splits)
  ultimately show ?thesis by blast
qed

theorem whitelisted_operator_free_witness:
  "classifyCommand '' which cowsay '' = ''whitelisted'' \<and>
   \<not> whitelistedExactCommands (TrimSpace '' which cowsay '') \<and>
   (\<exists>as t bs. '' which cowsay '' = concat as @ t @ concat bs \<and> set as \<subseteq> set space_seqs \<and>
    set bs \<subseteq> set space_seqs \<and> operator_free t \<and>
    (whitelistedCommands t \<or> has_prefix t ''which '' \<or> has_prefix t ''nix run nixpkgs#''))"
proof -
  have h: "classifyCommand '' which cowsay '' = ''whitelisted''"
    "\<not> whitelistedExactCommands (TrimSpace '' which cowsay '')"
    by code_simp+
  then show ?thesis using whitelisted_operator_free [OF h] by blast
qed

end
