(* ===== verification/Runner_Shell.thy ===== *)
theory Runner_Shell
  imports Go_Strings
begin
text \<open>
  The persistent bash session of the runner (\<open>runner/shell.go\<close>): the marker protocol that finds
  the end of a command's output, the reader of the standard error and the life of the process.
  What bash writes, the clock and the failures of the pipes are inputs of a call.
\<close>

section \<open>Errors and state\<close>

datatype runner_err = ErrSessionNotFound

type_synonym rerr = "runner_err go_error"

text \<open>\<open>stderrDone\<close> is true when the channel is closed.\<close>

record stderr_state =
  stderrBuf :: string
  stderrMarker :: string
  stderrDone :: bool

text \<open>\<open>unread\<close> are the lines of the standard output that the scanner has not consumed yet, \<open>stdin_log\<close>
  what was written to the standard input.\<close>

record bashShell =
  stderr_st :: stderr_state
  broken :: "rerr option"
  unread :: "string list"
  stdin_log :: "string list"

section \<open>Starting a shell\<close>

datatype pipe = Stdin | Stdout | Stderr

text \<open>The arguments are the errors of the four calls on the commander, if any; the list is the pipes
  that were closed again.\<close>

definition newBashShellFromCommander ::
  "ext_error option \<Rightarrow> ext_error option \<Rightarrow> ext_error option \<Rightarrow> ext_error option \<Rightarrow>
   (rerr + bashShell) \<times> pipe list" where
  "newBashShellFromCommander stdin_r stdout_r stderr_r start_r =
     (case stdin_r of
        Some e \<Rightarrow> (Inl (Wrapf ''stdin pipe'' (Foreign e)), [])
      | None \<Rightarrow>
          (case stdout_r of
             Some e \<Rightarrow> (Inl (Wrapf ''stdout pipe'' (Foreign e)), [Stdin])
           | None \<Rightarrow>
               (case stderr_r of
                  Some e \<Rightarrow> (Inl (Wrapf ''stderr pipe'' (Foreign e)), [Stdin, Stdout])
                | None \<Rightarrow>
                    (case start_r of
                       Some e \<Rightarrow> (Inl (Wrapf ''start bash'' (Foreign e)), [Stdin, Stdout, Stderr])
                     | None \<Rightarrow>
                         (Inr \<lparr>stderr_st = \<lparr>stderrBuf = [], stderrMarker = [], stderrDone = False\<rparr>,
                               broken = None, unread = [], stdin_log = []\<rparr>, [])))))"

section \<open>The standard error\<close>

definition checkStderrMarker :: "stderr_state \<Rightarrow> stderr_state" where
  "checkStderrMarker s =
     (if stderrMarker s = [] then s
      else let content = stderrBuf s in
        case index_of content (stderrMarker s) of
          None \<Rightarrow> s
        | Some idx \<Rightarrow>
            (let markerEnd = idx + length (stderrMarker s);
                 markerEnd' = (if markerEnd < length content \<and> content ! markerEnd = CHR 0x0A
                               then markerEnd + 1 else markerEnd)
             in s\<lparr>stderrBuf := take idx content @ drop markerEnd' content, stderrMarker := [],
                  stderrDone := True\<rparr>))"

text \<open>The loop of the reader over what its reads return.\<close>

fun readStderr :: "stderr_state \<Rightarrow> string list \<Rightarrow> stderr_state" where
  "readStderr s [] = s"
| "readStderr s (buf # bufs) =
     readStderr (if buf \<noteq> [] then checkStderrMarker (s\<lparr>stderrBuf := stderrBuf s @ buf\<rparr>) else s) bufs"

definition resetStderr :: "stderr_state \<Rightarrow> stderr_state" where
  "resetStderr s = s\<lparr>stderrBuf := []\<rparr>"

definition getStderr :: "stderr_state \<Rightarrow> string" where
  "getStderr s = stderrBuf s"

section \<open>Scanning the standard output\<close>

text \<open>\<^verbatim>\<open>bufio.ScanLines\<close>: the lines of a text, without the line feed and one carriage return before
  it; a last line without a line feed counts if it is not empty.\<close>

definition dropCR :: "string \<Rightarrow> string" where
  "dropCR l = (if l \<noteq> [] \<and> last l = CHR 0x0D then butlast l else l)"

fun break_nl :: "string \<Rightarrow> string \<times> string option" where
  "break_nl [] = ([], None)"
| "break_nl (c # s) =
     (if c = CHR 0x0A then ([], Some s) else (let (l, r) = break_nl s in (c # l, r)))"

lemma break_nl_shorter: "snd (break_nl s) = Some r \<Longrightarrow> length r < length s"
  by (induction s arbitrary: r) (auto split: if_splits prod.splits simp: less_SucI)

function scan_lines :: "string \<Rightarrow> string list" where
  "scan_lines s =
     (case break_nl s of
        (l, None) \<Rightarrow> if l = [] then [] else [dropCR l]
      | (l, Some r) \<Rightarrow> dropCR l # scan_lines r)"
  by auto
termination
proof (relation "measure length")
  show "(r, s) \<in> measure length" if "(l, y) = break_nl s" "y = Some r" for s l r :: string and y
    using that break_nl_shorter [of s r] by (metis in_measure snd_conv)
qed simp

declare scan_lines.simps [simp del]

text \<open>How the output ends if no further line comes: the pipe is closed, reading fails, or bash is
  still running (and the scanner waits).\<close>

datatype scan_end = Eof | Scan_error ext_error | Waiting

text \<open>\<open>Marker_found\<close> holds the text after the marker, the error of an earlier send and the lines after
  the marker line; \<open>sent\<close> is what went to the channel, oldest first.\<close>

datatype scan_stop =
    Marker_found string "rerr option" "string list"
  | Output_ended "rerr option"

text \<open>The loop over the lines.  \<open>send_err n\<close> is the error of the context if it is cancelled before the
  n-th value is taken from the channel.\<close>

fun scan_loop :: "string \<Rightarrow> (nat \<Rightarrow> ext_error option) \<Rightarrow> bool \<Rightarrow> rerr option \<Rightarrow> string list \<Rightarrow> string list \<Rightarrow>
    scan_stop \<times> string list" where
  "scan_loop marker send_err pendingEmpty sendErr sent [] = (Output_ended sendErr, sent)"
| "scan_loop marker send_err pendingEmpty sendErr sent (line # lines) =
     (if has_prefix line marker
      then (Marker_found (drop (length marker) line) sendErr lines, sent)
      else case sendErr of
        Some e \<Rightarrow> scan_loop marker send_err pendingEmpty (Some e) sent lines
      | None \<Rightarrow>
          (case (if pendingEmpty then send_err (length sent) else None) of
             Some e \<Rightarrow>
               scan_loop marker send_err pendingEmpty
                 (Some (Wrapf ''shell session desynchronized'' (Wrapf ''context'' (Foreign e)))) sent lines
           | None \<Rightarrow>
               (let sent1 = (if pendingEmpty then sent @ [[CHR 0x0A]] else sent) in
                if line = [] then scan_loop marker send_err True None sent1 lines
                else
                  (case send_err (length sent1) of
                     Some e \<Rightarrow>
                       scan_loop marker send_err False
                         (Some (Wrapf ''shell session desynchronized'' (Wrapf ''context'' (Foreign e)))) sent1 lines
                   | None \<Rightarrow> scan_loop marker send_err False None (sent1 @ [line @ [CHR 0x0A]]) lines))))"

section \<open>Executing a command\<close>

record exec_result =
  exitCode :: int
  res_stderr :: string
  res_err :: "rerr option"
  stdout_sent :: "string list"

text \<open>What happens around a call: the clock, the context at its start, the write to the standard
  input, the lines that bash produces and how they end, the channel, and what the reader of the
  standard error reads until \<open>getStderr\<close> (or forever, if the marker does not come); and
  the verb \<^verbatim>\<open>%q\<close> of \<^verbatim>\<open>fmt\<close>, which needs the Unicode tables.\<close>

record call_env =
  nanos :: nat
  ctx_err :: "ext_error option"
  write_err :: "ext_error option"
  produced :: "string list"
  out_end :: scan_end
  send_err :: "nat \<Rightarrow> ext_error option"
  err_reads :: "string list"
  quote_verb :: "string \<Rightarrow> string"

definition marker_of :: "nat \<Rightarrow> string" where
  "marker_of n = ''__MRK_'' @ dec n @ ''_END__''"

definition reloadEnv :: string where
  "reloadEnv = ''unset __HM_SESS_VARS_SOURCED; . '' @ [CHR 0x22] @
     ''$HOME/.nix-profile/etc/profile.d/hm-session-vars.sh'' @ [CHR 0x22] @ '' 2>/dev/null || true''"

definition script_of :: "string \<Rightarrow> string \<Rightarrow> string" where
  "script_of command marker =
     (let nl = [CHR 0x0A]; q = [CHR 0x27] in
      reloadEnv @ nl @ command @ nl @ ''__ec=$?'' @ nl @ reloadEnv @ nl @
      ''builtin echo '' @ q @ marker @ q @ '' >&2'' @ nl @
      ''builtin echo '' @ q @ q @ nl @ ''builtin echo '' @ q @ marker @ q @ ''${__ec}'' @ nl)"

definition failed :: "rerr \<Rightarrow> string list \<Rightarrow> exec_result" where
  "failed err sent = \<lparr>exitCode = -1, res_stderr = [], res_err = Some err, stdout_sent = sent\<rparr>"

text \<open>The state after the loop: \<open>s.broken\<close> was set when a send failed.\<close>

definition after_loop :: "bashShell \<Rightarrow> rerr option \<Rightarrow> string list \<Rightarrow> bashShell" where
  "after_loop s sendErr rest = s\<lparr>broken := sendErr, unread := rest\<rparr>"

text \<open>\<open>None\<close>: the call never returns.\<close>

definition ExecuteStream :: "call_env \<Rightarrow> string \<Rightarrow> bashShell \<Rightarrow> (exec_result \<times> bashShell) option" where
  "ExecuteStream en command s =
     (case broken s of
        Some err \<Rightarrow> Some (failed err [], s)
      | None \<Rightarrow>
          (let marker = marker_of (nanos en);
               s1 = s\<lparr>stderr_st := (resetStderr (stderr_st s))\<lparr>stderrMarker := marker, stderrDone := False\<rparr>\<rparr> in
           case ctx_err en of
             Some e \<Rightarrow> Some (failed (Wrapf ''context'' (Foreign e)) [], s1)
           | None \<Rightarrow>
               (case write_err en of
                  Some e \<Rightarrow>
                    (let err = Wrapf ''shell session desynchronized: write command'' (Foreign e) in
                     Some (failed err [], s1\<lparr>broken := Some err\<rparr>))
                | None \<Rightarrow>
                    (let s2 = s1\<lparr>stdin_log := stdin_log s1 @ [script_of command marker]\<rparr> in
                     case scan_loop marker (send_err en) False None [] (unread s2 @ produced en) of
                       (Marker_found ecStr sendErr rest, sent) \<Rightarrow>
                         (let s3 = after_loop s2 sendErr rest in
                          case Atoi ecStr of
                            None \<Rightarrow> Some (failed (Wrapf (''parse exit code '' @ quote_verb en ecStr)
                                (New_error (Atoi_err (quote_verb en) ecStr))) sent, s3)
                          | Some ec \<Rightarrow>
                              (let st = readStderr (stderr_st s3) (err_reads en);
                                   s4 = s3\<lparr>stderr_st := st\<rparr> in
                               if \<not> stderrDone st then None
                               else (case sendErr of
                                       Some err \<Rightarrow> Some (failed err sent, s4\<lparr>broken := None\<rparr>)
                                     | None \<Rightarrow>
                                         Some (\<lparr>exitCode = ec, res_stderr = getStderr st, res_err = None,
                                                stdout_sent = sent\<rparr>, s4))))
                     | (Output_ended sendErr, sent) \<Rightarrow>
                         (case out_end en of
                            Waiting \<Rightarrow> None
                          | Scan_error e \<Rightarrow>
                              Some (failed (Wrapf ''scan stdout'' (Foreign e)) sent,
                                    after_loop s2 (Some (Wrapf ''shell session desynchronized: scan stdout'' (Foreign e))) [])
                          | Eof \<Rightarrow>
                              Some (failed (New_error ''unexpected end of stdout'') sent,
                                    after_loop s2 (Some (New_error
                                      ''shell session desynchronized: unexpected end of stdout'')) []))))))"

text \<open>Closing: the errors of writing \<^verbatim>\<open>exit\<close> and of waiting for the process are arguments.\<close>

definition Close :: "(ext_error \<Rightarrow> string) \<Rightarrow> ext_error option \<Rightarrow> ext_error option \<Rightarrow> bashShell \<Rightarrow>
    rerr option \<times> bashShell" where
  "Close text writeErr waitErr s =
     (let s1 = (if writeErr = None then s\<lparr>stdin_log := stdin_log s @ [''exit'' @ [CHR 0x0A]]\<rparr> else s) in
      (case (writeErr, waitErr) of
         (Some e, Some e2) \<Rightarrow> Some (Wrapf (''write exit: '' @ text e @ ''; wait'') (Foreign e2))
       | (Some e, None) \<Rightarrow> Some (Wrapf ''write exit'' (Foreign e))
       | (None, Some e2) \<Rightarrow> Some (Foreign e2)
       | (None, None) \<Rightarrow> None, s1))"
end
