(* ===== verification/Runner_Shell_Facts.thy ===== *)
theory Runner_Shell_Facts
  imports Runner_Shell
begin
text \<open>
  The marker protocol: what the loop over the lines sends and where it stops, and how the marker
  leaves the standard error, however the reads cut it.
\<close>

abbreviation NL :: char where "NL \<equiv> CHR 0x0A"
abbreviation CR :: char where "CR \<equiv> CHR 0x0D"

section \<open>Lines\<close>

lemma break_nl_hit [simp]: "NL \<notin> set l \<Longrightarrow> break_nl (l @ NL # r) = (l, Some r)"
  by (induction l) auto

lemma break_nl_miss [simp]: "NL \<notin> set l \<Longrightarrow> break_nl l = (l, None)"
  by (induction l) auto

lemma last_not_nl [simp]: "NL \<notin> set l \<Longrightarrow> l \<noteq> [] \<Longrightarrow> last l \<noteq> NL"
  by (metis last_in_set)

lemma dropCR_id [simp]: "CR \<notin> set l \<Longrightarrow> dropCR l = l"
  unfolding dropCR_def by (metis last_in_set)

lemma scan_lines_Nil [simp]: "scan_lines [] = []"
  by (subst scan_lines.simps) simp

lemma scan_lines_line [simp]: "NL \<notin> set l \<Longrightarrow> scan_lines (l @ NL # r) = dropCR l # scan_lines r"
  by (subst scan_lines.simps) simp

lemma scan_lines_empty [simp]: "scan_lines (NL # r) = [] # scan_lines r"
  using scan_lines_line [of "[]" r] by simp

lemma scan_lines_last [simp]: "NL \<notin> set l \<Longrightarrow> scan_lines l = (if l = [] then [] else [dropCR l])"
  by (subst scan_lines.simps) simp

text \<open>Reasoning about a text line by line.\<close>

lemma lines_induct [case_names last line]:
  assumes "\<And>l. NL \<notin> set l \<Longrightarrow> Q l" and "\<And>l r. NL \<notin> set l \<Longrightarrow> Q r \<Longrightarrow> Q (l @ NL # r)"
  shows "Q s"
proof (induction "length s" arbitrary: s rule: less_induct)
  case less
  show ?case
  proof (cases "NL \<in> set s")
    case False
    then show ?thesis by (rule assms(1))
  next
    case True
    then obtain l r where "s = l @ NL # r" "NL \<notin> set l" by (meson split_list_first)
    with less assms(2) show ?thesis by auto
  qed
qed

lemma scan_lines_append: "scan_lines (a @ NL # b) = scan_lines (a @ [NL]) @ scan_lines b"
  by (induction a rule: lines_induct) simp_all

lemma scan_lines_end:
  "scan_lines (s @ [NL]) = scan_lines s @ (if s = [] \<or> last s = NL then [[]] else [])"
proof (induction s rule: lines_induct)
  case (last l)
  then show ?case by (cases "l = []") simp_all
next
  case (line l r)
  then show ?case by (cases "r = []") auto
qed

definition add_nl :: "string \<Rightarrow> string" where
  "add_nl l = l @ [NL]"

lemma lines_joined:
  "CR \<notin> set s \<Longrightarrow> concat (map add_nl (scan_lines s)) = (if s = [] \<or> last s = NL then s else s @ [NL])"
proof (induction s rule: lines_induct)
  case (last l)
  then show ?case by (cases "l = []") (simp_all add: add_nl_def)
next
  case (line l r)
  then show ?case by (cases "r = []") (auto simp: add_nl_def)
qed

lemma scan_lines_no_CR: "CR \<notin> set s \<Longrightarrow> s \<noteq> [] \<Longrightarrow> last s \<noteq> NL \<Longrightarrow> last (scan_lines s) \<noteq> [] \<and> scan_lines s \<noteq> []"
proof (induction s rule: lines_induct)
  case (last l)
  then show ?case by simp
next
  case (line l r)
  then show ?case by (cases "r = []") auto
qed

section \<open>The loop over the lines\<close>

text \<open>Without cancellation every line before the marker is sent, but an empty line right before it.\<close>

definition drop_last_empty :: "string list \<Rightarrow> string list" where
  "drop_last_empty ls = (if ls \<noteq> [] \<and> last ls = [] then butlast ls else ls)"

lemma drop_last_empty_Cons:
  "drop_last_empty (l # ls) = (if ls = [] \<and> l = [] then [] else l # drop_last_empty ls)"
  by (auto simp: drop_last_empty_def)

lemma scan_loop_marker:
  assumes "\<And>n. f n = None" and "\<forall>l \<in> set ls. \<not> has_prefix l m"
  shows "scan_loop m f p None sent (ls @ (m @ ec) # rest) =
    (Marker_found ec None rest, sent @ map add_nl (drop_last_empty ((if p then [[]] else []) @ ls)))"
  using assms(2)
proof (induction ls arbitrary: p sent)
  case Nil
  then show ?case by (simp add: drop_last_empty_def)
next
  case (Cons l ls)
  then show ?case
    by (cases "l = []") (auto simp: assms(1) Let_def drop_last_empty_Cons add_nl_def)
qed

text \<open>Wherever the loop stops at a marker, it has consumed exactly the lines up to the first one.\<close>

lemma scan_loop_stop:
  assumes "scan_loop m f p se sent ls = (Marker_found ec se' rest, sent')"
  shows "\<exists>pre. ls = pre @ (m @ ec) # rest \<and> (\<forall>l \<in> set pre. \<not> has_prefix l m)"
  using assms
proof (induction m f p se sent ls rule: scan_loop.induct)
  case (2 m f p se sent line lines)
  show ?case
  proof (cases "has_prefix line m")
    case True
    with 2(6) have "ec = drop (length m) line" "rest = lines" by auto
    with has_prefix_drop [OF True] show ?thesis by (intro exI [of _ "[]"]) simp
  next
    case False
    have "\<exists>p1 se1 sent1. scan_loop m f p1 se1 sent1 lines = (Marker_found ec se' rest, sent')
        \<and> (scan_loop m f p1 se1 sent1 lines = (Marker_found ec se' rest, sent') \<longrightarrow>
           (\<exists>pre. lines = pre @ (m @ ec) # rest \<and> (\<forall>l\<in>set pre. \<not> has_prefix l m)))"
      using 2 False by (auto split: option.splits if_splits simp: Let_def)
    then obtain pre where "lines = pre @ (m @ ec) # rest" "\<forall>l\<in>set pre. \<not> has_prefix l m" by blast
    with False show ?thesis by (intro exI [of _ "line # pre"]) simp
  qed
qed simp

section \<open>The marker in the standard error\<close>

lemma index_of_append: "index_of a m = Some i \<Longrightarrow> index_of (a @ b) m = Some i"
proof (induction a arbitrary: i)
  case Nil
  then show ?case by (cases b) (auto split: if_splits)
next
  case (Cons c a)
  show ?case
  proof (cases "has_prefix (c # a) m")
    case True
    then obtain t where "c # a = m @ t" by (auto simp: has_prefix_iff)
    then have "c # (a @ b) = m @ (t @ b)" by (metis append_Cons append_assoc)
    then have "has_prefix (c # (a @ b)) m" by (metis has_prefix_iff)
    with True Cons.prems show ?thesis by (simp del: has_prefix.simps)
  next
    case False
    with Cons.prems obtain j where j: "index_of a m = Some j" "i = Suc j"
      by (auto simp del: has_prefix.simps)
    have "\<not> has_prefix (c # (a @ b)) m"
    proof
      assume "has_prefix (c # (a @ b)) m"
      then obtain t where t: "c # (a @ b) = m @ t" by (auto simp: has_prefix_iff)
      from index_of_Some [OF j(1)] have "length m \<le> length a" by simp
      with t have "take (length m) (c # a) = m"
        by (metis append_Cons append_eq_conv_conj length_Cons le_SucI take_append
            diff_is_0_eq take_0 append_Nil2)
      then have "has_prefix (c # a) m" by (metis append_take_drop_id has_prefix_iff)
      with False show False ..
    qed
    with Cons.IH [OF j(1)] j(2) show ?thesis by (simp del: has_prefix.simps)
  qed
qed

lemma index_of_prefix_None: "index_of (a @ b) m = None \<Longrightarrow> index_of a m = None"
  using index_of_append by (cases "index_of a m") fastforce+

lemma read_plain:
  "stderrMarker s = [] \<Longrightarrow> readStderr s cs = s\<lparr>stderrBuf := stderrBuf s @ concat cs\<rparr>"
  by (induction cs arbitrary: s) (auto simp: checkStderrMarker_def)

lemma read_pending:
  "stderrMarker s \<noteq> [] \<Longrightarrow> index_of (stderrBuf s @ concat cs) (stderrMarker s) = None \<Longrightarrow>
   readStderr s cs = s\<lparr>stderrBuf := stderrBuf s @ concat cs\<rparr>"
proof (induction cs arbitrary: s)
  case (Cons c cs)
  have "index_of (stderrBuf s @ c) (stderrMarker s) = None"
    using Cons.prems(2) index_of_prefix_None [of "stderrBuf s @ c" "concat cs"] by simp
  then have "checkStderrMarker (s\<lparr>stderrBuf := stderrBuf s @ c\<rparr>) = s\<lparr>stderrBuf := stderrBuf s @ c\<rparr>"
    by (simp add: checkStderrMarker_def Let_def)
  with Cons show ?case by (cases "c = []") simp_all
qed simp

lemma append_longer: "a @ b = c @ d \<Longrightarrow> length c \<le> length a \<Longrightarrow> \<exists>t. a = c @ t \<and> t @ b = d"
proof (induction c arbitrary: a)
  case (Cons x c)
  then show ?case by (cases a) auto
qed simp

lemma read_marker:
  assumes "stderrMarker s = m" "m \<noteq> []" and "stderrBuf s @ concat cs = err @ m @ [NL]"
    and "index_of (stderrBuf s) m = None" and first: "index_of (err @ m) m = Some (length err)"
  shows "stderrDone (readStderr s cs) \<and> stderrBuf (readStderr s cs) \<in> {err, err @ [NL]}"
  using assms(1-4)
proof (induction cs arbitrary: s)
  case Nil
  with index_of_append [OF first, of "[NL]"] show ?case by simp
next
  case (Cons c cs)
  show ?case
  proof (cases "c = []")
    case True
    with Cons show ?thesis by simp
  next
    case ne: False
    let ?b = "stderrBuf s @ c"
    from Cons.prems(3) have whole: "?b @ concat cs = err @ m @ [NL]" by simp
    show ?thesis
    proof (cases "index_of ?b m")
      case None
      with Cons.prems(1) have "checkStderrMarker (s\<lparr>stderrBuf := ?b\<rparr>) = s\<lparr>stderrBuf := ?b\<rparr>"
        by (simp add: checkStderrMarker_def Let_def)
      with Cons.IH [of "s\<lparr>stderrBuf := ?b\<rparr>"] Cons.prems None whole ne show ?thesis by simp
    next
      case (Some i)
      have "index_of (err @ m @ [NL]) m = Some i" using index_of_append [OF Some] whole by metis
      moreover have "index_of (err @ m @ [NL]) m = Some (length err)"
        using index_of_append [OF first, of "[NL]"] by simp
      ultimately have i: "i = length err" by simp
      from index_of_Some [OF Some] have "i + length m \<le> length ?b" by blast
      with i have "length (err @ m) \<le> length ?b" by simp
      with append_longer [of ?b "concat cs" "err @ m" "[NL]"] whole obtain t where
        t: "?b = (err @ m) @ t" "t @ concat cs = [NL]" by (metis append_assoc)
      then consider "t = []" "concat cs = [NL]" | "t = [NL]" "concat cs = []"
        by (cases t) auto
      then show ?thesis
      proof cases
        case 1
        with t Some i Cons.prems(1,2) have "checkStderrMarker (s\<lparr>stderrBuf := ?b\<rparr>) =
            s\<lparr>stderrBuf := err, stderrMarker := [], stderrDone := True\<rparr>"
          by (simp add: checkStderrMarker_def Let_def)
        with ne 1 show ?thesis by (simp add: read_plain)
      next
        case 2
        with t Some i Cons.prems(1,2) have "checkStderrMarker (s\<lparr>stderrBuf := ?b\<rparr>) =
            s\<lparr>stderrBuf := err, stderrMarker := [], stderrDone := True\<rparr>"
          by (simp add: checkStderrMarker_def Let_def nth_append)
        with ne 2 show ?thesis by (simp add: read_plain)
      qed
    qed
  qed
qed
end
