(* ===== verification/Runner_Shell_Properties.thy ===== *)
theory Runner_Shell_Properties
  imports Runner_Shell_Facts
begin
text \<open>
  The properties of the runner's bash session: what a command's caller gets, how the session stays
  in step with bash, and when a call does not return.
\<close>

lemma marker_plain: "NL \<notin> set (marker_of n)" "CR \<notin> set (marker_of n)" "marker_of n \<noteq> []"
proof -
  have d: "c \<in> set (dec n) \<Longrightarrow> is_digit c" for c using dec_digits [of n] by (simp add: list_all_iff)
  have "\<not> is_digit NL" "\<not> is_digit CR" by (simp_all add: is_digit_def)
  with d show "NL \<notin> set (marker_of n)" "CR \<notin> set (marker_of n)" "marker_of n \<noteq> []"
    by (auto simp: marker_of_def)
qed

lemma dec_plain: "NL \<notin> set (dec n)" "CR \<notin> set (dec n)"
proof -
  have d: "c \<in> set (dec n) \<Longrightarrow> is_digit c" for c using dec_digits [of n] by (simp add: list_all_iff)
  have "\<not> is_digit NL" "\<not> is_digit CR" by (simp_all add: is_digit_def)
  with d show "NL \<notin> set (dec n)" "CR \<notin> set (dec n)" by auto
qed

text \<open>What bash writes to its standard output for the script of a command: the output of the command,
  an empty line's end, and the marker with the exit code.\<close>

definition framed :: "string \<Rightarrow> nat \<Rightarrow> nat \<Rightarrow> string" where
  "framed out n ec = out @ NL # marker_of n @ dec ec @ [NL]"

lemma framed_lines: "scan_lines (framed out n ec) = scan_lines (out @ [NL]) @ [marker_of n @ dec ec]"
proof -
  let ?l = "marker_of n @ dec ec"
  have nl: "NL \<notin> set ?l" and cr: "CR \<notin> set ?l" using marker_plain [of n] dec_plain [of ec] by auto
  from scan_lines_line [OF nl, of "[]"] have "scan_lines (?l @ [NL]) = [?l]"
    unfolding dropCR_id [OF cr] scan_lines_Nil .
  then show ?thesis unfolding framed_def using scan_lines_append [of out "?l @ [NL]"] by simp
qed

lemma stream_exact:
  assumes "broken s = None" and "unread s = []"
    and "ctx_err en = None" and "write_err en = None" and "\<forall>k. send_err en k = None"
    and "produced en = scan_lines (framed out (nanos en) ec)" and "ec < 256"
    and "CR \<notin> set out" and "\<forall>l \<in> set (scan_lines out). \<not> has_prefix l (marker_of (nanos en))"
    and "concat (err_reads en) = err @ marker_of (nanos en) @ [NL]"
    and "index_of (err @ marker_of (nanos en)) (marker_of (nanos en)) = Some (length err)"
  shows "\<exists>r s'. ExecuteStream en command s = Some (r, s') \<and> res_err r = None \<and> exitCode r = int ec \<and>
    concat (stdout_sent r) = (if out = [] \<or> last out = NL then out else out @ [NL]) \<and>
    res_stderr r \<in> {err, err @ [NL]} \<and>
    broken s' = None \<and> unread s' = [] \<and> stdin_log s' = stdin_log s @ [script_of command (marker_of (nanos en))]"
proof -
  let ?m = "marker_of (nanos en)"
  define ls where "ls = scan_lines (out @ [NL])"
  have lines: "produced en = ls @ [?m @ dec ec]" using assms(6) by (simp add: framed_lines ls_def)
  have "\<not> has_prefix [] ?m" using marker_plain(3) [of "nanos en"] by (cases ?m) auto
  then have plain: "\<forall>l \<in> set ls. \<not> has_prefix l ?m"
    using assms(9) by (auto simp: ls_def scan_lines_end split: if_splits)
  have kept: "drop_last_empty ls = scan_lines out"
    using scan_lines_no_CR [OF assms(8)] by (auto simp: ls_def scan_lines_end drop_last_empty_def)
  have loop: "scan_loop ?m (send_err en) False None [] (ls @ (?m @ dec ec) # []) =
      (Marker_found (dec ec) None [], map add_nl (scan_lines out))"
    using scan_loop_marker [of "send_err en" ls ?m False "[]" "dec ec" "[]"] assms(5) plain kept by simp
  have ec: "Atoi (dec ec) = Some (int ec)"
    using Atoi_dec_int [of "int ec"] assms(7) by (simp add: dec_int_def)
  let ?st = "(resetStderr (stderr_st s))\<lparr>stderrMarker := ?m, stderrDone := False\<rparr>"
  have "index_of [] ?m = None" using marker_plain(3) [of "nanos en"] by simp
  with read_marker [of ?st ?m "err_reads en" err] marker_plain(3) [of "nanos en"] assms(10,11)
  have st: "stderrDone (readStderr ?st (err_reads en))" "stderrBuf (readStderr ?st (err_reads en)) \<in> {err, err @ [NL]}"
    by (simp_all add: resetStderr_def)
  show ?thesis
    using assms(1-4) loop ec st lines_joined [OF assms(8)]
    by (simp add: ExecuteStream_def Let_def lines after_loop_def getStderr_def)
qed

text \<open>C27. A caller gets exactly what the command wrote.  For every output without carriage returns
  that does not contain the marker at the start of a line, the values on the channel joined are the
  output (with a line feed added if the last line lacks one), the exit code is the command's, the
  error text is what the command wrote to its standard error however the reads cut it (up to one line
  feed, if the reads cut right behind the marker), and the session is ready for the next command.\<close>

theorem stream_is_exact:
  assumes "broken s = None" and "unread s = []"
    and "ctx_err en = None" and "write_err en = None" and "\<forall>k. send_err en k = None"
    and "produced en = scan_lines (framed out (nanos en) ec)" and "ec < 256"
    and "CR \<notin> set out" and "\<forall>l \<in> set (scan_lines out). \<not> has_prefix l (marker_of (nanos en))"
    and "concat (err_reads en) = err @ marker_of (nanos en) @ [NL]"
    and "index_of (err @ marker_of (nanos en)) (marker_of (nanos en)) = Some (length err)"
  shows "\<exists>r s'. ExecuteStream en command s = Some (r, s') \<and> res_err r = None \<and> exitCode r = int ec \<and>
    concat (stdout_sent r) = (if out = [] \<or> last out = NL then out else out @ [NL]) \<and>
    res_stderr r \<in> {err, err @ [NL]} \<and>
    broken s' = None \<and> unread s' = [] \<and> stdin_log s' = stdin_log s @ [script_of command (marker_of (nanos en))]"
  by (rule stream_exact [OF assms])

definition demo_call :: "string list \<Rightarrow> string list \<Rightarrow> call_env" where
  "demo_call ls reads = \<lparr>nanos = 7, ctx_err = None, write_err = None, produced = ls, out_end = Waiting,
     send_err = (\<lambda>k. None), err_reads = reads, quote_verb = (\<lambda>s. CHR 0x22 # s @ [CHR 0x22])\<rparr>"

definition demo_shell :: bashShell where
  "demo_shell = \<lparr>stderr_st = \<lparr>stderrBuf = [], stderrMarker = [], stderrDone = False\<rparr>, broken = None,
     unread = [], stdin_log = []\<rparr>"

lemma digit_chars [simp]: "char_of (55 :: nat) = CHR ''7''" "char_of (48 :: nat) = CHR ''0''"
  by (simp_all add: char_of_eq_iff take_bit_eq_mod)

lemma marker_7: "marker_of 7 = ''__MRK_7_END__''"
  by (simp add: marker_of_def dec.simps)

theorem stream_is_exact_witness:
  "\<exists>r s'. ExecuteStream (demo_call [''hi'', ''__MRK_7_END__0''] [''oops__MRK'', ''_7_END__'' @ [NL]]) ''echo hi'' demo_shell =
      Some (r, s') \<and> exitCode r = 0 \<and> concat (stdout_sent r) = ''hi'' @ [NL] \<and> res_stderr r \<in> {''oops'', ''oops'' @ [NL]}"
proof -
  let ?en = "demo_call [''hi'', ''__MRK_7_END__0''] [''oops__MRK'', ''_7_END__'' @ [NL]]"
  have n: "nanos ?en = 7" by (simp add: demo_call_def)
  have "scan_lines (''hi'' @ [NL]) = [''hi'']" using scan_lines_line [of "''hi''" "[]"] by simp
  then have fr: "produced ?en = scan_lines (framed ''hi'' (nanos ?en) 0)"
    unfolding framed_lines n by (simp add: demo_call_def marker_7 dec.simps)
  have hi: "\<forall>l \<in> set (scan_lines ''hi''). \<not> has_prefix l (marker_of (nanos ?en))"
    unfolding n marker_7 by simp
  have er: "concat (err_reads ?en) = ''oops'' @ marker_of (nanos ?en) @ [NL]"
    unfolding n marker_7 by (simp add: demo_call_def)
  have ix: "index_of (''oops'' @ marker_of (nanos ?en)) (marker_of (nanos ?en)) = Some (length ''oops'')"
    unfolding n marker_7 by simp
  have "broken demo_shell = None" "unread demo_shell = []" "ctx_err ?en = None" "write_err ?en = None"
    "\<forall>k. send_err ?en k = None" by (simp_all add: demo_shell_def demo_call_def)
  from stream_is_exact [OF this fr _ _ hi er ix, of "''echo hi''"] show ?thesis by auto
qed

text \<open>C28. The session stays in step with bash or is given up: a call on a session that is given up
  reports the reason and touches nothing; a call that ran a script and leaves the session usable has
  consumed the output exactly up to and including the first line with its own marker.\<close>

theorem session_stays_in_step:
  assumes "ExecuteStream en command s = Some (r, s')"
  shows "case broken s of
      Some err \<Rightarrow> s' = s \<and> r = \<lparr>exitCode = -1, res_stderr = [], res_err = Some err, stdout_sent = []\<rparr>
    | None \<Rightarrow> broken s' \<noteq> None \<or>
        (stdin_log s' = stdin_log s \<and> unread s' = unread s \<and> stdout_sent r = [] \<and> ctx_err en \<noteq> None) \<or>
        (stdin_log s' = stdin_log s @ [script_of command (marker_of (nanos en))] \<and>
         (\<exists>pre ec. unread s @ produced en = pre @ (marker_of (nanos en) @ ec) # unread s' \<and>
            (\<forall>l \<in> set pre. \<not> has_prefix l (marker_of (nanos en)))))"
proof (cases "broken s")
  case (Some err)
  with assms show ?thesis by (simp add: ExecuteStream_def failed_def)
next
  case None
  let ?m = "marker_of (nanos en)"
  show ?thesis
  proof (cases "ctx_err en = None \<and> write_err en = None")
    case False
    with assms None show ?thesis
      by (auto simp: ExecuteStream_def Let_def failed_def split: option.splits)
  next
    case True
    obtain stop sent where loop: "scan_loop ?m (send_err en) False None [] (unread s @ produced en) = (stop, sent)"
      by fastforce
    show ?thesis
    proof (cases stop)
      case (Output_ended se)
      with assms None True loop show ?thesis
        by (auto simp: ExecuteStream_def Let_def after_loop_def split: scan_end.splits)
    next
      case (Marker_found ec se rest)
      with scan_loop_stop loop have "\<exists>pre. unread s @ produced en = pre @ (?m @ ec) # rest \<and>
          (\<forall>l \<in> set pre. \<not> has_prefix l ?m)" by blast
      moreover from assms None True loop Marker_found have
        "unread s' = rest" "stdin_log s' = stdin_log s @ [script_of command ?m]"
        by (auto simp: ExecuteStream_def Let_def after_loop_def split: option.splits if_splits)
      ultimately show ?thesis using None by auto
    qed
  qed
qed

theorem session_stays_in_step_witness:
  "\<exists>s'. ExecuteStream (demo_call [''hi'', ''__MRK_7_END__0'', ''next''] [''__MRK_7_END__'']) ''echo hi'' demo_shell =
     Some (\<lparr>exitCode = 0, res_stderr = [], res_err = None, stdout_sent = [''hi'' @ [NL]]\<rparr>, s') \<and>
     (\<exists>pre ec. [''hi'', ''__MRK_7_END__0'', ''next''] = pre @ (''__MRK_7_END__'' @ ec) # unread s')"
proof -
  let ?en = "demo_call [''hi'', ''__MRK_7_END__0'', ''next''] [''__MRK_7_END__'']"
  have z: "Atoi ''0'' = Some 0" by (simp add: Atoi_def is_digit_def)
  have "\<exists>s'. ExecuteStream ?en ''echo hi'' demo_shell =
     Some (\<lparr>exitCode = 0, res_stderr = [], res_err = None, stdout_sent = [''hi'' @ [NL]]\<rparr>, s') \<and> broken s' = None"
    by (simp add: ExecuteStream_def demo_call_def demo_shell_def marker_7 Let_def z after_loop_def resetStderr_def
        checkStderrMarker_def getStderr_def)
  then obtain s' where s': "ExecuteStream ?en ''echo hi'' demo_shell =
     Some (\<lparr>exitCode = 0, res_stderr = [], res_err = None, stdout_sent = [''hi'' @ [NL]]\<rparr>, s')" "broken s' = None" by blast
  have parts: "unread demo_shell = []" "broken demo_shell = None" "nanos ?en = 7" "ctx_err ?en = None"
    "produced ?en = [''hi'', ''__MRK_7_END__0'', ''next'']" by (simp_all add: demo_call_def demo_shell_def)
  from session_stays_in_step [OF s'(1)] s'(2) have
    "\<exists>pre ec. [''hi'', ''__MRK_7_END__0'', ''next''] = pre @ (''__MRK_7_END__'' @ ec) # unread s'"
    by (simp add: parts marker_7) blast
  with s'(1) show ?thesis by blast
qed

text \<open>C29. A call whose marker does not come through the standard error never returns, although the
  command has ended and its exit code has been read: a command that redirects or closes the standard
  error of the session (\<^verbatim>\<open>exec 2>/dev/null\<close>) blocks the session for good, its lock included.\<close>

theorem lost_stderr_marker_blocks:
  assumes "broken s = None" and "ctx_err en = None" and "write_err en = None"
    and "scan_loop (marker_of (nanos en)) (send_err en) False None [] (unread s @ produced en) =
      (Marker_found (dec ec) sendErr rest, sent)" and "ec < 256"
    and "index_of (concat (err_reads en)) (marker_of (nanos en)) = None"
  shows "ExecuteStream en command s = None"
proof -
  let ?m = "marker_of (nanos en)"
  let ?st = "(resetStderr (stderr_st s))\<lparr>stderrMarker := ?m, stderrDone := False\<rparr>"
  have "readStderr ?st (err_reads en) = ?st\<lparr>stderrBuf := stderrBuf ?st @ concat (err_reads en)\<rparr>"
    by (rule read_pending) (use assms(6) marker_plain(3) in \<open>simp_all add: resetStderr_def\<close>)
  then have "\<not> stderrDone (readStderr ?st (err_reads en))" by simp
  moreover have "Atoi (dec ec) = Some (int ec)"
    using Atoi_dec_int [of "int ec"] assms(5) by (simp add: dec_int_def)
  ultimately show ?thesis
    using assms(1-4) by (simp add: ExecuteStream_def Let_def after_loop_def)
qed

theorem lost_stderr_marker_blocks_witness:
  "ExecuteStream (demo_call [[], ''__MRK_7_END__0''] []) ''exec 2>/dev/null'' demo_shell = None"
proof -
  let ?en = "demo_call [[], ''__MRK_7_END__0''] []"
  have parts: "unread demo_shell = []" "broken demo_shell = None" "nanos ?en = 7" "ctx_err ?en = None" "write_err ?en = None"
    "produced ?en = [[], ''__MRK_7_END__0'']" "err_reads ?en = []" "send_err ?en = (\<lambda>k. None)"
    by (simp_all add: demo_call_def demo_shell_def)
  have "scan_loop (marker_of (nanos ?en)) (send_err ?en) False None [] (unread demo_shell @ produced ?en) =
      (Marker_found (dec 0) None [], [])"
    by (simp add: parts marker_7 dec.simps)
  from lost_stderr_marker_blocks [OF parts(2,4,5) this] show ?thesis
    by (simp add: parts marker_7)
qed
end
