(* ===== verification/Runner_Service.thy ===== *)
theory Runner_Service
  imports Runner_Shell Runner_Validate
begin
text \<open>
  The runner around its shells: the sessions (\<open>runner/session.go\<close>), the judgement of commands by a
  language model (\<open>runner/llm_validator.go\<close>), the HTTP handlers (\<open>runner/handler.go\<close>), the
  registration with the broker (\<open>runner/register.go\<close>, \<open>runner/identity.go\<close>) and the life of the
  process (\<open>runner/main.go\<close>).
\<close>

fun runner_err_text :: "runner_err \<Rightarrow> string" where
  "runner_err_text ErrSessionNotFound = ''session not found''"

fun rerr_text :: "(ext_error \<Rightarrow> string) \<Rightarrow> rerr \<Rightarrow> string" where
  "rerr_text ext (Sentinel s) = runner_err_text s"
| "rerr_text ext (New_error s) = s"
| "rerr_text ext (Wrapf p e) = p @ '': '' @ rerr_text ext e"
| "rerr_text ext (Foreign x) = ext x"

section \<open>Sessions\<close>

text \<open>The interface of a shell, over handles \<open>'sh\<close>.\<close>

record ('sh, 'w) Shell =
  sh_ExecuteStream :: "'sh \<Rightarrow> string \<Rightarrow> 'w \<Rightarrow> (exec_result \<times> 'w) option"
  sh_Close :: "'sh \<Rightarrow> 'w \<Rightarrow> rerr option \<times> 'w"

record ('sh, 'w) SessionManager =
  sessions :: "string \<Rightarrow> 'sh option"
  genID :: "'w \<Rightarrow> (rerr + string) \<times> 'w"
  newShell :: "'w \<Rightarrow> (rerr + 'sh) \<times> 'w"

text \<open>\<open>rand_Read\<close> fills a buffer; its error is ignored.\<close>

definition generateID :: "(nat \<Rightarrow> 'w \<Rightarrow> string \<times> 'w) \<Rightarrow> 'w \<Rightarrow> (rerr + string) \<times> 'w" where
  "generateID rand_Read w = (let (b, w1) = rand_Read 16 w in (Inr (hex_encode b), w1))"

definition NewSessionManager ::
  "('w \<Rightarrow> (rerr + string) \<times> 'w) \<Rightarrow> ('w \<Rightarrow> (rerr + 'sh) \<times> 'w) \<Rightarrow> ('sh, 'w) SessionManager" where
  "NewSessionManager gen new = \<lparr>sessions = Map.empty, genID = gen, newShell = new\<rparr>"

text \<open>The verb \<^verbatim>\<open>%q\<close> of the last error is applied to an identifier in hexadecimal: it only adds the quotes.\<close>

definition Create :: "('sh, 'w) Shell \<Rightarrow> ('sh, 'w) SessionManager \<Rightarrow> 'w \<Rightarrow>
    (rerr + string \<times> 'sh) \<times> ('sh, 'w) SessionManager \<times> 'w" where
  "Create sh m w =
     (case genID m w of
        (Inl err, w1) \<Rightarrow> (Inl err, m, w1)
      | (Inr i, w1) \<Rightarrow>
          (case newShell m w1 of
             (Inl err, w2) \<Rightarrow> (Inl (Wrapf ''create session'' err), m, w2)
           | (Inr shell, w2) \<Rightarrow>
               (case sessions m i of
                  Some _ \<Rightarrow>
                    (let (_, w3) = sh_Close sh shell w2 in
                     (Inl (New_error (''create session: duplicate session id '' @ [CHR 0x22] @ i @ [CHR 0x22])), m, w3))
                | None \<Rightarrow> (Inr (i, shell), m\<lparr>sessions := (sessions m)(i \<mapsto> shell)\<rparr>, w2))))"

definition session_Get :: "('sh, 'w) SessionManager \<Rightarrow> string \<Rightarrow> rerr + 'sh" where
  "session_Get m i = (case sessions m i of None \<Rightarrow> Inl (Sentinel ErrSessionNotFound) | Some shell \<Rightarrow> Inr shell)"

definition session_Delete :: "('sh, 'w) Shell \<Rightarrow> ('sh, 'w) SessionManager \<Rightarrow> string \<Rightarrow> 'w \<Rightarrow>
    rerr option \<times> ('sh, 'w) SessionManager \<times> 'w" where
  "session_Delete sh m i w =
     (case sessions m i of
        None \<Rightarrow> (Some (Sentinel ErrSessionNotFound), m, w)
      | Some shell \<Rightarrow>
          (let m1 = m\<lparr>sessions := (sessions m)(i := None)\<rparr>; (r, w1) = sh_Close sh shell w in (r, m1, w1)))"

fun close_each :: "('sh, 'w) Shell \<Rightarrow> 'sh list \<Rightarrow> rerr option \<Rightarrow> 'w \<Rightarrow> rerr option \<times> 'w" where
  "close_each sh [] firstErr w = (firstErr, w)"
| "close_each sh (shell # shells) firstErr w =
     (let (r, w1) = sh_Close sh shell w in
      close_each sh shells (if r \<noteq> None \<and> firstErr = None then r else firstErr) w1)"

text \<open>\<open>range_of\<close> is the order in which Go ranges over a map.\<close>

definition CloseAll :: "((string \<Rightarrow> 'sh option) \<Rightarrow> string list) \<Rightarrow> ('sh, 'w) Shell \<Rightarrow> ('sh, 'w) SessionManager \<Rightarrow> 'w \<Rightarrow>
    rerr option \<times> ('sh, 'w) SessionManager \<times> 'w" where
  "CloseAll range_of sh m w =
     (let old = sessions m; m1 = m\<lparr>sessions := Map.empty\<rparr>;
          (r, w1) = close_each sh (map (\<lambda>i. the (old i)) (range_of old)) None w
      in (r, m1, w1))"

section \<open>Judging a command\<close>

record ValidationResult =
  Safe :: bool
  Reason :: string

datatype verr = ValidationUnavailableError ext_error | Validation_error rerr

text \<open>What the Converse API answers: the content of a message, or something else; \<open>'doc\<close> is an input
  document of a tool use.\<close>

datatype 'doc block = Tool_use "string option" 'doc | Other_block

datatype 'doc converse_output = Message_output "'doc block list" | Other_output

text \<open>The request: the model, the system prompt, one user message, and the tool that the model must use,
  whose input schema is a document.\<close>

datatype schema_doc = Doc_string string | Doc_list "string list" | Doc_map "(string \<times> schema_doc) list"

record tool_spec =
  tool_Name :: string
  tool_Description :: string
  tool_InputSchema :: schema_doc

datatype tool_choice = Any_tool

record converse_input =
  ModelId :: string
  System :: "string list"
  User_messages :: "string list"
  Tools :: "tool_spec list"
  ToolChoice :: tool_choice

record ('doc, 'w) BedrockValidator =
  Converse :: "converse_input \<Rightarrow> 'w \<Rightarrow> (ext_error + 'doc converse_output option) \<times> 'w"
  modelID :: string
  MarshalSmithyDocument :: "'doc \<Rightarrow> ext_error + string"
  jsonUnmarshalResult :: "string \<Rightarrow> ext_error + ValidationResult"

text \<open>The lines of a text, with a line feed between any two.\<close>

fun join_lines :: "string list \<Rightarrow> string" where
  "join_lines [] = []"
| "join_lines [l] = l"
| "join_lines (l # ls) = l @ CHR 0x0A # join_lines ls"

definition systemPrompt :: string where
  "systemPrompt = join_lines
    [''You are a security validator for a shell environment.'',
     ''Your job is to judge whether a given shell command is safe to execute.'',
     [],
     ''Safe commands:'',
     ''- Read-only operations like ls, cat, head, tail, grep, find, du, df, ps, top, free'',
     ''- Commands with safe flags like ls -la, uname -a'',
     ''- Navigation commands like cd, pwd'',
     ''- Echo and printf for display'',
     ''- File modification commands like rm, mv, chmod, chown, truncate on non-system files'',
     ''- HTTP GET requests via curl or wget'',
     ''- All network requests to localhost or 127.0.0.1 regardless of method'',
     [],
     ''Unsafe commands:'',
     ''- File modification on system paths like /etc, /root, /var, /usr, /boot, /sys, /proc'',
     ''- Package management: apt, yum, pip, npm install'',
     ''- HTTP POST, PUT, DELETE or file upload to external hosts via curl, wget, nc, ssh'',
     ''- Process manipulation: kill, reboot, shutdown'',
     ''- Disk operations: dd, mkfs, mount'',
     ''- Shell escapes and chaining that hide dangerous operations'',
     ''- Commands using backticks, $(), or pipe to shell for code injection'',
     ''- Writing files whose content would be unsafe if executed, such as malicious scripts or code that performs the unsafe actions listed above'',
     [],
     ''Use the command_safety_judgment tool to report your decision.'']"

definition toolName :: string where
  "toolName = ''command_safety_judgment''"

definition toolSchema :: schema_doc where
  "toolSchema = Doc_map
     [(''type'', Doc_string ''object''),
      (''properties'', Doc_map
        [(''safe'', Doc_map
           [(''type'', Doc_string ''boolean''),
            (''description'', Doc_string ''true if the command is safe to execute, false otherwise'')]),
         (''reason'', Doc_map
           [(''type'', Doc_string ''string''),
            (''description'', Doc_string ''brief explanation of why the command is safe or unsafe'')])]),
      (''required'', Doc_list [''safe'', ''reason''])]"

definition maxRetries :: nat where
  "maxRetries = 2"

fun parse_blocks :: "('doc, 'w) BedrockValidator \<Rightarrow> 'doc block list \<Rightarrow> rerr + ValidationResult" where
  "parse_blocks v [] = Inl (New_error ''no expected tool use block in response'')"
| "parse_blocks v (Other_block # bs) = parse_blocks v bs"
| "parse_blocks v (Tool_use name input # bs) =
     (if name \<noteq> Some toolName then parse_blocks v bs
      else case MarshalSmithyDocument v input of
             Inl e \<Rightarrow> Inl (Wrapf ''marshal tool input'' (Foreign e))
           | Inr raw \<Rightarrow>
               (case jsonUnmarshalResult v raw of
                  Inl e \<Rightarrow> Inl (Wrapf ''parse tool result'' (Foreign e))
                | Inr result \<Rightarrow> Inr result))"

fun parseToolUseResult :: "('doc, 'w) BedrockValidator \<Rightarrow> 'doc converse_output option \<Rightarrow> rerr + ValidationResult" where
  "parseToolUseResult v None = Inl (New_error ''nil converse output'')"
| "parseToolUseResult v (Some Other_output) = Inl (New_error ''unexpected converse output type'')"
| "parseToolUseResult v (Some (Message_output bs)) = parse_blocks v bs"

text \<open>\<open>parseErr\<close> is the error of the last attempt.\<close>

fun converse_attempts :: "('doc, 'w) BedrockValidator \<Rightarrow> converse_input \<Rightarrow> nat \<Rightarrow> rerr \<Rightarrow> 'w \<Rightarrow>
    (verr + ValidationResult) \<times> 'w" where
  "converse_attempts v input 0 parseErr w =
     (Inl (Validation_error (Wrapf ''bedrock converse: retries exhausted'' parseErr)), w)"
| "converse_attempts v input (Suc n) parseErr w =
     (case Converse v input w of
        (Inl e, w1) \<Rightarrow> (Inl (ValidationUnavailableError e), w1)
      | (Inr output, w1) \<Rightarrow>
          (case parseToolUseResult v output of
             Inr result \<Rightarrow> (Inr result, w1)
           | Inl err \<Rightarrow> converse_attempts v input n err w1))"

definition judge_request :: "string \<Rightarrow> string \<Rightarrow> converse_input" where
  "judge_request m command = \<lparr>ModelId = m, System = [systemPrompt],
     User_messages = [''Judge this command: '' @ command],
     Tools = [\<lparr>tool_Name = toolName,
                tool_Description = ''Report whether a shell command is safe or unsafe to execute'',
                tool_InputSchema = toolSchema\<rparr>],
     ToolChoice = Any_tool\<rparr>"

definition Validate :: "('doc, 'w) BedrockValidator \<Rightarrow> string \<Rightarrow> 'w \<Rightarrow> (verr + ValidationResult) \<times> 'w" where
  "Validate v command w =
     converse_attempts v (judge_request (modelID v) command) (maxRetries + 1) (New_error []) w"

section \<open>Handlers\<close>

definition sessionIDCookie :: string where
  "sessionIDCookie = ''session_id''"

definition errMissingSessionCookie :: string where
  "errMissingSessionCookie = ''missing session_id cookie''"

record sseEvent =
  sse_Type :: string
  sse_Data :: string
  sse_ExitCode :: "int option"

datatype runner_body = Nothing_written | Error_body string | Text string | Events "sseEvent list"

text \<open>The context of a request: the session cookie, the body's command or the error of binding it, the
  viewer address header and the peer; and what was answered and logged.\<close>

record run_ctx =
  rc_Cookie :: "string option"
  rc_Command :: "string + string"
  rc_ViewerAddress :: string
  rc_ClientIP :: string
  rc_status :: int
  rc_header :: "string \<Rightarrow> string option"
  rc_set_cookie :: "set_cookie option"
  rc_body :: runner_body
  rc_audit :: "string list"

definition answer_error :: "int \<Rightarrow> string \<Rightarrow> run_ctx \<Rightarrow> run_ctx" where
  "answer_error code msg c = c\<lparr>rc_status := code, rc_body := Error_body msg\<rparr>"

definition handleHealth :: "run_ctx \<Rightarrow> run_ctx" where
  "handleHealth c = c\<lparr>rc_status := 200, rc_body := Text (''ok'' @ [CHR 0x0A])\<rparr>"

definition handleCreateSession :: "(ext_error \<Rightarrow> string) \<Rightarrow> ('sh, 'w) Shell \<Rightarrow> ('sh, 'w) SessionManager \<Rightarrow> run_ctx \<Rightarrow> 'w \<Rightarrow>
    run_ctx \<times> ('sh, 'w) SessionManager \<times> 'w" where
  "handleCreateSession ext sh sm c w =
     (case Create sh sm w of
        (Inl err, sm1, w1) \<Rightarrow> (answer_error 500 (rerr_text ext err) c, sm1, w1)
      | (Inr (i, _), sm1, w1) \<Rightarrow> (c\<lparr>rc_set_cookie := Some \<lparr>ck_name = sessionIDCookie, ck_value = i, ck_maxAge = 0,
           ck_path = ''/'', ck_domain = [], ck_secure = True, ck_httpOnly = True, ck_strict = True\<rparr>, rc_status := 204\<rparr>, sm1, w1))"

definition handleDeleteSession :: "(ext_error \<Rightarrow> string) \<Rightarrow> ('sh, 'w) Shell \<Rightarrow> ('sh, 'w) SessionManager \<Rightarrow> run_ctx \<Rightarrow> 'w \<Rightarrow>
    run_ctx \<times> ('sh, 'w) SessionManager \<times> 'w" where
  "handleDeleteSession ext sh sm c w =
     (case rc_Cookie c of
        None \<Rightarrow> (answer_error 400 errMissingSessionCookie c, sm, w)
      | Some i \<Rightarrow>
          if i = [] then (answer_error 400 errMissingSessionCookie c, sm, w)
          else
            (case session_Delete sh sm i w of
               (Some err, sm1, w1) \<Rightarrow>
                 if errors_is err ErrSessionNotFound then (answer_error 404 (rerr_text ext err) c, sm1, w1)
                 else (answer_error 500 (rerr_text ext err) c, sm1, w1)
             | (None, sm1, w1) \<Rightarrow> (c\<lparr>rc_status := 204\<rparr>, sm1, w1)))"

definition clientIP :: "run_ctx \<Rightarrow> string" where
  "clientIP c = (if rc_ViewerAddress c \<noteq> [] then rc_ViewerAddress c else rc_ClientIP c)"

text \<open>\<open>quote\<close> is the verb \<^verbatim>\<open>%q\<close> of \<^verbatim>\<open>fmt\<close>.\<close>

definition auditLog :: "(string \<Rightarrow> string) \<Rightarrow> string \<Rightarrow> string \<Rightarrow> string \<Rightarrow> string \<Rightarrow> int option \<Rightarrow> string option \<Rightarrow>
    run_ctx \<Rightarrow> run_ctx" where
  "auditLog quote session remote class command ec err c =
     c\<lparr>rc_audit := rc_audit c @ [''[AUDIT] session='' @ session @ '' remote='' @ remote @ '' class='' @ class @
       '' command='' @ quote command @
       (case ec of None \<Rightarrow> [] | Some n \<Rightarrow> '' exitCode='' @ dec_int n) @
       (case err of None \<Rightarrow> [] | Some e \<Rightarrow> '' error='' @ e)]\<rparr>"

definition verr_text :: "(ext_error \<Rightarrow> string) \<Rightarrow> verr \<Rightarrow> string" where
  "verr_text ext e = (case e of ValidationUnavailableError x \<Rightarrow> ''validation unavailable: '' @ ext x
     | Validation_error r \<Rightarrow> rerr_text ext r)"

text \<open>An event as it is written to the response; \<open>marshal\<close> is \<^verbatim>\<open>json.Marshal\<close>.\<close>

definition writeSSE :: "(sseEvent \<Rightarrow> string) \<Rightarrow> sseEvent \<Rightarrow> string" where
  "writeSSE marshal event = ''data: '' @ marshal event @ [CHR 0x0A, CHR 0x0A]"

text \<open>The events of an execution, in the order in which they are written.\<close>

definition events_of :: "exec_result \<Rightarrow> sseEvent list" where
  "events_of r =
     map (\<lambda>line. \<lparr>sse_Type = ''stdout'', sse_Data = line, sse_ExitCode = None\<rparr>) (stdout_sent r) @
     (if res_stderr r \<noteq> [] then [\<lparr>sse_Type = ''stderr'', sse_Data = res_stderr r, sse_ExitCode = None\<rparr>] else []) @
     [\<lparr>sse_Type = ''complete'', sse_Data = [], sse_ExitCode = Some (exitCode r)\<rparr>]"

text \<open>The end of a request whose command may run.\<close>

definition stream_command :: "(ext_error \<Rightarrow> string) \<Rightarrow> (string \<Rightarrow> string) \<Rightarrow> ('sh, 'w) Shell \<Rightarrow> 'sh \<Rightarrow> string \<Rightarrow> string \<Rightarrow>
    string \<Rightarrow> string \<Rightarrow> run_ctx \<Rightarrow> 'w \<Rightarrow> (run_ctx \<times> 'w) option" where
  "stream_command ext quote sh shell i remote class command c w =
     (case sh_ExecuteStream sh shell command w of
        None \<Rightarrow> None
      | Some (r, w1) \<Rightarrow>
          Some (auditLog quote i remote class command (Some (exitCode r)) (map_option (rerr_text ext) (res_err r))
                  (c\<lparr>rc_status := 200,
                     rc_header := (rc_header c)(''Content-Type'' \<mapsto> ''text/event-stream'',
                       ''Cache-Control'' \<mapsto> ''no-cache'', ''Connection'' \<mapsto> ''keep-alive''),
                     rc_body := Events (events_of r)\<rparr>), w1))"

text \<open>\<open>None\<close> as a validator is nil.  The call of the validator and of the shell may change the world; a
  request whose shell does not return is \<open>None\<close>.\<close>

definition handleExecute :: "(ext_error \<Rightarrow> string) \<Rightarrow> (string \<Rightarrow> string) \<Rightarrow> ('sh, 'w) Shell \<Rightarrow> ('sh, 'w) SessionManager \<Rightarrow>
    (string \<Rightarrow> 'w \<Rightarrow> (verr + ValidationResult) \<times> 'w) option \<Rightarrow> run_ctx \<Rightarrow> 'w \<Rightarrow> (run_ctx \<times> 'w) option" where
  "handleExecute ext quote sh sm validator c w =
     (case rc_Cookie c of
        None \<Rightarrow> Some (answer_error 400 errMissingSessionCookie c, w)
      | Some i \<Rightarrow>
          if i = [] then Some (answer_error 400 errMissingSessionCookie c, w)
          else
            (case session_Get sm i of
               Inl err \<Rightarrow> Some (answer_error 404 (rerr_text ext err) c, w)
             | Inr shell \<Rightarrow>
                 (case rc_Command c of
                    Inl err \<Rightarrow> Some (answer_error 400 (''invalid request: '' @ err) c, w)
                  | Inr command \<Rightarrow>
                      (let class = classifyCommand command; remote = clientIP c;
                           c1 = auditLog quote i remote class command None None c in
                       if class = ''validated''
                       then
                         (case validator of
                            None \<Rightarrow> Some (answer_error 403 ''command not allowed'' c1, w)
                          | Some validate \<Rightarrow>
                              (case validate command w of
                                 (Inl (ValidationUnavailableError e), w1) \<Rightarrow>
                                   stream_command ext quote sh shell i remote class command
                                     (auditLog quote i remote ''validation-skipped'' command None
                                        (Some (verr_text ext (ValidationUnavailableError e))) c1) w1
                               | (Inl err, w1) \<Rightarrow>
                                   Some (answer_error 403 ''command not allowed''
                                     (auditLog quote i remote class command None (Some (verr_text ext err)) c1), w1)
                               | (Inr result, w1) \<Rightarrow>
                                   if \<not> Safe result
                                   then Some (answer_error 403 (''command not allowed: '' @ Reason result)
                                     (auditLog quote i remote ''rejected'' command None
                                        (Some (''reason: '' @ Reason result)) c1), w1)
                                   else stream_command ext quote sh shell i remote class command c1 w1))
                       else stream_command ext quote sh shell i remote class command c1 w))))"
end
