(* ===== verification/Runner_Process.thy ===== *)
theory Runner_Process
  imports Runner_Service
begin
text \<open>
  The life of a runner process: who it is (\<open>runner/identity.go\<close>), its registration with the broker
  (\<open>runner/register.go\<close>), its routes, and how it starts, serves and ends (\<open>runner/main.go\<close>).  The
  HTTP client, the environment, the listener, signals and timers are parameters over a world \<open>'w\<close>.
\<close>

section \<open>The HTTP client\<close>

record http_response =
  StatusCode :: int
  ReadAll :: "ext_error + string"

text \<open>\<open>NewRequestErr\<close> is the error of building a request from a method and a URL, \<open>Do\<close> sends one, with
  a content type and a body for a POST.  A deadline that passes is an error of \<open>Do\<close>.\<close>

record 'w http_client =
  NewRequestErr :: "string \<Rightarrow> string \<Rightarrow> ext_error option"
  Do :: "string \<Rightarrow> string \<Rightarrow> (string \<times> string) option \<Rightarrow> 'w \<Rightarrow> (ext_error + http_response) \<times> 'w"

definition defaultHTTPGet :: "'w http_client \<Rightarrow> string \<Rightarrow> 'w \<Rightarrow> (rerr + string) \<times> 'w" where
  "defaultHTTPGet cl url w =
     (case NewRequestErr cl ''GET'' url of
        Some e \<Rightarrow> (Inl (Foreign e), w)
      | None \<Rightarrow>
          (case Do cl ''GET'' url None w of
             (Inl e, w1) \<Rightarrow> (Inl (Foreign e), w1)
           | (Inr resp, w1) \<Rightarrow>
               if StatusCode resp \<noteq> 200
               then (Inl (New_error (''metadata endpoint returned '' @ dec_int (StatusCode resp))), w1)
               else (case ReadAll resp of
                       Inl e \<Rightarrow> (Inl (Foreign e), w1)
                     | Inr body \<Rightarrow> (Inr body, w1))))"

definition defaultHTTPPost ::
  "'w http_client \<Rightarrow> string \<Rightarrow> string \<Rightarrow> string \<Rightarrow> 'w \<Rightarrow> (ext_error + http_response) \<times> 'w" where
  "defaultHTTPPost cl url contentType body w =
     (case NewRequestErr cl ''POST'' url of
        Some e \<Rightarrow> (Inl e, w)
      | None \<Rightarrow> Do cl ''POST'' url (Some (contentType, body)) w)"

section \<open>Identity\<close>

record Identity =
  id_RunnerID :: string
  id_PrivateURL :: string

text \<open>The documents of the metadata endpoint; decoding them is a parameter.\<close>

record ecsTaskMeta = TaskARN :: string
record ecsNetwork = IPv4Addresses :: "string list"
record ecsContainerMeta = Networks :: "ecsNetwork list"

record 'w identityDeps =
  getenv :: "string \<Rightarrow> string"
  hostname :: "ext_error + string"
  httpGet :: "string \<Rightarrow> 'w \<Rightarrow> (rerr + string) \<times> 'w"
  port :: string
  UnmarshalTask :: "string \<Rightarrow> ext_error + ecsTaskMeta"
  UnmarshalContainer :: "string \<Rightarrow> ext_error + ecsContainerMeta"

text \<open>The first address of the first network, if there is one.\<close>

definition first_ip :: "ecsContainerMeta \<Rightarrow> string option" where
  "first_ip container =
     (case Networks container of
        [] \<Rightarrow> None
      | n # _ \<Rightarrow> (case IPv4Addresses n of [] \<Rightarrow> None | ip # _ \<Rightarrow> Some ip))"

definition resolveFromECS :: "'w identityDeps \<Rightarrow> string \<Rightarrow> 'w \<Rightarrow> (rerr + Identity) \<times> 'w" where
  "resolveFromECS deps ecsURI w =
     (case httpGet deps (ecsURI @ ''/task'') w of
        (Inl err, w1) \<Rightarrow> (Inl (Wrapf ''fetch ECS task metadata'' err), w1)
      | (Inr taskBody, w1) \<Rightarrow>
          (case UnmarshalTask deps taskBody of
             Inl e \<Rightarrow> (Inl (Wrapf ''parse ECS task metadata'' (Foreign e)), w1)
           | Inr task \<Rightarrow>
               (case last_index (TaskARN task) (CHR ''/'') of
                  None \<Rightarrow> (Inl (New_error (''invalid TaskARN: '' @ TaskARN task)), w1)
                | Some idx \<Rightarrow>
                    if idx = length (TaskARN task) - 1
                    then (Inl (New_error (''invalid TaskARN: '' @ TaskARN task)), w1)
                    else
                      (let runnerID = drop (idx + 1) (TaskARN task) in
                       case httpGet deps ecsURI w1 of
                         (Inl err, w2) \<Rightarrow> (Inl (Wrapf ''fetch ECS container metadata'' err), w2)
                       | (Inr containerBody, w2) \<Rightarrow>
                           (case UnmarshalContainer deps containerBody of
                              Inl e \<Rightarrow> (Inl (Wrapf ''parse ECS container metadata'' (Foreign e)), w2)
                            | Inr container \<Rightarrow>
                                (case first_ip container of
                                   None \<Rightarrow> (Inl (New_error ''no IPv4 address in ECS container metadata''), w2)
                                 | Some ip \<Rightarrow>
                                     (Inr \<lparr>id_RunnerID = runnerID,
                                           id_PrivateURL = ''http://'' @ ip @ '':'' @ port deps\<rparr>, w2)))))))"

definition resolveFromHostname :: "'w identityDeps \<Rightarrow> rerr + Identity" where
  "resolveFromHostname deps =
     (case hostname deps of
        Inl e \<Rightarrow> Inl (Wrapf ''get hostname'' (Foreign e))
      | Inr host \<Rightarrow> Inr \<lparr>id_RunnerID = host, id_PrivateURL = ''http://'' @ host @ '':'' @ port deps\<rparr>)"

definition resolveIdentity :: "'w identityDeps \<Rightarrow> 'w \<Rightarrow> (rerr + Identity) \<times> 'w" where
  "resolveIdentity deps w =
     (let ecsURI = getenv deps ''ECS_CONTAINER_METADATA_URI_V4'' in
      if ecsURI \<noteq> [] then resolveFromECS deps ecsURI w else (resolveFromHostname deps, w))"

section \<open>Registration\<close>

definition registerRetryInterval :: string where
  "registerRetryInterval = ''3s''"

record registerRequest =
  rq_RunnerID :: string
  rq_PrivateURL :: string

text \<open>\<open>rd_wait\<close> is the \<^verbatim>\<open>select\<close> between the timer and the end of the context, whose error it gives.\<close>

record 'w registerDeps =
  rd_brokerURL :: string
  rd_identity :: Identity
  httpPost :: "string \<Rightarrow> string \<Rightarrow> string \<Rightarrow> 'w \<Rightarrow> (ext_error + http_response) \<times> 'w"
  rd_wait :: "'w \<Rightarrow> ext_error option \<times> 'w"
  rd_logf :: "string \<Rightarrow> 'w \<Rightarrow> 'w"
  rd_Marshal :: "registerRequest \<Rightarrow> string"
  rd_text :: "ext_error \<Rightarrow> string"

definition register_url :: "string \<Rightarrow> string" where
  "register_url base = base @ ''/internal/runners/register''"

text \<open>One round: \<open>Some\<close> is what the function returns, \<open>None\<close> that it tries again.\<close>

definition wait_again :: "'w registerDeps \<Rightarrow> 'w \<Rightarrow> ext_error option option \<times> 'w" where
  "wait_again d w =
     (case rd_wait d w of
        (Some e, w1) \<Rightarrow> (Some (Some e), w1)
      | (None, w1) \<Rightarrow> (None, w1))"

definition register_round ::
  "'w registerDeps \<Rightarrow> string \<Rightarrow> string \<Rightarrow> 'w \<Rightarrow> ext_error option option \<times> 'w" where
  "register_round d url payload w =
     (case httpPost d url ''application/json'' payload w of
        (Inr resp, w1) \<Rightarrow>
          if StatusCode resp = 201
          then (Some None, rd_logf d (''registered with broker: id='' @ id_RunnerID (rd_identity d) @
                 '' url='' @ id_PrivateURL (rd_identity d)) w1)
          else wait_again d (rd_logf d (''broker registration returned '' @ dec_int (StatusCode resp) @
                 '', retrying in '' @ registerRetryInterval) w1)
      | (Inl err, w1) \<Rightarrow>
          wait_again d (rd_logf d (''broker registration failed: '' @ rd_text d err @
            '', retrying in '' @ registerRetryInterval) w1))"

partial_function (option) register_loop ::
  "'w registerDeps \<Rightarrow> string \<Rightarrow> string \<Rightarrow> 'w \<Rightarrow> (ext_error option \<times> 'w) option" where
  "register_loop d url payload w =
     (case register_round d url payload w of
        (Some r, w1) \<Rightarrow> Some (r, w1)
      | (None, w1) \<Rightarrow> register_loop d url payload w1)"

definition register :: "'w registerDeps \<Rightarrow> 'w \<Rightarrow> (ext_error option \<times> 'w) option" where
  "register d w =
     register_loop d (register_url (rd_brokerURL d))
       (rd_Marshal d \<lparr>rq_RunnerID = id_RunnerID (rd_identity d), rq_PrivateURL = id_PrivateURL (rd_identity d)\<rparr>) w"

record 'w deregisterDeps =
  dd_brokerURL :: string
  dd_runnerID :: string
  dd_client :: "'w http_client"
  dd_logf :: "string \<Rightarrow> 'w \<Rightarrow> 'w"

definition deregister :: "'w deregisterDeps \<Rightarrow> 'w \<Rightarrow> rerr option \<times> 'w" where
  "deregister d w =
     (let url = dd_brokerURL d @ ''/internal/runners/'' @ dd_runnerID d in
      case NewRequestErr (dd_client d) ''DELETE'' url of
        Some e \<Rightarrow> (Some (Wrapf ''create deregister request'' (Foreign e)), w)
      | None \<Rightarrow>
          (case Do (dd_client d) ''DELETE'' url None w of
             (Inl e, w1) \<Rightarrow> (Some (Wrapf ''deregister request'' (Foreign e)), w1)
           | (Inr resp, w1) \<Rightarrow>
               if StatusCode resp \<noteq> 204
               then (Some (New_error (''deregister returned status '' @ dec_int (StatusCode resp))), w1)
               else (None, dd_logf d (''deregistered from broker: id='' @ dd_runnerID d) w1)))"

section \<open>Routes\<close>

type_synonym ('sh, 'w) runner_handler =
  "string \<Rightarrow> string \<Rightarrow> run_ctx \<Rightarrow> ('sh, 'w) SessionManager \<Rightarrow> 'w \<Rightarrow>
   (run_ctx \<times> ('sh, 'w) SessionManager \<times> 'w) option"

text \<open>A request is a method, a path and its context.  \<open>not_found\<close> and \<open>not_allowed\<close> are the answers of
  the router itself.\<close>

definition newHandler :: "(ext_error \<Rightarrow> string) \<Rightarrow> (string \<Rightarrow> string) \<Rightarrow> (run_ctx \<Rightarrow> run_ctx) \<Rightarrow> (run_ctx \<Rightarrow> run_ctx) \<Rightarrow>
    ('sh, 'w) Shell \<Rightarrow> (string \<Rightarrow> 'w \<Rightarrow> (verr + ValidationResult) \<times> 'w) option \<Rightarrow> ('sh, 'w) runner_handler" where
  "newHandler ext quote not_found not_allowed sh validator method path c sm w =
     (if path = ''/health''
      then (if method = ''GET'' then Some (handleHealth c, sm, w) else Some (not_allowed c, sm, w))
      else if path = ''/api/session''
      then (if method = ''POST'' then Some (handleCreateSession ext sh sm c w)
            else if method = ''DELETE'' then Some (handleDeleteSession ext sh sm c w)
            else Some (not_allowed c, sm, w))
      else if path = ''/api/execute''
      then (if method = ''POST''
            then map_option (\<lambda>(c1, w1). (c1, sm, w1)) (handleExecute ext quote sh sm validator c w)
            else Some (not_allowed c, sm, w))
      else Some (not_found c, sm, w))"

section \<open>The process\<close>

text \<open>What the process takes from outside.  \<open>Listen\<close> gives the address of the listener, \<open>SplitHostPort\<close>
  the port of an address (empty when there is none).  \<open>Serve\<close> runs the handler on the requests that come until
  the server fails or a signal arrives (\<open>None\<close>: neither ever happens); \<open>register_wait\<close> is the wait of
  the registration, whose context ends with a signal.\<close>

record ('cfg, 'doc, 'sh, 'w) runner_platform =
  Listen :: "string \<Rightarrow> 'w \<Rightarrow> (ext_error + string) \<times> 'w"
  SplitHostPort :: "string \<Rightarrow> string"
  ln_Close :: "'w \<Rightarrow> 'w"
  Getenv :: "string \<Rightarrow> string"
  os_Hostname :: "ext_error + string"
  client :: "'w http_client"
  json_Unmarshal_task :: "string \<Rightarrow> ext_error + ecsTaskMeta"
  json_Unmarshal_container :: "string \<Rightarrow> ext_error + ecsContainerMeta"
  json_Marshal_request :: "registerRequest \<Rightarrow> string"
  LoadDefaultConfig :: "'w \<Rightarrow> (ext_error + 'cfg) \<times> 'w"
  Region :: "'cfg \<Rightarrow> string"
  bedrock_NewFromConfig :: "'cfg \<Rightarrow> converse_input \<Rightarrow> 'w \<Rightarrow> (ext_error + 'doc converse_output option) \<times> 'w"
  smithy_Marshal :: "'doc \<Rightarrow> ext_error + string"
  json_Unmarshal_result :: "string \<Rightarrow> ext_error + ValidationResult"
  rand_Read :: "nat \<Rightarrow> 'w \<Rightarrow> string \<times> 'w"
  NewBashShell :: "'w \<Rightarrow> (rerr + 'sh) \<times> 'w"
  shells :: "('sh, 'w) Shell"
  map_range :: "(string \<Rightarrow> 'sh option) \<Rightarrow> string list"
  register_wait :: "'w \<Rightarrow> ext_error option \<times> 'w"
  Serve :: "('sh, 'w) runner_handler \<Rightarrow> ('sh, 'w) SessionManager \<Rightarrow> 'w \<Rightarrow>
    (ext_error option \<times> ('sh, 'w) SessionManager \<times> 'w) option"
  Shutdown :: "int \<Rightarrow> 'w \<Rightarrow> ext_error option \<times> 'w"
  log_Print :: "string \<Rightarrow> 'w \<Rightarrow> 'w"
  err_text :: "ext_error \<Rightarrow> string"
  quote_text :: "string \<Rightarrow> string"
  no_route :: "run_ctx \<Rightarrow> run_ctx"
  no_method :: "run_ctx \<Rightarrow> run_ctx"

definition defaultModelID :: string where
  "defaultModelID = ''apac.anthropic.claude-sonnet-4-20250514-v1:0''"

definition NewBedrockValidator ::
  "('cfg, 'doc, 'sh, 'w) runner_platform \<Rightarrow> (converse_input \<Rightarrow> 'w \<Rightarrow> (ext_error + 'doc converse_output option) \<times> 'w) \<Rightarrow>
   string \<Rightarrow> ('doc, 'w) BedrockValidator" where
  "NewBedrockValidator P c m = \<lparr>Converse = c, modelID = m, MarshalSmithyDocument = smithy_Marshal P,
     jsonUnmarshalResult = json_Unmarshal_result P\<rparr>"

definition newBedrockValidatorFromEnv ::
  "('cfg, 'doc, 'sh, 'w) runner_platform \<Rightarrow> 'w \<Rightarrow> (rerr + ('doc, 'w) BedrockValidator) \<times> 'w" where
  "newBedrockValidatorFromEnv P w =
     (case LoadDefaultConfig P w of
        (Inl e, w1) \<Rightarrow> (Inl (Wrapf ''load aws config'' (Foreign e)), w1)
      | (Inr cfg, w1) \<Rightarrow>
          if Region P cfg = []
          then (Inl (New_error ''aws region is required for bedrock runtime''), w1)
          else
            (let m = Getenv P ''BEDROCK_MODEL_ID''; m1 = (if m = [] then defaultModelID else m) in
             (Inr (NewBedrockValidator P (bedrock_NewFromConfig P cfg) m1), w1)))"

record ('sh, 'w) serverConfig =
  cfg_sm :: "('sh, 'w) SessionManager"
  cfg_validator :: "(string \<Rightarrow> 'w \<Rightarrow> (verr + ValidationResult) \<times> 'w) option"
  shutdownTimeout :: int
  cfg_handler :: "('sh, 'w) runner_handler option"
  cfg_brokerURL :: string
  cfg_runnerID :: string

text \<open>The end of \<open>run\<close>: the broker is told first, then the server drains, then the shells are closed.\<close>

definition wind_down ::
  "('cfg, 'doc, 'sh, 'w) runner_platform \<Rightarrow> ('sh, 'w) serverConfig \<Rightarrow> ('sh, 'w) SessionManager \<Rightarrow> 'w \<Rightarrow>
   rerr option \<times> ('sh, 'w) SessionManager \<times> 'w" where
  "wind_down P cfg sm w =
     (let w1 = log_Print P ''shutting down...'' w;
          w2 = (if cfg_brokerURL cfg \<noteq> [] \<and> cfg_runnerID cfg \<noteq> []
                then (case deregister \<lparr>dd_brokerURL = cfg_brokerURL cfg, dd_runnerID = cfg_runnerID cfg,
                              dd_client = client P, dd_logf = log_Print P\<rparr> w1 of
                        (Some err, v) \<Rightarrow>
                          log_Print P (''WARNING: deregister from broker failed: '' @ rerr_text (err_text P) err) v
                      | (None, v) \<Rightarrow> v)
                else w1);
          (shut, w3) = Shutdown P (shutdownTimeout cfg) w2;
          (first, w4) = (case shut of
             Some e \<Rightarrow> (Some (Foreign e), log_Print P (''server shutdown error: '' @ err_text P e) w3)
           | None \<Rightarrow> (None, w3));
          (closed, sm1, w5) = CloseAll (map_range P) (shells P) sm w4;
          (result, w6) = (case closed of
             Some err \<Rightarrow> (if first = None then Some err else first,
                          log_Print P (''session cleanup error: '' @ rerr_text (err_text P) err) w5)
           | None \<Rightarrow> (first, w5))
      in (result, sm1, log_Print P ''shutdown complete'' w6))"

definition run ::
  "('cfg, 'doc, 'sh, 'w) runner_platform \<Rightarrow> string \<Rightarrow> ('sh, 'w) serverConfig \<Rightarrow> 'w \<Rightarrow>
   (rerr option \<times> ('sh, 'w) SessionManager \<times> 'w) option" where
  "run P ln cfg w =
     (let h = (case cfg_handler cfg of
                 Some h \<Rightarrow> h
               | None \<Rightarrow> newHandler (err_text P) (quote_text P) (no_route P) (no_method P) (shells P) (cfg_validator cfg)) in
      case Serve P h (cfg_sm cfg) (log_Print P (''server listening on '' @ ln) w) of
        None \<Rightarrow> None
      | Some (Some e, sm, w1) \<Rightarrow> Some (Some (Wrapf ''serve'' (Foreign e)), sm, w1)
      | Some (None, sm, w1) \<Rightarrow> Some (wind_down P cfg sm w1))"

text \<open>The validator of \<open>start\<close>: nil when none can be made.\<close>

definition start_validator ::
  "('cfg, 'doc, 'sh, 'w) runner_platform \<Rightarrow> 'w \<Rightarrow> (string \<Rightarrow> 'w \<Rightarrow> (verr + ValidationResult) \<times> 'w) option \<times> 'w" where
  "start_validator P w =
     (case newBedrockValidatorFromEnv P w of
        (Inl err, w1) \<Rightarrow>
          (None, log_Print P (''WARNING: LLM validator unavailable, non-whitelisted commands will be rejected: '' @
             rerr_text (err_text P) err) w1)
      | (Inr v, w1) \<Rightarrow> (Some (Validate v), w1))"

definition start_deps :: "('cfg, 'doc, 'sh, 'w) runner_platform \<Rightarrow> string \<Rightarrow> 'w identityDeps" where
  "start_deps P tcp_port = \<lparr>getenv = Getenv P, hostname = os_Hostname P, httpGet = defaultHTTPGet (client P),
     port = tcp_port, UnmarshalTask = json_Unmarshal_task P, UnmarshalContainer = json_Unmarshal_container P\<rparr>"

definition start_register :: "('cfg, 'doc, 'sh, 'w) runner_platform \<Rightarrow> string \<Rightarrow> Identity \<Rightarrow> 'w registerDeps" where
  "start_register P url i = \<lparr>rd_brokerURL = url, rd_identity = i, httpPost = defaultHTTPPost (client P),
     rd_wait = register_wait P, rd_logf = log_Print P, rd_Marshal = json_Marshal_request P, rd_text = err_text P\<rparr>"

text \<open>The answer of \<open>start\<close> is the error of the life of the server.\<close>

definition start :: "('cfg, 'doc, 'sh, 'w) runner_platform \<Rightarrow> string \<Rightarrow> 'w \<Rightarrow> (rerr option \<times> 'w) option" where
  "start P addr w =
     (case Listen P addr w of
        (Inl e, w1) \<Rightarrow> Some (Some (Wrapf ''listen'' (Foreign e)), w1)
      | (Inr ln, w1) \<Rightarrow>
          (case resolveIdentity (start_deps P (SplitHostPort P ln)) w1 of
             (Inl err, w2) \<Rightarrow> Some (Some (Wrapf ''resolve identity'' err), ln_Close P w2)
           | (Inr identity, w2) \<Rightarrow>
               (let w3 = log_Print P (''runner identity: id='' @ id_RunnerID identity @ '' url='' @ id_PrivateURL identity) w2;
                    brokerURL = Getenv P ''BROKER_URL'' in
                if brokerURL = []
                then Some (Some (New_error ''missing required environment variable: BROKER_URL''), ln_Close P w3)
                else
                  (let (validator, w4) = start_validator P w3 in
                   case register (start_register P brokerURL identity) w4 of
                     None \<Rightarrow> None
                   | Some (Some e, w5) \<Rightarrow> Some (Some (Wrapf ''register with broker'' (Foreign e)), ln_Close P w5)
                   | Some (None, w5) \<Rightarrow>
                       map_option (\<lambda>(err, _, w6). (err, w6))
                         (run P ln \<lparr>cfg_sm = NewSessionManager (generateID (rand_Read P)) (NewBashShell P),
                                 cfg_validator = validator, shutdownTimeout = 10, cfg_handler = None,
                                 cfg_brokerURL = brokerURL, cfg_runnerID = id_RunnerID identity\<rparr> w5)))))"

text \<open>The answer of \<open>main\<close> is the message of \<open>fatalf\<close>, if it is called.\<close>

definition main :: "('cfg, 'doc, 'sh, 'w) runner_platform \<Rightarrow> 'w \<Rightarrow> (string option \<times> 'w) option" where
  "main P w =
     (let p = Getenv P ''RUNNER_PORT'' in
      if p = [] then Some (Some ''missing required environment variable: RUNNER_PORT'', w)
      else (case start P ('':'' @ p) w of
              None \<Rightarrow> None
            | Some (Some err, w1) \<Rightarrow> Some (Some (''server error: '' @ rerr_text (err_text P) err), w1)
            | Some (None, w1) \<Rightarrow> Some (None, w1)))"
end
