(* ===== verification/Runner_Contract.thy ===== *)
theory Runner_Contract
  imports Runner_Process
begin
text \<open>
  What the runner relies on in its shells, as a locale over the \<^verbatim>\<open>Shell\<close> interface and the two
  factories of the session manager, and what follows for every handler: which commands reach a
  shell, and that the table of sessions and the shells that are open stay the same thing.
\<close>

section \<open>Ranging over a map\<close>

definition ranges :: "(('k \<Rightarrow> 'v option) \<Rightarrow> 'k list) \<Rightarrow> bool" where
  "ranges range_of \<longleftrightarrow> (\<forall>m. finite (dom m) \<longrightarrow> distinct (range_of m) \<and> set (range_of m) = dom m)"

lemma ran_the: "set ks = dom m \<Longrightarrow> set (map (\<lambda>k. the (m k)) ks) = ran m"
  by (auto simp: ran_def image_iff) (metis domI option.sel)

lemma distinct_the:
  "distinct ks \<Longrightarrow> set ks = dom m \<Longrightarrow> inj_on m (dom m) \<Longrightarrow> distinct (map (\<lambda>k. the (m k)) ks)"
  by (auto simp: distinct_map inj_on_def dom_def)

section \<open>The contract\<close>

text \<open>\<open>started w\<close> are the shells that exist, \<open>closes w h\<close> how often a shell was closed, \<open>given w h\<close> what
  it was given to run, \<open>script c s\<close> that \<open>s\<close> is how a shell is given the command \<open>c\<close>, and \<open>bye\<close> is what it is
  given when it is closed.\<close>

locale shell_pool =
  fixes S :: "('sh, 'w) Shell"
    and gen :: "'w \<Rightarrow> (rerr + string) \<times> 'w" and new :: "'w \<Rightarrow> (rerr + 'sh) \<times> 'w"
    and started :: "'w \<Rightarrow> 'sh set" and closes :: "'w \<Rightarrow> 'sh \<Rightarrow> nat" and given :: "'w \<Rightarrow> 'sh \<Rightarrow> string list"
    and script :: "string \<Rightarrow> string \<Rightarrow> bool" and bye :: string
  assumes gen_frame: "gen w = (r, w') \<Longrightarrow> started w' = started w \<and> closes w' = closes w \<and> given w' = given w"
    and new_fail: "new w = (Inl e, w') \<Longrightarrow> started w' = started w \<and> closes w' = closes w \<and> given w' = given w"
    and new_ok: "new w = (Inr h, w') \<Longrightarrow> h \<notin> started w \<and> started w' = insert h (started w) \<and>
      closes w' = closes w \<and> given w' h = [] \<and> (\<forall>h' \<in> started w. given w' h' = given w h')"
    and exec_frame: "sh_ExecuteStream S h c w = Some (x, w') \<Longrightarrow> started w' = started w \<and> closes w' = closes w \<and>
      (\<forall>h'. h' \<noteq> h \<longrightarrow> given w' h' = given w h')"
    and exec_given: "sh_ExecuteStream S h c w = Some (x, w') \<Longrightarrow>
      given w' h = given w h \<or> (\<exists>s. script c s \<and> given w' h = given w h @ [s])"
    and close_frame: "sh_Close S h w = (err, w') \<Longrightarrow> started w' = started w \<and>
      closes w' = (closes w)(h := Suc (closes w h)) \<and> (\<forall>h'. h' \<noteq> h \<longrightarrow> given w' h' = given w h')"
    and close_given: "sh_Close S h w = (err, w') \<Longrightarrow> given w' h = given w h \<or> given w' h = given w h @ [bye]"

text \<open>The shells in the table are open and distinct, all others that were started are closed, once.\<close>

definition tidy :: "('w \<Rightarrow> 'sh set) \<Rightarrow> ('w \<Rightarrow> 'sh \<Rightarrow> nat) \<Rightarrow> ('sh, 'w) SessionManager \<Rightarrow> 'w \<Rightarrow> bool" where
  "tidy started closes sm w \<longleftrightarrow> finite (dom (sessions sm)) \<and> inj_on (sessions sm) (dom (sessions sm)) \<and>
     ran (sessions sm) \<subseteq> started w \<and>
     (\<forall>h. closes w h = (if h \<in> started w \<and> h \<notin> ran (sessions sm) then 1 else 0))"

definition makes :: "('w \<Rightarrow> (rerr + string) \<times> 'w) \<Rightarrow> ('w \<Rightarrow> (rerr + 'sh) \<times> 'w) \<Rightarrow> ('sh, 'w) SessionManager \<Rightarrow> bool" where
  "makes gen new sm \<longleftrightarrow> genID sm = gen \<and> newShell sm = new"

lemma ran_add: "i \<notin> dom m \<Longrightarrow> ran (m(i \<mapsto> h)) = insert h (ran m)"
  by (auto simp: ran_def)

lemma inj_add: "inj_on m (dom m) \<Longrightarrow> i \<notin> dom m \<Longrightarrow> h \<notin> ran m \<Longrightarrow> inj_on (m(i \<mapsto> h)) (dom (m(i \<mapsto> h)))"
  by (auto simp: inj_on_def ran_def dom_def)

lemma ran_remove: "inj_on m (dom m) \<Longrightarrow> m i = Some h \<Longrightarrow> ran (m(i := None)) = ran m - {h}"
proof -
  assume inj: "inj_on m (dom m)" and i: "m i = Some h"
  have "a = i" if "m a = Some h" for a using inj_onD [OF inj, of a i] that i by auto
  then have "h \<notin> ran (m(i := None))" by (force simp: ran_def split: if_splits)
  moreover have "x \<in> ran (m(i := None))" if "x \<in> ran m" "x \<noteq> h" for x
  proof -
    from that(1) obtain a where "m a = Some x" by (auto simp: ran_def)
    then have "(m(i := None)) a = Some x" using i that(2) by auto
    then show ?thesis by (rule ranI)
  qed
  ultimately show ?thesis by (auto dest: ran_del_subset)
qed

lemma inj_remove: "inj_on m (dom m) \<Longrightarrow> inj_on (m(i := None)) (dom (m(i := None)))"
  by (auto simp: inj_on_def dom_def)

context shell_pool
begin

abbreviation neat :: "('sh, 'w) SessionManager \<Rightarrow> 'w \<Rightarrow> bool" where
  "neat sm w \<equiv> tidy started closes sm w \<and> makes gen new sm"

lemma neat_frame:
  "neat sm w \<Longrightarrow> started w' = started w \<Longrightarrow> closes w' = closes w \<Longrightarrow> neat sm w'"
  by (simp add: tidy_def)

lemma neat_add:
  assumes "neat sm w" and "sessions sm i = None" and "h \<notin> started w"
    and "started w' = insert h (started w)" and "closes w' = closes w"
  shows "neat (sm\<lparr>sessions := (sessions sm)(i \<mapsto> h)\<rparr>) w'"
proof -
  let ?m = "sessions sm"
  from assms(1) have t: "finite (dom ?m)" "inj_on ?m (dom ?m)" "ran ?m \<subseteq> started w" "makes gen new sm"
    "\<And>h. closes w h = (if h \<in> started w \<and> h \<notin> ran ?m then 1 else 0)" by (auto simp: tidy_def)
  have i: "i \<notin> dom ?m" using assms(2) by auto
  have h: "h \<notin> ran ?m" using assms(3) t(3) by auto
  show ?thesis using t assms(3-5) ran_add [OF i, of h] inj_add [OF t(2) i h]
    by (auto simp: tidy_def makes_def)
qed

lemma neat_dup:
  assumes "neat sm w" and "h \<notin> started w" and "started w' = insert h (started w)" and "closes w' = closes w"
    and "sh_Close S h w' = (e, w'')"
  shows "neat sm w''"
  using assms(1-4) close_frame [OF assms(5)] by (auto simp: tidy_def)

lemma neat_remove:
  assumes "neat sm w" and "sessions sm i = Some h" and "sh_Close S h w = (e, w')"
  shows "neat (sm\<lparr>sessions := (sessions sm)(i := None)\<rparr>) w'"
proof -
  let ?m = "sessions sm"
  from assms(1) have t: "finite (dom ?m)" "inj_on ?m (dom ?m)" "ran ?m \<subseteq> started w" "makes gen new sm"
    "\<And>h. closes w h = (if h \<in> started w \<and> h \<notin> ran ?m then 1 else 0)" by (auto simp: tidy_def)
  have h: "h \<in> ran ?m" using assms(2) by (rule ranI)
  show ?thesis using t h close_frame [OF assms(3)] ran_remove [OF t(2) assms(2)] inj_remove [OF t(2), of i]
    by (auto simp: tidy_def makes_def)
qed

lemma Create_neat:
  assumes "neat sm w" and "Create S sm w = (r, sm', w')"
  shows "neat sm' w'"
proof -
  obtain g w1 where g: "genID sm w = (g, w1)" by (cases "genID sm w")
  have gn: "gen w = (g, w1)" and mk: "newShell sm = new" using assms(1) g by (auto simp: makes_def)
  note n1 = neat_frame [OF assms(1), of w1]
  show ?thesis
  proof (cases g)
    case (Inl e)
    then show ?thesis using assms(2) g n1 gen_frame [OF gn] by (auto simp: Create_def)
  next
    case (Inr i)
    obtain s w2 where s: "new w1 = (s, w2)" by (cases "new w1")
    show ?thesis
    proof (cases s)
      case (Inl e)
      then show ?thesis using assms(2) g mk s Inr n1 gen_frame [OF gn] new_fail [of w1 e w2]
        by (auto simp: Create_def tidy_def)
    next
      case [simp]: (Inr h)
      note f = new_ok [OF s [unfolded Inr]]
      have n: "neat sm w1" using n1 gen_frame [OF gn] by simp
      show ?thesis
      proof (cases "sessions sm i")
        case None
        then have "(r, sm', w') = (Inr (i, h), sm\<lparr>sessions := (sessions sm)(i \<mapsto> h)\<rparr>, w2)"
          using assms(2) g mk s \<open>g = Inr i\<close> by (simp add: Create_def)
        then show ?thesis using neat_add [OF n None, of h w2] f by (simp only: prod.inject) blast
      next
        case (Some h0)
        obtain e w3 where c: "sh_Close S h w2 = (e, w3)" by (cases "sh_Close S h w2")
        then have "sm' = sm" "w' = w3" using assms(2) g mk s \<open>g = Inr i\<close> Some by (auto simp: Create_def)
        then show ?thesis using neat_dup [OF n _ _ _ c] f by simp
      qed
    qed
  qed
qed

lemma session_Delete_neat:
  assumes "neat sm w" and "session_Delete S sm i w = (r, sm', w')"
  shows "neat sm' w'"
proof (cases "sessions sm i")
  case None
  then show ?thesis using assms by (simp add: session_Delete_def)
next
  case (Some h)
  obtain e w1 where c: "sh_Close S h w = (e, w1)" by (cases "sh_Close S h w")
  then have "sm' = sm\<lparr>sessions := (sessions sm)(i := None)\<rparr>" "w' = w1"
    using assms(2) Some by (auto simp: session_Delete_def Let_def)
  then show ?thesis using neat_remove [OF assms(1) Some c] by simp
qed

lemma close_each_frame:
  "close_each S hs e w = (r, w') \<Longrightarrow> distinct hs \<Longrightarrow>
   started w' = started w \<and> (\<forall>h. closes w' h = closes w h + (if h \<in> set hs then 1 else 0))"
proof (induction hs arbitrary: e w)
  case (Cons h hs)
  obtain e1 w1 where c: "sh_Close S h w = (e1, w1)" by (cases "sh_Close S h w")
  show ?case using Cons.IH [of _ w1] Cons.prems c close_frame [OF c] by auto
qed simp

text \<open>After closing all sessions every shell that was ever started has been closed, exactly once.\<close>

lemma CloseAll_closes:
  assumes "neat sm w" and "ranges range_of" and "CloseAll range_of S sm w = (r, sm', w')"
  shows "sessions sm' = Map.empty \<and> started w' = started w \<and> (\<forall>h. closes w' h = (if h \<in> started w' then 1 else 0))"
proof -
  let ?m = "sessions sm" let ?hs = "map (\<lambda>i. the (?m i)) (range_of ?m)"
  from assms(1) have t: "finite (dom ?m)" "inj_on ?m (dom ?m)" "ran ?m \<subseteq> started w"
    "\<And>h. closes w h = (if h \<in> started w \<and> h \<notin> ran ?m then 1 else 0)" by (auto simp: tidy_def)
  with assms(2) have k: "distinct (range_of ?m)" "set (range_of ?m) = dom ?m" by (auto simp: ranges_def)
  obtain e w1 where c: "close_each S ?hs None w = (e, w1)" by (cases "close_each S ?hs None w")
  have "sm' = sm\<lparr>sessions := Map.empty\<rparr>" "w' = w1" using assms(3) c by (auto simp: CloseAll_def Let_def)
  moreover note close_each_frame [OF c distinct_the [OF k t(2)]]
  ultimately show ?thesis using t(3,4) unfolding ran_the [OF k(2)] by auto
qed

end

section \<open>Requests\<close>

text \<open>A command may run if it is on the white list, or the validator judges it safe, or the validator
  cannot be asked.\<close>

definition may_run ::
  "(string \<Rightarrow> 'w \<Rightarrow> (verr + ValidationResult) \<times> 'w) option \<Rightarrow> string \<Rightarrow> 'w \<Rightarrow> bool" where
  "may_run validator command w \<longleftrightarrow> classifyCommand command \<noteq> ''validated'' \<or>
     (case validator of
        None \<Rightarrow> False
      | Some v \<Rightarrow>
          (case fst (v command w) of
             Inr result \<Rightarrow> Safe result
           | Inl (ValidationUnavailableError _) \<Rightarrow> True
           | Inl (Validation_error _) \<Rightarrow> False))"

definition refusal :: "run_ctx \<Rightarrow> bool" where
  "refusal c \<longleftrightarrow> rc_status c \<in> {400, 403, 404} \<and> (\<exists>m. rc_body c = Error_body m)"

lemma refusal_answer [simp]: "code \<in> {400, 403, 404} \<Longrightarrow> refusal (answer_error code m c)"
  by (simp add: refusal_def answer_error_def)

text \<open>A server that answers the given requests, one after the other.\<close>

fun serve_requests :: "('sh, 'w) runner_handler \<Rightarrow> (string \<times> string \<times> run_ctx) list \<Rightarrow>
    ('sh, 'w) SessionManager \<Rightarrow> 'w \<Rightarrow> (('sh, 'w) SessionManager \<times> 'w) option" where
  "serve_requests h [] sm w = Some (sm, w)"
| "serve_requests h ((method, path, c) # reqs) sm w =
     (case h method path c sm w of
        None \<Rightarrow> None
      | Some (_, sm1, w1) \<Rightarrow> serve_requests h reqs sm1 w1)"

context shell_pool
begin

definition frames :: "(string \<Rightarrow> 'w \<Rightarrow> (verr + ValidationResult) \<times> 'w) option \<Rightarrow> bool" where
  "frames validator \<longleftrightarrow> (\<forall>v c w. validator = Some v \<longrightarrow>
     (let w' = snd (v c w) in started w' = started w \<and> closes w' = closes w \<and> given w' = given w))"

definition runs_at_most :: "'sh \<Rightarrow> string \<Rightarrow> 'w \<Rightarrow> 'w \<Rightarrow> bool" where
  "runs_at_most h c w w' \<longleftrightarrow> started w' = started w \<and> closes w' = closes w \<and>
     (\<forall>h'. h' \<noteq> h \<longrightarrow> given w' h' = given w h') \<and>
     (given w' h = given w h \<or> (\<exists>s. script c s \<and> given w' h = given w h @ [s]))"

lemma stream_runs:
  assumes "stream_command ext quote S h i remote class cmd c w = Some (c', w')"
  shows "runs_at_most h cmd w w' \<and> rc_status c' = 200"
proof -
  obtain r where r: "sh_ExecuteStream S h cmd w = Some (r, w')" and c: "rc_status c' = 200"
    using assms by (auto simp: stream_command_def auditLog_def split: option.splits)
  show ?thesis using exec_frame [OF r] exec_given [OF r] c by (simp add: runs_at_most_def)
qed

lemma runs_after_frame:
  "started w1 = started w \<Longrightarrow> closes w1 = closes w \<Longrightarrow> given w1 = given w \<Longrightarrow>
   runs_at_most h c w1 w' \<Longrightarrow> runs_at_most h c w w'"
  by (simp add: runs_at_most_def)

text \<open>The guard of the execute handler.\<close>

lemma execute_guard:
  assumes "handleExecute ext quote S sm validator c w = Some (c', w')" and "frames validator"
  shows "(started w' = started w \<and> closes w' = closes w \<and> given w' = given w \<and> refusal c') \<or>
    (\<exists>i h cmd. rc_Cookie c = Some i \<and> i \<noteq> [] \<and> sessions sm i = Some h \<and> rc_Command c = Inr cmd \<and>
       may_run validator cmd w \<and> runs_at_most h cmd w w' \<and> rc_status c' = 200)"
    (is "?refused \<or> ?run")
proof (cases "\<exists>i h cmd. rc_Cookie c = Some i \<and> i \<noteq> [] \<and> sessions sm i = Some h \<and> rc_Command c = Inr cmd")
  case False
  then have "w' = w \<and> refusal c'" using assms(1)
    by (auto simp: handleExecute_def session_Get_def split: option.splits sum.splits if_splits)
  then show ?thesis by simp
next
  case True
  then obtain i h cmd where k: "rc_Cookie c = Some i" "i \<noteq> []" "sessions sm i = Some h" "rc_Command c = Inr cmd"
    by blast
  have goal: ?run if "may_run validator cmd w"
    and "stream_command ext quote S h i r cl cmd c1 w1 = Some (c', w')"
    and "started w1 = started w \<and> closes w1 = closes w \<and> given w1 = given w" for r cl c1 w1
    using k that(1) stream_runs [OF that(2)] that(3) runs_after_frame [of w1 w h cmd w'] by blast
  show ?thesis
  proof (cases "classifyCommand cmd = ''validated''")
    case False
    then have "may_run validator cmd w" by (simp add: may_run_def)
    with False show ?thesis using assms(1) k goal
      by (fastforce simp: handleExecute_def session_Get_def Let_def)
  next
    case v: True
    show ?thesis
    proof (cases validator)
      case None
      then have "w' = w \<and> refusal c'" using assms(1) k v
        by (auto simp: handleExecute_def session_Get_def Let_def)
      then show ?thesis by simp
    next
      case (Some f)
      obtain a w1 where a: "f cmd w = (a, w1)" by (cases "f cmd w")
      have fr: "started w1 = started w \<and> closes w1 = closes w \<and> given w1 = given w"
        using assms(2) Some a unfolding frames_def Let_def by (metis snd_conv)
      consider (safe) r where "a = Inr r" "Safe r" | (down) e where "a = Inl (ValidationUnavailableError e)"
        | (unsafe) r where "a = Inr r" "\<not> Safe r" | (bad) e where "a = Inl (Validation_error e)"
        by (cases a) (metis verr.exhaust, blast)
      then show ?thesis
      proof cases
        case safe
        then have "may_run validator cmd w" using Some a by (simp add: may_run_def)
        then show ?thesis using assms(1) k v Some a safe goal [OF _ _ fr]
          by (fastforce simp: handleExecute_def session_Get_def Let_def)
      next
        case down
        then have "may_run validator cmd w" using Some a by (simp add: may_run_def)
        then show ?thesis using assms(1) k v Some a down goal [OF _ _ fr]
          by (fastforce simp: handleExecute_def session_Get_def Let_def)
      next
        case unsafe
        then have "w' = w1 \<and> refusal c'" using assms(1) k v Some a
          by (auto simp: handleExecute_def session_Get_def Let_def)
        then show ?thesis using fr by simp
      next
        case bad
        then have "w' = w1 \<and> refusal c'" using assms(1) k v Some a
          by (auto simp: handleExecute_def session_Get_def Let_def)
        then show ?thesis using fr by simp
      qed
    qed
  qed
qed

lemma handler_neat:
  assumes "newHandler ext quote nf na S validator method path c sm w = Some (c', sm', w')"
    and "neat sm w" and "frames validator"
  shows "neat sm' w'"
proof -
  have create: "neat sm' w'" if "handleCreateSession ext S sm c w = (c', sm', w')"
    using that Create_neat [OF assms(2)] by (auto simp: handleCreateSession_def split: prod.splits sum.splits)
  have delete: "neat sm' w'" if "handleDeleteSession ext S sm c w = (c', sm', w')"
    using that assms(2) session_Delete_neat [OF assms(2)]
    by (auto simp: handleDeleteSession_def split: prod.splits option.splits if_splits)
  have exec: "neat sm w'" if "handleExecute ext quote S sm validator c w = Some (c', w')"
    using execute_guard [OF that assms(3)] neat_frame [OF assms(2), of w'] unfolding runs_at_most_def by blast
  show ?thesis using assms(1,2) create delete exec
    by (auto simp: newHandler_def split: if_splits)
qed

lemma serve_neat:
  assumes "frames validator" and "neat sm w"
    and "serve_requests (newHandler ext quote nf na S validator) reqs sm w = Some (sm', w')"
  shows "neat sm' w'"
  using assms(2,3)
proof (induction reqs arbitrary: sm w)
  case (Cons q reqs)
  obtain m p c where [simp]: "q = (m, p, c)" by (cases q)
  from Cons.prems(2) obtain c1 sm1 w1 where h: "newHandler ext quote nf na S validator m p c sm w = Some (c1, sm1, w1)"
    and r: "serve_requests (newHandler ext quote nf na S validator) reqs sm1 w1 = Some (sm', w')"
    by (auto split: option.splits)
  show ?case by (rule Cons.IH [OF handler_neat [OF h Cons.prems(1) assms(1)] r])
qed simp

end
end
