(* ===== verification/Runner_Instance.thy ===== *)
theory Runner_Instance
  imports Runner_Contract Runner_Shell_Properties
begin
text \<open>
  The runner on its own shells: a world that holds the bash sessions of \<open>Runner_Shell\<close> beside anything
  else outside, the session manager's factories over it, and the proof that they keep the contract.
\<close>

section \<open>The world of shells\<close>

text \<open>Shells are numbered in the order of their start.  \<open>calls\<close>, \<open>start_errs\<close> and \<open>close_errs\<close> are the
  inputs of the next calls, by time; \<open>outside\<close> is everything else.\<close>

record 'x bash_world =
  bash :: "nat \<Rightarrow> bashShell"
  bash_started :: nat
  bash_closes :: "nat \<Rightarrow> nat"
  time :: nat
  calls :: "nat \<Rightarrow> call_env"
  start_errs :: "nat \<Rightarrow> ext_error option \<times> ext_error option \<times> ext_error option \<times> ext_error option"
  close_errs :: "nat \<Rightarrow> ext_error option \<times> ext_error option"
  outside :: 'x

definition bash_shells :: "(ext_error \<Rightarrow> string) \<Rightarrow> (nat, 'x bash_world) Shell" where
  "bash_shells ext = \<lparr>
     sh_ExecuteStream = (\<lambda>h command w.
       (case ExecuteStream (calls w (time w)) command (bash w h) of
          None \<Rightarrow> None
        | Some (r, s) \<Rightarrow> Some (r, w\<lparr>bash := (bash w)(h := s), time := Suc (time w)\<rparr>))),
     sh_Close = (\<lambda>h w.
       (let (werr, pend) = close_errs w (time w); (r, s) = Close ext werr pend (bash w h) in
        (r, w\<lparr>bash := (bash w)(h := s), time := Suc (time w), bash_closes := (bash_closes w)(h := Suc (bash_closes w h))\<rparr>)))\<rparr>"

definition newDefaultShell :: "'x bash_world \<Rightarrow> (rerr + nat) \<times> 'x bash_world" where
  "newDefaultShell w =
     (let (e1, e2, e3, e4) = start_errs w (time w); w1 = w\<lparr>time := Suc (time w)\<rparr> in
      case fst (newBashShellFromCommander e1 e2 e3 e4) of
        Inl err \<Rightarrow> (Inl err, w1)
      | Inr s \<Rightarrow> (Inr (bash_started w), w1\<lparr>bash := (bash w)(bash_started w := s), bash_started := Suc (bash_started w)\<rparr>))"

text \<open>An operation on what is outside, in the whole world.\<close>

definition lift :: "('x \<Rightarrow> 'r \<times> 'x) \<Rightarrow> 'x bash_world \<Rightarrow> 'r \<times> 'x bash_world" where
  "lift f w = (let (r, x) = f (outside w) in (r, w\<lparr>outside := x\<rparr>))"

definition lift_validator :: "('doc, 'x) BedrockValidator \<Rightarrow> ('doc, 'x bash_world) BedrockValidator" where
  "lift_validator v = \<lparr>Converse = (\<lambda>i. lift (Converse v i)), modelID = modelID v,
     MarshalSmithyDocument = MarshalSmithyDocument v, jsonUnmarshalResult = jsonUnmarshalResult v\<rparr>"

section \<open>The contract\<close>

definition bash_given :: "'x bash_world \<Rightarrow> nat \<Rightarrow> string list" where
  "bash_given w h = stdin_log (bash w h)"

definition is_script :: "string \<Rightarrow> string \<Rightarrow> bool" where
  "is_script command s \<longleftrightarrow> (\<exists>n. s = script_of command (marker_of n))"

definition farewell :: string where
  "farewell = ''exit'' @ [CHR 0x0A]"

lemma execute_stdin:
  assumes "ExecuteStream en command s = Some (r, s')"
  shows "stdin_log s' = stdin_log s \<or> stdin_log s' = stdin_log s @ [script_of command (marker_of (nanos en))]"
  using assms
  by (auto simp: ExecuteStream_def Let_def after_loop_def
      split: option.splits prod.splits scan_stop.splits scan_end.splits if_splits)

interpretation bash_pool: shell_pool "bash_shells ext" "lift gen" newDefaultShell
  "\<lambda>w. {..<bash_started w}" bash_closes bash_given is_script farewell
proof (unfold_locales, goal_cases)
  case (1 w r w')
  then show ?case by (auto simp: lift_def bash_given_def split: prod.splits)
next
  case (2 w e w')
  then show ?case by (auto simp: newDefaultShell_def bash_given_def Let_def split: prod.splits sum.splits)
next
  case (3 w h w')
  then show ?case
    by (auto simp: newDefaultShell_def newBashShellFromCommander_def bash_given_def Let_def
        split: prod.splits sum.splits option.splits)
next
  case (4 h c w r w')
  then show ?case by (auto simp: bash_shells_def bash_given_def split: option.splits)
next
  case (5 h c w r w')
  then obtain s where "ExecuteStream (calls w (time w)) c (bash w h) = Some (r, s)" and "bash w' h = s"
    by (auto simp: bash_shells_def split: option.splits)
  with execute_stdin [OF this(1)] show ?case by (auto simp: bash_given_def is_script_def)
next
  case (6 h w e w')
  then show ?case by (auto simp: bash_shells_def bash_given_def Let_def split: prod.splits)
next
  case (7 h w e w')
  then show ?case by (auto simp: bash_shells_def bash_given_def farewell_def Close_def Let_def split: prod.splits if_splits)
qed

lemma lift_frame:
  "lift f w = (r, w') \<Longrightarrow> bash w' = bash w \<and> bash_started w' = bash_started w \<and> bash_closes w' = bash_closes w"
  by (auto simp: lift_def split: prod.splits)

lemma attempts_frame:
  "converse_attempts (lift_validator v) input n err w = (r, w') \<Longrightarrow>
   bash w' = bash w \<and> bash_started w' = bash_started w \<and> bash_closes w' = bash_closes w"
proof (induction n arbitrary: err w)
  case (Suc n)
  obtain a w1 where c: "lift (Converse v input) w = (a, w1)" by (cases "lift (Converse v input) w")
  show ?case using Suc.IH [of _ w1] Suc.prems c lift_frame [OF c]
    by (auto simp: lift_validator_def split: sum.splits)
qed simp

lemma Validate_same:
  "Validate (lift_validator v) c w = (r, w') \<Longrightarrow>
   bash w' = bash w \<and> bash_started w' = bash_started w \<and> bash_closes w' = bash_closes w"
  unfolding Validate_def by (rule attempts_frame)

lemma Validate_frames:
  fixes validator :: "('doc, 'x) BedrockValidator option"
  shows "bash_pool.frames (map_option (\<lambda>v. Validate (lift_validator v)) validator)"
  unfolding bash_pool.frames_def Let_def
proof (intro allI impI)
  fix f c and w :: "'x bash_world"
  assume "map_option (\<lambda>v. Validate (lift_validator v)) validator = Some f"
  then obtain v :: "('doc, 'x) BedrockValidator" where f: "f = Validate (lift_validator v)"
    by auto
  obtain r w' where r: "Validate (lift_validator v) c w = (r, w')" by fastforce
  from Validate_same [OF r] r
  show "{..<bash_started (snd (f c w))} = {..<bash_started w} \<and> bash_closes (snd (f c w)) = bash_closes w \<and>
    bash_given (snd (f c w)) = bash_given w"
    unfolding f bash_given_def by simp
qed

section \<open>The platform\<close>

text \<open>\<open>Q\<close> is the platform of a runner over what is outside, without shells and requests.  The server
  answers \<open>reqs\<close> and then fails or is ended by a signal.\<close>

definition bash_platform :: "('cfg, 'doc, nat, 'x) runner_platform \<Rightarrow> ((string \<Rightarrow> nat option) \<Rightarrow> string list) \<Rightarrow>
    (string \<times> string \<times> run_ctx) list \<Rightarrow> ext_error option \<Rightarrow> ('cfg, 'doc, nat, 'x bash_world) runner_platform" where
  "bash_platform Q range_of reqs fault = \<lparr>
     Listen = (\<lambda>a. lift (Listen Q a)),
     SplitHostPort = SplitHostPort Q,
     ln_Close = (\<lambda>w. w\<lparr>outside := ln_Close Q (outside w)\<rparr>),
     Getenv = Getenv Q,
     os_Hostname = os_Hostname Q,
     client = \<lparr>NewRequestErr = NewRequestErr (client Q), Do = (\<lambda>m u b. lift (Do (client Q) m u b))\<rparr>,
     json_Unmarshal_task = json_Unmarshal_task Q,
     json_Unmarshal_container = json_Unmarshal_container Q,
     json_Marshal_request = json_Marshal_request Q,
     LoadDefaultConfig = lift (LoadDefaultConfig Q),
     Region = Region Q,
     bedrock_NewFromConfig = (\<lambda>c i. lift (bedrock_NewFromConfig Q c i)),
     smithy_Marshal = smithy_Marshal Q,
     json_Unmarshal_result = json_Unmarshal_result Q,
     rand_Read = (\<lambda>n. lift (rand_Read Q n)),
     NewBashShell = newDefaultShell,
     shells = bash_shells (err_text Q),
     map_range = range_of,
     register_wait = lift (register_wait Q),
     Serve = (\<lambda>h sm w. map_option (\<lambda>(sm, w). (fault, sm, w)) (serve_requests h reqs sm w)),
     Shutdown = (\<lambda>t. lift (Shutdown Q t)),
     log_Print = (\<lambda>m w. w\<lparr>outside := log_Print Q m (outside w)\<rparr>),
     err_text = err_text Q,
     quote_text = quote_text Q,
     no_route = no_route Q,
     no_method = no_method Q\<rparr>"

definition same_shells :: "'x bash_world \<Rightarrow> 'x bash_world \<Rightarrow> bool" where
  "same_shells w w' \<longleftrightarrow> bash w' = bash w \<and> bash_started w' = bash_started w \<and> bash_closes w' = bash_closes w"

lemma same_shells_refl [simp]: "same_shells w w"
  by (simp add: same_shells_def)

lemma same_shells_trans: "same_shells u v \<Longrightarrow> same_shells v w \<Longrightarrow> same_shells u w"
  by (simp add: same_shells_def)

lemma same_shells_outside [simp]: "same_shells w (w\<lparr>outside := x\<rparr>)"
  by (simp add: same_shells_def)

lemma generateID_frame:
  "generateID (\<lambda>n. lift (f n)) = lift (generateID f)"
  by (auto simp: fun_eq_iff generateID_def lift_def Let_def split: prod.splits)

section \<open>The shells stay as they are outside of requests\<close>

lemma lift_same: "lift f w = (r, w') \<Longrightarrow> same_shells w w'"
  by (auto simp: lift_def same_shells_def split: prod.splits)

lemma get_same:
  "defaultHTTPGet (client (bash_platform Q ro reqs fault)) u w = (r, w') \<Longrightarrow> same_shells w w'"
  by (auto simp: defaultHTTPGet_def bash_platform_def split: option.splits prod.splits sum.splits if_splits dest!: lift_same)

lemma resolve_same:
  assumes "resolveIdentity (start_deps (bash_platform Q ro reqs fault) p) w = (r, w')"
  shows "same_shells w w'"
proof (rule ccontr)
  let ?P = "bash_platform Q ro reqs fault"
  assume no: "\<not> same_shells w w'"
  obtain r1 w1 where g1: "httpGet (start_deps ?P p) (Getenv ?P ''ECS_CONTAINER_METADATA_URI_V4'' @ ''/task'') w = (r1, w1)"
    by fastforce
  obtain r2 w2 where g2: "httpGet (start_deps ?P p) (Getenv ?P ''ECS_CONTAINER_METADATA_URI_V4'') w1 = (r2, w2)"
    by fastforce
  have s1: "same_shells w w1" and s2: "same_shells w1 w2"
    using get_same [of Q ro reqs fault _ w r1 w1] get_same [of Q ro reqs fault _ w1 r2 w2] g1 g2
    by (simp_all add: start_deps_def)
  then have s3: "same_shells w w2" by (rule same_shells_trans)
  have "w' = w \<or> w' = w1 \<or> w' = w2"
    using assms g1 g2
    by (auto simp: resolveIdentity_def resolveFromECS_def start_deps_def Let_def
        split: if_splits sum.splits option.splits)
  with s1 s3 no show False by auto
qed

lemma round_same:
  assumes "register_round (start_register (bash_platform Q ro reqs fault) b i) url p w = (r, w')"
  shows "same_shells w w'"
proof -
  let ?P = "bash_platform Q ro reqs fault" let ?d = "start_register ?P b i"
  obtain a w1 where a: "httpPost ?d url ''application/json'' p w = (a, w1)" by fastforce
  have s1: "same_shells w w1" using a
    by (auto dest!: lift_same simp: start_register_def defaultHTTPPost_def bash_platform_def split: option.splits)
  have log: "same_shells v (rd_logf ?d m v)" for m v by (simp add: start_register_def bash_platform_def)
  have wait: "same_shells v v'" if "wait_again ?d v = (x, v')" for v x v'
    using that by (auto dest!: lift_same simp: wait_again_def start_register_def bash_platform_def split: prod.splits option.splits)
  have "\<exists>m x v'. (wait_again ?d (rd_logf ?d m w1) = (x, v') \<or> v' = rd_logf ?d m w1) \<and> w' = v'"
    using assms a by (cases a) (auto simp: register_round_def split: if_splits)
  then show ?thesis using s1 log wait same_shells_trans by metis
qed

lemma register_same:
  assumes "register (start_register (bash_platform Q ro reqs fault) b i) w = Some (r, w')"
  shows "same_shells w w'"
proof -
  let ?d = "start_register (bash_platform Q ro reqs fault) b i"
  let ?P = "\<lambda>d u p w y. d = ?d \<longrightarrow> same_shells w (snd y)"
  have "?P d u p w y" if "register_loop d u p w = Some y" for d u p w y
  proof (rule register_loop.raw_induct [where P = ?P, OF _ that])
    fix f d u p w y
    assume IH: "\<And>d u p w y. f d u p w = Some y \<Longrightarrow> ?P d u p w y"
      and eq: "(case register_round d u p w of (Some r, w1) \<Rightarrow> Some (r, w1) | (None, w1) \<Rightarrow> f d u p w1) = Some y"
    show "?P d u p w y"
    proof
      assume d: "d = ?d"
      obtain a w1 where a: "register_round ?d u p w = (a, w1)" by fastforce
      show "same_shells w (snd y)"
        using eq round_same [OF a] IH [of ?d u p w1 y] a same_shells_trans [of w w1] unfolding d by (cases a) auto
    qed
  qed
  from this [OF assms [unfolded register_def]] show ?thesis by simp
qed

lemma start_validator_same:
  "start_validator (bash_platform Q ro reqs fault) w = (v, w') \<Longrightarrow> same_shells w w'"
  by (auto simp: start_validator_def newBedrockValidatorFromEnv_def bash_platform_def Let_def
      split: prod.splits sum.splits if_splits dest!: lift_same
      elim: same_shells_trans)

lemma start_validator_frames:
  assumes "start_validator (bash_platform Q ro reqs fault) w = (v, w')"
  shows "bash_pool.frames v"
proof (cases v)
  case None
  then show ?thesis by (simp add: bash_pool.frames_def)
next
  case (Some f)
  let ?P = "bash_platform Q ro reqs fault"
  obtain c m where f: "f = Validate (NewBedrockValidator ?P (bedrock_NewFromConfig ?P c) m)"
    using assms Some
    by (auto simp: start_validator_def newBedrockValidatorFromEnv_def Let_def split: prod.splits sum.splits if_splits)
  have "NewBedrockValidator ?P (bedrock_NewFromConfig ?P c) m =
      lift_validator (NewBedrockValidator Q (bedrock_NewFromConfig Q c) m)"
    by (simp add: NewBedrockValidator_def lift_validator_def bash_platform_def)
  then show ?thesis
    using Validate_frames [of "Some (NewBedrockValidator Q (bedrock_NewFromConfig Q c) m)"] f Some by simp
qed
end
