(* ===== verification/Runner_Lifecycle.thy ===== *)
theory Runner_Lifecycle
  imports Runner_Instance
begin
text \<open>
  The life of a runner process as a whole: from \<open>main\<close> to its end the table of sessions and the open
  shells stay the same thing.
\<close>

abbreviation bash_neat :: "('x \<Rightarrow> (rerr + string) \<times> 'x) \<Rightarrow> (nat, 'x bash_world) SessionManager \<Rightarrow> 'x bash_world \<Rightarrow> bool" where
  "bash_neat gen sm w \<equiv> tidy (\<lambda>w. {..<bash_started w}) bash_closes sm w \<and> makes (lift gen) newDefaultShell sm"

definition all_closed_once :: "'x bash_world \<Rightarrow> bool" where
  "all_closed_once w \<longleftrightarrow> (\<forall>h. bash_closes w h = (if h < bash_started w then 1 else 0))"

lemma neat_same: "bash_neat gen sm w \<Longrightarrow> same_shells w w' \<Longrightarrow> bash_neat gen sm w'"
  by (simp add: tidy_def same_shells_def)

lemma closed_same: "all_closed_once w \<Longrightarrow> same_shells w w' \<Longrightarrow> all_closed_once w'"
  by (simp add: all_closed_once_def same_shells_def)

lemma deregister_same:
  "deregister \<lparr>dd_brokerURL = b, dd_runnerID = i, dd_client = client (bash_platform Q ro reqs fault),
     dd_logf = log_Print (bash_platform Q ro reqs fault)\<rparr> w = (r, w') \<Longrightarrow> same_shells w w'"
  by (auto simp: deregister_def bash_platform_def Let_def split: option.splits prod.splits sum.splits if_splits
      dest!: lift_same elim: same_shells_trans)

lemma log_same [simp]: "same_shells u (log_Print (bash_platform Q ro reqs fault) m w) \<longleftrightarrow> same_shells u w"
  "same_shells u (ln_Close (bash_platform Q ro reqs fault) w) \<longleftrightarrow> same_shells u w"
  by (simp_all add: bash_platform_def same_shells_def)

lemma wind_down_closes:
  assumes "bash_neat gen sm w" and "ranges ro"
    and "wind_down (bash_platform Q ro reqs fault) cfg sm w = (r, sm', w')"
  shows "all_closed_once w'"
proof -
  let ?P = "bash_platform Q ro reqs fault"
  define w1 where "w1 = log_Print ?P ''shutting down...'' w"
  obtain r0 v0 where d: "deregister \<lparr>dd_brokerURL = cfg_brokerURL cfg, dd_runnerID = cfg_runnerID cfg,
      dd_client = client ?P, dd_logf = log_Print ?P\<rparr> w1 = (r0, v0)" by fastforce
  define w2 where "w2 = (if cfg_brokerURL cfg \<noteq> [] \<and> cfg_runnerID cfg \<noteq> []
      then (case r0 of Some err \<Rightarrow>
          log_Print ?P (''WARNING: deregister from broker failed: '' @ rerr_text (err_text ?P) err) v0 | None \<Rightarrow> v0)
      else w1)"
  obtain sh w3 where s: "Shutdown ?P (shutdownTimeout cfg) w2 = (sh, w3)" by fastforce
  define w4 where "w4 = (case sh of
      Some e \<Rightarrow> log_Print ?P (''server shutdown error: '' @ err_text ?P e) w3 | None \<Rightarrow> w3)"
  obtain c sm1 w5 where c: "CloseAll (map_range ?P) (shells ?P) sm w4 = (c, sm1, w5)" by (metis prod.exhaust)
  have "same_shells w w1" by (simp add: w1_def)
  moreover have "same_shells w1 w2"
    using deregister_same [OF d] by (auto simp: w2_def split: option.splits elim: same_shells_trans)
  moreover have "same_shells w2 w3" using s lift_same by (auto simp: bash_platform_def)
  moreover have "same_shells w3 w4" by (auto simp: w4_def split: option.splits)
  ultimately have "same_shells w w4" by (blast intro: same_shells_trans)
  with assms(1) have "bash_neat gen sm w4" using neat_same by blast
  from bash_pool.CloseAll_closes [OF this assms(2), of "err_text Q" c sm1 w5] c
  have cl: "all_closed_once w5" by (simp add: bash_platform_def all_closed_once_def)
  have "same_shells w5 w'"
    using assms(3) d s c
    by (auto simp: wind_down_def Let_def w1_def [symmetric] w2_def [symmetric] w4_def split: option.splits prod.splits
        elim: same_shells_trans)
  with cl show ?thesis by (rule closed_same)
qed

lemma run_closes:
  assumes "bash_neat gen (cfg_sm cfg) w" and "bash_pool.frames (cfg_validator cfg)" and "cfg_handler cfg = None"
    and "ranges ro" and "run (bash_platform Q ro reqs None) ln cfg w = Some (r, sm', w')"
  shows "all_closed_once w'"
proof -
  let ?P = "bash_platform Q ro reqs None"
  let ?w0 = "log_Print ?P (''server listening on '' @ ln) w"
  let ?h = "newHandler (err_text ?P) (quote_text ?P) (no_route ?P) (no_method ?P) (shells ?P) (cfg_validator cfg)"
  have sh: "shells ?P = bash_shells (err_text Q)" by (simp add: bash_platform_def)
  from assms(3,5) obtain sm1 w1 where s: "serve_requests ?h reqs (cfg_sm cfg) ?w0 = Some (sm1, w1)"
    and d: "wind_down ?P cfg sm1 w1 = (r, sm', w')"
    by (auto simp: run_def Let_def bash_platform_def split: option.splits)
  have "bash_neat gen (cfg_sm cfg) ?w0" by (rule neat_same [OF assms(1)]) simp
  from bash_pool.serve_neat [OF assms(2) this s [unfolded sh]] have "bash_neat gen sm1 w1" .
  from wind_down_closes [OF this assms(4) d] show ?thesis .
qed

lemma new_manager_neat:
  "bash_started w = 0 \<Longrightarrow> bash_closes w = (\<lambda>h. 0) \<Longrightarrow>
   bash_neat gen (NewSessionManager (lift gen) newDefaultShell) w"
  by (simp add: tidy_def makes_def NewSessionManager_def)

lemma start_closes:
  assumes "start (bash_platform Q ro reqs None) addr w = Some (r, w')" and "ranges ro"
    and "bash_started w = 0" and "bash_closes w = (\<lambda>h. 0)"
  shows "all_closed_once w'"
proof -
  let ?P = "bash_platform Q ro reqs None"
  have w: "all_closed_once w" using assms(3,4) by (simp add: all_closed_once_def)
  obtain l w1 where l: "Listen ?P addr w = (l, w1)" by fastforce
  have s1: "same_shells w w1" using l lift_same by (auto simp: bash_platform_def)
  show ?thesis
  proof (cases l)
    case (Inl e)
    then show ?thesis using assms(1) l closed_same [OF w s1] by (simp add: start_def)
  next
    case (Inr p)
    obtain i w2 where i: "resolveIdentity (start_deps ?P (SplitHostPort ?P p)) w1 = (i, w2)" by fastforce
    have s2: "same_shells w w2" using resolve_same [OF i] s1 same_shells_trans by blast
    show ?thesis
    proof (cases i)
      case (Inl e)
      then have "same_shells w w'" using assms(1) l \<open>l = Inr p\<close> i s2 by (auto simp: start_def)
      then show ?thesis by (rule closed_same [OF w])
    next
      case (Inr identity)
      define w3 where "w3 = log_Print ?P (''runner identity: id='' @ id_RunnerID identity @ '' url='' @ id_PrivateURL identity) w2"
      obtain v w4 where v: "start_validator ?P w3 = (v, w4)" by fastforce
      let ?u = "Getenv ?P ''BROKER_URL''"
      have s3: "same_shells w w3" using s2 by (simp add: w3_def)
      have s4: "same_shells w w4" using start_validator_same [OF v] s3 same_shells_trans by blast
      show ?thesis
      proof (cases "?u = []")
        case True
        then have "same_shells w w'" using assms(1) l \<open>l = Inr p\<close> i Inr s3 by (auto simp: start_def Let_def w3_def)
        then show ?thesis by (rule closed_same [OF w])
      next
        case u: False
        have st: "start ?P addr w =
            (case register (start_register ?P ?u identity) w4 of
               None \<Rightarrow> None
             | Some (Some e, w5) \<Rightarrow> Some (Some (Wrapf ''register with broker'' (Foreign e)), ln_Close ?P w5)
             | Some (None, w5) \<Rightarrow>
                 map_option (\<lambda>(err, _, w6). (err, w6))
                   (run ?P p \<lparr>cfg_sm = NewSessionManager (generateID (rand_Read ?P)) (NewBashShell ?P),
                     cfg_validator = v, shutdownTimeout = 10, cfg_handler = None,
                     cfg_brokerURL = ?u, cfg_runnerID = id_RunnerID identity\<rparr> w5))"
          using l \<open>l = Inr p\<close> i Inr v u by (simp only: start_def Let_def w3_def prod.case sum.case if_False)
        from u obtain x w5 where x: "register (start_register ?P ?u identity) w4 = Some (x, w5)"
          using assms(1) unfolding st by (auto split: option.splits)
        have s5: "same_shells w w5" using register_same [OF x] s4 same_shells_trans by blast
        show ?thesis
        proof (cases x)
          case (Some e)
          then have "same_shells w w'" using assms(1) x s5 unfolding st by auto
          then show ?thesis by (rule closed_same [OF w])
        next
          case None
          let ?cfg = "\<lparr>cfg_sm = NewSessionManager (generateID (rand_Read ?P)) (NewBashShell ?P), cfg_validator = v,
            shutdownTimeout = 10, cfg_handler = None, cfg_brokerURL = ?u, cfg_runnerID = id_RunnerID identity\<rparr>"
          obtain sm' where r: "run ?P p ?cfg w5 = Some (r, sm', w')" using assms(1) x None unfolding st by auto
          have g: "generateID (rand_Read ?P) = lift (generateID (rand_Read Q))" "NewBashShell ?P = newDefaultShell"
            using generateID_frame [of "rand_Read Q"] by (simp_all add: bash_platform_def)
          have "bash_neat (generateID (rand_Read Q)) (cfg_sm ?cfg) w5"
            using new_manager_neat [of w5] s5 assms(3,4) g by (simp add: same_shells_def)
          from run_closes [OF this _ _ assms(2) r] start_validator_frames [OF v] show ?thesis by simp
        qed
      qed
    qed
  qed
qed
end
