(* ===== verification/Runner_Properties.thy ===== *)
theory Runner_Properties
  imports Runner_Lifecycle "HOL-Library.List_Lexorder" "HOL-Library.Char_ord"
begin
text \<open>
  The properties of the runner around its shells: which commands run and what their caller gets, how
  often the model is asked, how registration ends, and that no shell outlives the process.
\<close>

section \<open>Which commands run\<close>

text \<open>C30. Nothing reaches a shell unjudged.  A request to execute either is refused (400, 403 or 404, with
  an error) and gives no shell anything, or it is answered 200, names a live session, and its command
  is white-listed or was judged safe by the validator, or the validator could not be asked; then only
  the shell of that session is given something, and that is at most the script of that command.\<close>

theorem only_judged_commands_run:
  fixes validator :: "('doc, 'x) BedrockValidator option" and w :: "'x bash_world"
  assumes "handleExecute ext quote (bash_shells ext) sm (map_option (\<lambda>v. Validate (lift_validator v)) validator) c w =
    Some (c', w')"
  shows "refusal c' \<and> bash_given w' = bash_given w \<or>
    (\<exists>i h cmd. rc_Cookie c = Some i \<and> i \<noteq> [] \<and> sessions sm i = Some h \<and> rc_Command c = Inr cmd \<and>
       may_run (map_option (\<lambda>v. Validate (lift_validator v)) validator) cmd w \<and>
       (\<forall>h'. h' \<noteq> h \<longrightarrow> bash_given w' h' = bash_given w h') \<and>
       (bash_given w' h = bash_given w h \<or>
        (\<exists>n. bash_given w' h = bash_given w h @ [script_of cmd (marker_of n)])) \<and> rc_status c' = 200)"
  using bash_pool.execute_guard [OF assms Validate_frames]
  unfolding bash_pool.runs_at_most_def is_script_def by blast


definition demo_ctx :: "string \<Rightarrow> run_ctx" where
  "demo_ctx command = \<lparr>rc_Cookie = Some ''s1'', rc_Command = Inr command, rc_ViewerAddress = [],
     rc_ClientIP = ''10.0.0.9'', rc_status = 0, rc_header = Map.empty, rc_set_cookie = None,
     rc_body = Nothing_written, rc_audit = []\<rparr>"

definition demo_bash_world :: "call_env \<Rightarrow> unit bash_world" where
  "demo_bash_world en = \<lparr>bash = (\<lambda>h. demo_shell), bash_started = 0, bash_closes = (\<lambda>h. 0), time = 0,
     calls = (\<lambda>t. en), start_errs = (\<lambda>t. (None, None, None, None)), close_errs = (\<lambda>t. (None, None)), outside = ()\<rparr>"

definition demo_sessions :: "(nat, unit bash_world) SessionManager" where
  "demo_sessions = \<lparr>sessions = [''s1'' \<mapsto> 0], genID = (\<lambda>w. (Inr [], w)), newShell = newDefaultShell\<rparr>"

text \<open>A validator that answers that a command is not safe.\<close>

definition demo_validator :: "(unit, unit) BedrockValidator" where
  "demo_validator = \<lparr>Converse = (\<lambda>i w. (Inr (Some (Message_output [Tool_use (Some toolName) ()])), w)),
     modelID = ''m'', MarshalSmithyDocument = (\<lambda>d. Inr ''{}''),
     jsonUnmarshalResult = (\<lambda>s. Inr \<lparr>Safe = False, Reason = ''deletes files''\<rparr>)\<rparr>"

lemma demo_unsafe: "Validate (lift_validator demo_validator) cmd w = (Inr \<lparr>Safe = False, Reason = ''deletes files''\<rparr>, w)"
proof -
  have "maxRetries + 1 = Suc 2" by (simp add: maxRetries_def)
  then show ?thesis unfolding Validate_def by (simp add: lift_validator_def demo_validator_def lift_def)
qed

theorem only_judged_commands_run_witness:
  "\<exists>c' w'. handleExecute (\<lambda>e. []) (\<lambda>s. s) (bash_shells (\<lambda>e. [])) demo_sessions
      (Some (Validate (lift_validator demo_validator))) (demo_ctx ''rm -rf x'') (demo_bash_world (demo_call [] [])) =
      Some (c', w') \<and> refusal c' \<and> bash_given w' = bash_given (demo_bash_world (demo_call [] []))"
proof -
  let ?w = "demo_bash_world (demo_call [] [])" let ?V = "Some (Validate (lift_validator demo_validator))"
  have cl: "classifyCommand ''rm -rf x'' = ''validated''" by code_simp
  obtain c' where h: "handleExecute (\<lambda>e. []) (\<lambda>s. s) (bash_shells (\<lambda>e. [])) demo_sessions ?V (demo_ctx ''rm -rf x'') ?w =
      Some (c', ?w)" and st: "rc_status c' = 403"
    using cl by (simp add: handleExecute_def session_Get_def demo_ctx_def demo_sessions_def demo_unsafe Let_def answer_error_def)
  from only_judged_commands_run [of "\<lambda>e. []" "\<lambda>s. s" demo_sessions "Some demo_validator" "demo_ctx ''rm -rf x''" ?w c' ?w] h st
  show ?thesis by auto
qed

section \<open>What the caller gets\<close>

lemma execute_listed:
  assumes "rc_Cookie c = Some i" and "i \<noteq> []" and "sessions sm i = Some h" and "rc_Command c = Inr cmd"
    and "classifyCommand cmd = ''whitelisted''" and "ExecuteStream (calls w (time w)) cmd (bash w h) = Some (r, s)"
  shows "\<exists>c' w'. handleExecute ext quote (bash_shells ext) sm validator c w = Some (c', w') \<and>
    rc_status c' = 200 \<and> rc_body c' = Events (events_of r) \<and> bash w' = (bash w)(h := s) \<and> outside w' = outside w"
  using assms
  by (simp add: handleExecute_def session_Get_def stream_command_def bash_shells_def auditLog_def Let_def)


text \<open>C31. From the request to the events.  For a white-listed command on a live, healthy session (under
  the conditions on what bash writes and what the context does of the property of a single shell) the
  answer is 200 with a stream of events: the standard output of the command, cut into lines but
  complete and in order, then one event with the standard error if there is any, then the completion
  with the command's exit code; nobody is asked about the command and the session stays usable.\<close>

theorem execute_end_to_end:
  assumes "rc_Cookie c = Some i" and "i \<noteq> []" and "sessions sm i = Some h" and "rc_Command c = Inr cmd"
    and "classifyCommand cmd = ''whitelisted''"
    and "en = calls w (time w)" and "broken (bash w h) = None" and "unread (bash w h) = []"
    and "ctx_err en = None" and "write_err en = None" and "\<forall>k. send_err en k = None"
    and "produced en = scan_lines (framed out (nanos en) ec)" and "ec < 256"
    and "CR \<notin> set out" and "\<forall>l \<in> set (scan_lines out). \<not> has_prefix l (marker_of (nanos en))"
    and "concat (err_reads en) = err @ marker_of (nanos en) @ [NL]"
    and "index_of (err @ marker_of (nanos en)) (marker_of (nanos en)) = Some (length err)"
  shows "\<exists>c' w' lines e. handleExecute ext quote (bash_shells ext) sm validator c w = Some (c', w') \<and>
    rc_status c' = 200 \<and>
    rc_body c' = Events (map (\<lambda>l. \<lparr>sse_Type = ''stdout'', sse_Data = l, sse_ExitCode = None\<rparr>) lines @
      (if e = [] then [] else [\<lparr>sse_Type = ''stderr'', sse_Data = e, sse_ExitCode = None\<rparr>]) @
      [\<lparr>sse_Type = ''complete'', sse_Data = [], sse_ExitCode = Some (int ec)\<rparr>]) \<and>
    concat lines = (if out = [] \<or> last out = NL then out else out @ [NL]) \<and> e \<in> {err, err @ [NL]} \<and>
    outside w' = outside w \<and> broken (bash w' h) = None \<and> unread (bash w' h) = []"
proof -
  from stream_exact [OF assms(7-17), of cmd] obtain r s where x: "ExecuteStream en cmd (bash w h) = Some (r, s)"
    "exitCode r = int ec" "concat (stdout_sent r) = (if out = [] \<or> last out = NL then out else out @ [NL])"
    "res_stderr r \<in> {err, err @ [NL]}" "broken s = None" "unread s = []" by blast
  from execute_listed [OF assms(1-5) x(1) [unfolded assms(6)], of ext quote validator] obtain c' w' where
    e: "handleExecute ext quote (bash_shells ext) sm validator c w = Some (c', w')" "rc_status c' = 200"
    "rc_body c' = Events (events_of r)" "bash w' = (bash w)(h := s)" "outside w' = outside w" by blast
  have s: "bash w' h = s" unfolding e(4) by simp
  show ?thesis
    by (intro exI [of _ c'] exI [of _ w'] exI [of _ "stdout_sent r"] exI [of _ "res_stderr r"])
      (simp add: e(1,2,3,5) s x(2-6) [simplified] events_of_def)
qed


lemma demo_framed:
  "produced (demo_call [''hi'', ''__MRK_7_END__0''] [''__MRK_7_END__'' @ [NL]]) = scan_lines (framed ''hi'' 7 0)"
proof -
  have "scan_lines (''hi'' @ [NL]) = [''hi'']" using scan_lines_line [of "''hi''" "[]"] by simp
  then show ?thesis unfolding framed_lines by (simp add: demo_call_def marker_7 dec.simps)
qed

theorem execute_end_to_end_witness:
  "\<exists>c' w' lines e. handleExecute (\<lambda>e. []) (\<lambda>s. s) (bash_shells (\<lambda>e. [])) demo_sessions None (demo_ctx ''ls'')
      (demo_bash_world (demo_call [''hi'', ''__MRK_7_END__0''] [''__MRK_7_END__'' @ [NL]])) = Some (c', w') \<and>
    rc_status c' = 200 \<and> concat lines = ''hi'' @ [NL] \<and> e \<in> {[], [NL]} \<and>
    rc_body c' = Events (map (\<lambda>l. \<lparr>sse_Type = ''stdout'', sse_Data = l, sse_ExitCode = None\<rparr>) lines @
      (if e = [] then [] else [\<lparr>sse_Type = ''stderr'', sse_Data = e, sse_ExitCode = None\<rparr>]) @
      [\<lparr>sse_Type = ''complete'', sse_Data = [], sse_ExitCode = Some 0\<rparr>])"
proof -
  let ?en = "demo_call [''hi'', ''__MRK_7_END__0''] [''__MRK_7_END__'' @ [NL]]" let ?w = "demo_bash_world ?en"
  have n: "nanos ?en = 7" by (simp add: demo_call_def)
  have k: "rc_Cookie (demo_ctx ''ls'') = Some ''s1''" "''s1'' \<noteq> []" "sessions demo_sessions ''s1'' = Some 0"
    "rc_Command (demo_ctx ''ls'') = Inr ''ls''" "classifyCommand ''ls'' = ''whitelisted''"
    "?en = calls ?w (time ?w)" "broken (bash ?w 0) = None" "unread (bash ?w 0) = []"
    "ctx_err ?en = None" "write_err ?en = None" "\<forall>k. send_err ?en k = None"
    "produced ?en = scan_lines (framed ''hi'' (nanos ?en) 0)" "(0 :: nat) < 256" "CR \<notin> set ''hi''"
    using demo_framed unfolding n
    by (simp_all add: demo_ctx_def demo_sessions_def demo_bash_world_def demo_shell_def demo_call_def) code_simp
  have l: "\<forall>l \<in> set (scan_lines ''hi''). \<not> has_prefix l (marker_of (nanos ?en))"
    "concat (err_reads ?en) = [] @ marker_of (nanos ?en) @ [NL]"
    "index_of ([] @ marker_of (nanos ?en)) (marker_of (nanos ?en)) = Some (length [])"
    unfolding n marker_7 by (simp_all add: demo_call_def)
  from execute_end_to_end [OF k l, of "\<lambda>e. []" "\<lambda>s. s" None] obtain c' w' lines e where
    h: "handleExecute (\<lambda>e. []) (\<lambda>s. s) (bash_shells (\<lambda>e. [])) demo_sessions None (demo_ctx ''ls'') ?w = Some (c', w')"
    "rc_status c' = 200"
    "rc_body c' = Events (map (\<lambda>l. \<lparr>sse_Type = ''stdout'', sse_Data = l, sse_ExitCode = None\<rparr>) lines @
      (if e = [] then [] else [\<lparr>sse_Type = ''stderr'', sse_Data = e, sse_ExitCode = None\<rparr>]) @
      [\<lparr>sse_Type = ''complete'', sse_Data = [], sse_ExitCode = Some (int 0)\<rparr>])"
    "concat lines = (if ''hi'' = [] \<or> last ''hi'' = NL then ''hi'' else ''hi'' @ [NL])" "e \<in> {[], [] @ [NL]}"
    by blast
  have "concat lines = ''hi'' @ [NL]" "e \<in> {[], [NL]}" using h(4,5) by simp_all
  with h(1-3) show ?thesis unfolding of_nat_0 by blast
qed

section \<open>How often the model is asked\<close>

text \<open>The judgement in an answer, if it has one, and the error of an answer that cannot be read.\<close>

definition decides :: "('doc, nat) BedrockValidator \<Rightarrow> (ext_error + 'doc converse_output option) \<Rightarrow>
    (verr + ValidationResult) option" where
  "decides v answer =
     (case answer of
        Inl e \<Rightarrow> Some (Inl (ValidationUnavailableError e))
      | Inr output \<Rightarrow> (case parseToolUseResult v output of Inr result \<Rightarrow> Some (Inr result) | Inl _ \<Rightarrow> None))"

definition scripted :: "('doc, nat) BedrockValidator \<Rightarrow> (nat \<Rightarrow> ext_error + 'doc converse_output option) \<Rightarrow>
    ('doc, nat) BedrockValidator" where
  "scripted v answers = v\<lparr>Converse := (\<lambda>i n. (answers n, Suc n))\<rparr>"


lemma scripted_sel [simp]:
  "MarshalSmithyDocument (scripted v answers) = MarshalSmithyDocument v"
  "jsonUnmarshalResult (scripted v answers) = jsonUnmarshalResult v"
  "Converse (scripted v answers) i n = (answers n, Suc n)"
  by (simp_all add: scripted_def)

lemma parse_blocks_scripted: "parse_blocks (scripted v answers) bs = parse_blocks v bs"
proof (induction bs)
  case (Cons b bs)
  then show ?case by (cases b) (simp_all split: sum.splits)
qed simp

lemma parse_scripted: "parseToolUseResult (scripted v answers) out = parseToolUseResult v out"
  by (cases "(v, out)" rule: parseToolUseResult.cases) (simp_all add: parse_blocks_scripted)

definition parse_error :: "('doc, nat) BedrockValidator \<Rightarrow> (ext_error + 'doc converse_output option) \<Rightarrow> rerr" where
  "parse_error v answer = projl (parseToolUseResult v (projr answer))"

lemma attempts_scripted:
  "converse_attempts (scripted v answers) input (Suc k) err n =
     (case decides v (answers n) of
        Some r \<Rightarrow> (r, Suc n)
      | None \<Rightarrow> converse_attempts (scripted v answers) input k (parse_error v (answers n)) (Suc n))"
  by (auto simp: decides_def parse_error_def parse_scripted split: sum.splits)


text \<open>C32. The validator asks at most three times.  It takes the first of three answers that decides:
  a call that fails ends it at once as unavailable, a readable judgement is returned as it is; if all
  three cannot be read it reports the last reason.  The number of calls made is exact.\<close>

theorem validation_is_bounded:
  "Validate (scripted v answers) cmd n =
     (case List.find (\<lambda>k. decides v (answers k) \<noteq> None) [n, n + 1, n + 2] of
        Some k \<Rightarrow> (the (decides v (answers k)), k + 1)
      | None \<Rightarrow> (Inl (Validation_error (Wrapf ''bedrock converse: retries exhausted'' (parse_error v (answers (n + 2))))),
          n + 3))"
proof -
  have three: "maxRetries + 1 = Suc (Suc (Suc 0))" by (simp add: maxRetries_def)
  have add: "n + 1 = Suc n" "n + 2 = Suc (Suc n)" "n + 3 = Suc (Suc (Suc n))" by simp_all
  show ?thesis unfolding Validate_def three attempts_scripted add
    by (cases "decides v (answers n)"; cases "decides v (answers (Suc n))"; cases "decides v (answers (Suc (Suc n)))")
      simp_all
qed


section \<open>Registration\<close>

text \<open>A broker whose answers are given by round, and the end of the context after each round.\<close>

record net =
  clock :: nat
  posts :: "(string \<times> string \<times> string) list"

definition scripted_register :: "(nat \<Rightarrow> ext_error + http_response) \<Rightarrow> (nat \<Rightarrow> ext_error option) \<Rightarrow>
    (registerRequest \<Rightarrow> string) \<Rightarrow> string \<Rightarrow> Identity \<Rightarrow> net registerDeps" where
  "scripted_register answers cancel marshal base i = \<lparr>rd_brokerURL = base, rd_identity = i,
     httpPost = (\<lambda>u t p w. (answers (clock w), w\<lparr>posts := posts w @ [(u, t, p)]\<rparr>)),
     rd_wait = (\<lambda>w. (cancel (clock w), w\<lparr>clock := Suc (clock w)\<rparr>)),
     rd_logf = (\<lambda>m w. w), rd_Marshal = marshal, rd_text = (\<lambda>e. [])\<rparr>"

definition accepted :: "ext_error + http_response \<Rightarrow> bool" where
  "accepted a = (case a of Inr resp \<Rightarrow> StatusCode resp = 201 | Inl _ \<Rightarrow> False)"

definition ends :: "(nat \<Rightarrow> ext_error + http_response) \<Rightarrow> (nat \<Rightarrow> ext_error option) \<Rightarrow> nat \<Rightarrow> bool" where
  "ends answers cancel n \<longleftrightarrow> accepted (answers n) \<or> cancel n \<noteq> None"

lemma round_scripted:
  "register_round (scripted_register answers cancel marshal base i) u p w =
     (if accepted (answers (clock w)) then (Some None, w\<lparr>posts := posts w @ [(u, ''application/json'', p)]\<rparr>)
      else (map_option Some (cancel (clock w)),
            w\<lparr>posts := posts w @ [(u, ''application/json'', p)], clock := Suc (clock w)\<rparr>))"
  by (auto simp: register_round_def scripted_register_def accepted_def wait_again_def split: sum.splits option.splits)

lemma loop_returns:
  assumes "ends answers cancel (clock w + k)" and "\<forall>j < k. \<not> ends answers cancel (clock w + j)"
  shows "\<exists>w'. register_loop (scripted_register answers cancel marshal base i) u p w =
      Some (if accepted (answers (clock w + k)) then None else cancel (clock w + k), w') \<and>
    posts w' = posts w @ replicate (Suc k) (u, ''application/json'', p)"
  using assms
proof (induction k arbitrary: w)
  case 0
  then show ?case by (subst register_loop.simps) (auto simp: round_scripted ends_def)
next
  case (Suc k)
  from Suc.prems(2) have no: "\<not> accepted (answers (clock w))" "cancel (clock w) = None"
    unfolding ends_def by (metis add.right_neutral zero_less_Suc)+
  let ?w = "w\<lparr>posts := posts w @ [(u, ''application/json'', p)], clock := Suc (clock w)\<rparr>"
  have "\<forall>j < k. \<not> ends answers cancel (clock ?w + j)" using Suc.prems(2) by auto
  with Suc.IH [of ?w] Suc.prems(1) no show ?case
    by (subst register_loop.simps) (auto simp: round_scripted replicate_app_Cons_same)
qed

lemma loop_diverges:
  assumes "\<forall>n. \<not> ends answers cancel n"
  shows "register_loop (scripted_register answers cancel marshal base i) u p w = None"
proof -
  let ?d = "scripted_register answers cancel marshal base i"
  let ?P = "\<lambda>d u p w y. d \<noteq> ?d"
  have "?P d u p w y" if "register_loop d u p w = Some y" for d u p w y
  proof (rule register_loop.raw_induct [where P = ?P, OF _ that])
    fix f d u p w y
    assume IH: "\<And>d u p w y. f d u p w = Some y \<Longrightarrow> ?P d u p w y"
      and eq: "(case register_round d u p w of (Some r, w1) \<Rightarrow> Some (r, w1) | (None, w1) \<Rightarrow> f d u p w1) = Some y"
    show "?P d u p w y" using eq IH assms by (auto simp: round_scripted ends_def) (metis surj_pair)
  qed
  from this [of ?d u p w] show ?thesis by (cases "register_loop ?d u p w") auto
qed


lemma register_scripted:
  "register (scripted_register answers cancel marshal base i) w =
   register_loop (scripted_register answers cancel marshal base i) (base @ ''/internal/runners/register'')
     (marshal \<lparr>rq_RunnerID = id_RunnerID i, rq_PrivateURL = id_PrivateURL i\<rparr>) w"
  by (simp add: register_def register_url_def scripted_register_def)


text \<open>C33. Registration ends exactly when it should.  With the first round that is answered 201 or after
  which the context is over, \<open>register\<close> returns (without an error exactly for a 201), after one request
  per round to the broker's register address with the runner's identity; if no such round comes, it
  never returns.\<close>

theorem registration_outcome:
  "if \<exists>n. ends answers cancel n
   then \<exists>n w'. n = (LEAST n. ends answers cancel n) \<and>
     register (scripted_register answers cancel marshal base i) \<lparr>clock = 0, posts = []\<rparr> =
       Some (if accepted (answers n) then None else cancel n, w') \<and>
     posts w' = replicate (Suc n) (base @ ''/internal/runners/register'', ''application/json'',
       marshal \<lparr>rq_RunnerID = id_RunnerID i, rq_PrivateURL = id_PrivateURL i\<rparr>)
   else register (scripted_register answers cancel marshal base i) \<lparr>clock = 0, posts = []\<rparr> = None"
proof (cases "\<exists>n. ends answers cancel n")
  case True
  define n where "n = (LEAST n. ends answers cancel n)"
  from True have e: "ends answers cancel n" unfolding n_def by (metis LeastI)
  have l: "\<forall>j < n. \<not> ends answers cancel j" unfolding n_def using not_less_Least by blast
  let ?w = "\<lparr>clock = 0, posts = []\<rparr>"
  let ?u = "base @ ''/internal/runners/register''"
  let ?p = "marshal \<lparr>rq_RunnerID = id_RunnerID i, rq_PrivateURL = id_PrivateURL i\<rparr>"
  obtain w' where "register (scripted_register answers cancel marshal base i) ?w =
      Some (if accepted (answers n) then None else cancel n, w')"
    and "posts w' = replicate (Suc n) (?u, ''application/json'', ?p)"
    using loop_returns [of answers cancel ?w n marshal base i ?u ?p] e l unfolding register_scripted
    by (simp only: net.select_convs add_0 append_Nil) blast
  with True show ?thesis unfolding n_def [symmetric] by (simp only: if_True) blast
next
  case False
  then have "register (scripted_register answers cancel marshal base i) \<lparr>clock = 0, posts = []\<rparr> = None"
    unfolding register_scripted by (intro loop_diverges) blast
  with False show ?thesis by simp
qed

section \<open>No shell outlives the process\<close>


definition demo_outside :: "(unit, unit, nat, unit) runner_platform" where
  "demo_outside = \<lparr>Listen = (\<lambda>a u. (Inr ''[::]:8080'', u)), SplitHostPort = (\<lambda>a. ''8080''), ln_Close = (\<lambda>u. u),
     Getenv = (\<lambda>v. if v = ''RUNNER_PORT'' then ''8080'' else if v = ''BROKER_URL'' then ''http://b'' else []),
     os_Hostname = Inr ''h'',
     client = \<lparr>NewRequestErr = (\<lambda>m u. None), Do = (\<lambda>m u b x. (Inr \<lparr>StatusCode = (if m = ''POST'' then 201 else 204), ReadAll = Inr []\<rparr>, x))\<rparr>,
     json_Unmarshal_task = (\<lambda>s. Inl (Opaque_error [])), json_Unmarshal_container = (\<lambda>s. Inl (Opaque_error [])),
     json_Marshal_request = rq_RunnerID, LoadDefaultConfig = (\<lambda>u. (Inl (Opaque_error []), u)), Region = (\<lambda>c. []),
     bedrock_NewFromConfig = (\<lambda>c i u. (Inl (Opaque_error []), u)),
     smithy_Marshal = (\<lambda>d. Inl (Opaque_error [])), json_Unmarshal_result = (\<lambda>s. Inl (Opaque_error [])),
     rand_Read = (\<lambda>n u. (''abc'', u)), NewBashShell = (\<lambda>u. (Inr 0, u)),
     shells = \<lparr>sh_ExecuteStream = (\<lambda>h c u. None), sh_Close = (\<lambda>h u. (None, u))\<rparr>, map_range = (\<lambda>m. []),
     register_wait = (\<lambda>u. (None, u)), Serve = (\<lambda>h m u. None), Shutdown = (\<lambda>t u. (None, u)),
     log_Print = (\<lambda>m u. u), err_text = (\<lambda>e. []), quote_text = (\<lambda>s. s), no_route = (\<lambda>c. c), no_method = (\<lambda>c. c)\<rparr>"

definition sorted_range :: "(string \<Rightarrow> 'v option) \<Rightarrow> string list" where
  "sorted_range m = sorted_list_of_set (dom m)"

lemma ranges_sorted: "ranges sorted_range"
  by (simp add: ranges_def sorted_range_def)

lemma demo_main:
  "\<exists>w'. main (bash_platform demo_outside sorted_range [(''POST'', ''/api/session'', demo_ctx [])] None)
      (demo_bash_world (demo_call [] [])) = Some (None, w') \<and> bash_started w' = 1"
  apply (simp add: main_def start_def bash_platform_def demo_outside_def Let_def lift_def demo_bash_world_def
      resolveIdentity_def start_deps_def resolveFromHostname_def start_validator_def
      newBedrockValidatorFromEnv_def register_def start_register_def register_url_def)
  apply (subst register_loop.simps)
  apply (simp add: register_round_def defaultHTTPPost_def lift_def run_def newHandler_def)
  apply (simp add: handleCreateSession_def Create_def NewSessionManager_def generateID_def lift_def
      newDefaultShell_def newBashShellFromCommander_def Let_def)
  apply (simp add: wind_down_def Let_def deregister_def lift_def CloseAll_def sorted_range_def)
  apply (simp add: bash_shells_def Close_def)
  done

end
