(* ===== verification/Runner_Concurrency.thy ===== *)
theory Runner_Concurrency
  imports Runner_Properties
begin
text \<open>
  Concurrent requests on the runner.  The web server runs every handler in a goroutine of its own; what the
  mutex of the session manager serialises is one step, and so is a call of the identifier source, of the
  shell factory, of the validator and of a shell (whose own mutex serialises its calls).  Between any two
  steps of a request there may be steps of all the others.
\<close>

section \<open>The locked sections of the session manager\<close>

text \<open>\<open>None\<close> is the refusal of an identifier that is in use.\<close>

definition insert_session :: "('sh, 'w) SessionManager \<Rightarrow> string \<Rightarrow> 'sh \<Rightarrow> ('sh, 'w) SessionManager option" where
  "insert_session m i shell =
     (case sessions m i of Some _ \<Rightarrow> None | None \<Rightarrow> Some (m\<lparr>sessions := (sessions m)(i \<mapsto> shell)\<rparr>))"

definition take_session :: "('sh, 'w) SessionManager \<Rightarrow> string \<Rightarrow> ('sh \<times> ('sh, 'w) SessionManager) option" where
  "take_session m i =
     (case sessions m i of None \<Rightarrow> None | Some shell \<Rightarrow> Some (shell, m\<lparr>sessions := (sessions m)(i := None)\<rparr>))"

definition take_all :: "((string \<Rightarrow> 'sh option) \<Rightarrow> string list) \<Rightarrow> ('sh, 'w) SessionManager \<Rightarrow>
    'sh list \<times> ('sh, 'w) SessionManager" where
  "take_all range_of m =
     (map (\<lambda>i. the (sessions m i)) (range_of (sessions m)), m\<lparr>sessions := Map.empty\<rparr>)"

section \<open>Requests as threads\<close>

text \<open>Where a request is: it has an identifier for a new session; it has the shell too; it has to close
  shells; it looked up the shell of a command; it may run the command.\<close>

datatype 'sh phase = Idle | Named string | Made string 'sh | Closing "'sh list" | Asked 'sh string | Cleared 'sh string

type_synonym ('sh, 'w) running = "('sh, 'w) SessionManager \<times> (nat \<Rightarrow> 'sh phase) \<times> 'w"

text \<open>The verdict of a validator that lets a command run.\<close>

fun clears :: "verr + ValidationResult \<Rightarrow> bool" where
  "clears (Inr result) = Safe result"
| "clears (Inl (ValidationUnavailableError e)) = True"
| "clears (Inl (Validation_error e)) = False"

inductive runner_step :: "('sh, 'w) Shell \<Rightarrow> (string \<Rightarrow> 'w \<Rightarrow> (verr + ValidationResult) \<times> 'w) option \<Rightarrow>
    ((string \<Rightarrow> 'sh option) \<Rightarrow> string list) \<Rightarrow> ('sh, 'w) running \<Rightarrow> ('sh, 'w) running \<Rightarrow> bool"
  for S validator range_of where
  create_id: "ph k = Idle \<Longrightarrow> genID m w = (Inr i, w') \<Longrightarrow>
    runner_step S validator range_of (m, ph, w) (m, ph(k := Named i), w')"
| create_no_id: "ph k = Idle \<Longrightarrow> genID m w = (Inl e, w') \<Longrightarrow>
    runner_step S validator range_of (m, ph, w) (m, ph, w')"
| create_shell: "ph k = Named i \<Longrightarrow> newShell m w = (Inr h, w') \<Longrightarrow>
    runner_step S validator range_of (m, ph, w) (m, ph(k := Made i h), w')"
| create_no_shell: "ph k = Named i \<Longrightarrow> newShell m w = (Inl e, w') \<Longrightarrow>
    runner_step S validator range_of (m, ph, w) (m, ph(k := Idle), w')"
| create_insert: "ph k = Made i h \<Longrightarrow> insert_session m i h = Some m' \<Longrightarrow>
    runner_step S validator range_of (m, ph, w) (m', ph(k := Idle), w)"
| create_duplicate: "ph k = Made i h \<Longrightarrow> insert_session m i h = None \<Longrightarrow>
    runner_step S validator range_of (m, ph, w) (m, ph(k := Closing [h]), w)"
| delete_take: "ph k = Idle \<Longrightarrow> take_session m i = Some (h, m') \<Longrightarrow>
    runner_step S validator range_of (m, ph, w) (m', ph(k := Closing [h]), w)"
| close_all_take: "ph k = Idle \<Longrightarrow> take_all range_of m = (hs, m') \<Longrightarrow>
    runner_step S validator range_of (m, ph, w) (m', ph(k := Closing hs), w)"
| close_one: "ph k = Closing (h # hs) \<Longrightarrow> sh_Close S h w = (r, w') \<Longrightarrow>
    runner_step S validator range_of (m, ph, w) (m, ph(k := Closing hs), w')"
| close_end: "ph k = Closing [] \<Longrightarrow>
    runner_step S validator range_of (m, ph, w) (m, ph(k := Idle), w)"
| execute_get: "ph k = Idle \<Longrightarrow> session_Get m i = Inr h \<Longrightarrow>
    runner_step S validator range_of (m, ph, w) (m, ph(k := Asked h cmd), w)"
| execute_listed: "ph k = Asked h cmd \<Longrightarrow> classifyCommand cmd \<noteq> ''validated'' \<Longrightarrow>
    runner_step S validator range_of (m, ph, w) (m, ph(k := Cleared h cmd), w)"
| execute_unjudged: "ph k = Asked h cmd \<Longrightarrow> classifyCommand cmd = ''validated'' \<Longrightarrow> validator = None \<Longrightarrow>
    runner_step S validator range_of (m, ph, w) (m, ph(k := Idle), w)"
| execute_judged: "ph k = Asked h cmd \<Longrightarrow> classifyCommand cmd = ''validated'' \<Longrightarrow> validator = Some v \<Longrightarrow>
    v cmd w = (a, w') \<Longrightarrow>
    runner_step S validator range_of (m, ph, w) (m, ph(k := if clears a then Cleared h cmd else Idle), w')"
| execute_run: "ph k = Cleared h cmd \<Longrightarrow> sh_ExecuteStream S h cmd w = Some (x, w') \<Longrightarrow>
    runner_step S validator range_of (m, ph, w) (m, ph(k := Idle), w')"

lemma clears_may_run:
  "v cmd w = (a, w') \<Longrightarrow> clears a \<Longrightarrow> may_run (Some v) cmd w"
  by (cases a rule: clears.cases) (auto simp: may_run_def)

section \<open>Every shell is held by someone or closed\<close>

text \<open>The shells that a request in a phase has to hand on or to close.\<close>

fun own :: "'sh phase \<Rightarrow> 'sh list" where
  "own (Made i h) = [h]"
| "own (Closing hs) = hs"
| "own p = []"

definition held :: "(string \<Rightarrow> 'sh option) \<Rightarrow> (nat \<Rightarrow> 'sh phase) \<Rightarrow> 'sh set" where
  "held t ph = ran t \<union> (\<Union>k. set (own (ph k)))"

definition apart :: "(string \<Rightarrow> 'sh option) \<Rightarrow> (nat \<Rightarrow> 'sh phase) \<Rightarrow> bool" where
  "apart t ph \<longleftrightarrow> finite (dom t) \<and> inj_on t (dom t) \<and>
     (\<forall>k. distinct (own (ph k)) \<and> set (own (ph k)) \<inter> ran t = {}) \<and>
     (\<forall>k l. k \<noteq> l \<longrightarrow> set (own (ph k)) \<inter> set (own (ph l)) = {})"

lemma apartD:
  assumes "apart t ph"
  shows "finite (dom t)" "inj_on t (dom t)" "distinct (own (ph k))" "h \<in> set (own (ph k)) \<Longrightarrow> h \<notin> ran t"
    "h \<in> set (own (ph k)) \<Longrightarrow> l \<noteq> k \<Longrightarrow> h \<notin> set (own (ph l))"
  using assms unfolding apart_def by (simp, simp, simp, blast, blast)

lemma apart_upd:
  assumes "apart t ph" and "finite (dom t')" and "inj_on t' (dom t')" and "distinct (own p)"
    and "set (own p) \<inter> ran t' = {}"
    and "\<And>l h. l \<noteq> k \<Longrightarrow> h \<in> set (own (ph l)) \<Longrightarrow> h \<notin> set (own p) \<and> h \<notin> ran t'"
  shows "apart t' (ph(k := p))"
  unfolding apart_def
proof (intro conjI allI impI)
  fix l j :: nat
  assume "l \<noteq> j"
  then show "set (own ((ph(k := p)) l)) \<inter> set (own ((ph(k := p)) j)) = {}"
    using assms(6) [of l] assms(6) [of j] apartD(5) [OF assms(1), of _ l j] by (cases "l = k"; cases "j = k") auto
next
  fix l
  show "distinct (own ((ph(k := p)) l))" using apartD(3) [OF assms(1)] assms(4) by simp
  show "set (own ((ph(k := p)) l)) \<inter> ran t' = {}" using assms(5,6) by auto
qed (use assms(2,3) in auto)

lemma held_upd:
  assumes "apart t ph"
  shows "held t' (ph(k := p)) = ran t' \<union> (held t ph - ran t - set (own (ph k))) \<union> set (own p)"
proof -
  have "h \<in> held t' (ph(k := p)) \<longleftrightarrow> h \<in> ran t' \<or> h \<in> set (own p) \<or> (\<exists>l. l \<noteq> k \<and> h \<in> set (own (ph l)))" for h
    by (auto simp: held_def split: if_splits)
  moreover have "(\<exists>l. l \<noteq> k \<and> h \<in> set (own (ph l))) \<longleftrightarrow> h \<in> held t ph \<and> h \<notin> ran t \<and> h \<notin> set (own (ph k))" for h
    using apartD(4) [OF assms, of h] apartD(5) [OF assms, of h] unfolding held_def Un_iff UN_iff by (metis UNIV_I)
  ultimately show ?thesis by blast
qed

lemma own_held: "h \<in> set (own (ph k)) \<Longrightarrow> h \<in> held t ph" and ran_held: "h \<in> ran t \<Longrightarrow> h \<in> held t ph"
  by (auto simp: held_def)

context shell_pool
begin

definition accounted :: "(string \<Rightarrow> 'sh option) \<Rightarrow> (nat \<Rightarrow> 'sh phase) \<Rightarrow> 'w \<Rightarrow> bool" where
  "accounted t ph w \<longleftrightarrow> apart t ph \<and> held t ph \<subseteq> started w \<and>
     (\<forall>h. closes w h = (if h \<in> started w \<and> h \<notin> held t ph then 1 else 0))"

lemma accountedD:
  assumes "accounted t ph w"
  shows "apart t ph" "held t ph \<subseteq> started w" "closes w h = (if h \<in> started w \<and> h \<notin> held t ph then 1 else 0)"
  using assms by (auto simp: accounted_def)

lemma accounted_frame:
  "accounted t ph w \<Longrightarrow> started w' = started w \<Longrightarrow> closes w' = closes w \<Longrightarrow> accounted t ph w'"
  by (simp add: accounted_def)

text \<open>A step that moves shells between the table and a request, and keeps what is held.\<close>

lemma accounted_move:
  assumes "accounted t ph w" and "apart t' (ph(k := p))" and "ran t' \<union> set (own p) = ran t \<union> set (own (ph k))"
  shows "accounted t' (ph(k := p)) w"
proof -
  note a = accountedD [OF assms(1)]
  have "held t' (ph(k := p)) = held t ph"
    using held_upd [OF a(1), of t' k p] assms(3) by (auto simp: held_def)
  with a assms(2) show ?thesis by (simp add: accounted_def)
qed

lemma accounted_same:
  assumes "accounted t ph w" and "own p = own (ph k)"
  shows "accounted t (ph(k := p)) w"
proof (rule accounted_move [OF assms(1)])
  note a = accountedD(1) [OF assms(1)]
  show "apart t (ph(k := p))"
    by (rule apart_upd [OF a]) (use apartD [OF a] assms(2) in auto)
qed (simp add: assms(2))

lemma accounted_new:
  assumes "accounted t ph w" and "own (ph k) = []" and "own p = [h]" and "h \<notin> started w"
    and "started w' = insert h (started w)" and "closes w' = closes w"
  shows "accounted t (ph(k := p)) w'"
proof -
  note a = accountedD [OF assms(1)]
  have h: "h \<notin> held t ph" using a(2) assms(4) by blast
  then have o: "h \<notin> ran t" "h \<notin> set (own (ph l))" for l by (auto simp: held_def)
  have "apart t (ph(k := p))"
    by (rule apart_upd [OF a(1)]) (use apartD [OF a(1)] o assms(2,3) in auto)
  moreover have "held t (ph(k := p)) = insert h (held t ph)"
    using held_upd [OF a(1), of t k p] assms(2,3) ran_held [of _ t ph] by auto
  ultimately show ?thesis using a assms(4-6) h by (auto simp: accounted_def)
qed

lemma accounted_close:
  assumes "accounted t ph w" and "own (ph k) = h # own p" and "sh_Close S h w = (r, w')"
  shows "accounted t (ph(k := p)) w'"
proof -
  note a = accountedD [OF assms(1)] and c = close_frame [OF assms(3)]
  have h: "h \<in> held t ph" "h \<notin> ran t" "h \<notin> set (own p)"
    using own_held [of h ph k t] apartD(3) [OF a(1), of k] apartD(4) [OF a(1), of h k] assms(2) by auto
  have "apart t (ph(k := p))"
  proof (rule apart_upd [OF a(1) apartD(1,2) [OF a(1)]])
    have s: "x \<in> set (own (ph k))" if "x \<in> set (own p)" for x using that assms(2) by simp
    show "distinct (own p)" using apartD(3) [OF a(1), of k] assms(2) by simp
    show "set (own p) \<inter> ran t = {}" using apartD(4) [OF a(1) s] by blast
    show "x \<notin> set (own p) \<and> x \<notin> ran t" if "l \<noteq> k" "x \<in> set (own (ph l))" for l x
      using apartD(4) [OF a(1) that(2)] apartD(5) [OF a(1) that(2), of k] that(1) s by blast
  qed
  moreover have "held t (ph(k := p)) = held t ph - {h}"
    using held_upd [OF a(1), of t k p] assms(2) h ran_held [of _ t ph] own_held [of _ ph k t] by auto
  moreover have "h \<in> started w" using a(2) h(1) by blast
  ultimately show ?thesis using a c h by (auto simp: accounted_def)
qed

lemma accounted_insert:
  assumes "accounted t ph w" and "own (ph k) = [h]" and "own p = []" and "t i = None"
  shows "accounted (t(i \<mapsto> h)) (ph(k := p)) w"
proof (rule accounted_move [OF assms(1)])
  note a = accountedD(1) [OF assms(1)]
  have i: "i \<notin> dom t" and h: "h \<notin> ran t" using apartD(4) [OF a, of h k] assms(2,4) by auto
  have r: "ran (t(i \<mapsto> h)) = insert h (ran t)" by (rule ran_add [OF i])
  show "ran (t(i \<mapsto> h)) \<union> set (own p) = ran t \<union> set (own (ph k))" using r assms(2,3) by simp
  have "h \<notin> set (own (ph l))" if "l \<noteq> k" for l using apartD(5) [OF a, of h k l] assms(2) that by simp
  then show "apart (t(i \<mapsto> h)) (ph(k := p))"
    by (intro apart_upd [OF a])
      (use apartD [OF a] inj_add [OF apartD(2) [OF a] i h] assms(3) r in auto)
qed

lemma accounted_take:
  assumes "accounted t ph w" and "own (ph k) = []" and "own p = hs" and "distinct hs" and "set hs \<subseteq> ran t"
    and "finite (dom t')" and "inj_on t' (dom t')" and "ran t' = ran t - set hs"
  shows "accounted t' (ph(k := p)) w"
proof (rule accounted_move [OF assms(1)])
  note a = accountedD(1) [OF assms(1)]
  show "apart t' (ph(k := p))"
    by (rule apart_upd [OF a]) (use apartD [OF a] assms(3-8) in auto)
  show "ran t' \<union> set (own p) = ran t \<union> set (own (ph k))" using assms(2,3,5,8) by auto
qed
end

section \<open>Along any interleaving\<close>

context shell_pool
begin

text \<open>A shell was only ever given commands that may run, and the word of farewell.\<close>

definition judged :: "(string \<Rightarrow> 'w \<Rightarrow> (verr + ValidationResult) \<times> 'w) option \<Rightarrow> 'w \<Rightarrow> bool" where
  "judged V w \<longleftrightarrow> (\<forall>h \<in> started w. \<forall>s \<in> set (given w h). s = bye \<or> (\<exists>c u. script c s \<and> may_run V c u))"

definition passed :: "(string \<Rightarrow> 'w \<Rightarrow> (verr + ValidationResult) \<times> 'w) option \<Rightarrow> (nat \<Rightarrow> 'sh phase) \<Rightarrow> bool" where
  "passed V ph \<longleftrightarrow> (\<forall>k h c. ph k = Cleared h c \<longrightarrow> (\<exists>u. may_run V c u))"

lemma passed_upd:
  "passed V ph \<Longrightarrow> (\<And>h c. p = Cleared h c \<Longrightarrow> \<exists>u. may_run V c u) \<Longrightarrow> passed V (ph(k := p))"
  by (auto simp: passed_def)

lemma judged_frame:
  "judged V w \<Longrightarrow> started w' = started w \<Longrightarrow> given w' = given w \<Longrightarrow> judged V w'"
  by (simp add: judged_def)

lemma judged_new:
  assumes "judged V w" and "new w = (Inr h, w')"
  shows "judged V w'"
  using assms(1) new_ok [OF assms(2)] by (auto simp: judged_def)

lemma judged_give:
  assumes "judged V w" and "started w' = started w" and "\<forall>h'. h' \<noteq> h \<longrightarrow> given w' h' = given w h'"
    and "given w' h = given w h \<or> (\<exists>s. given w' h = given w h @ [s] \<and> (s = bye \<or> (\<exists>c u. script c s \<and> may_run V c u)))"
  shows "judged V w'"
  unfolding judged_def
proof (intro ballI)
  fix h' s
  assume h': "h' \<in> started w'" and s: "s \<in> set (given w' h')"
  show "s = bye \<or> (\<exists>c u. script c s \<and> may_run V c u)"
  proof (cases "s \<in> set (given w h')")
    case True
    then show ?thesis using assms(1,2) h' unfolding judged_def by blast
  next
    case False
    with s have "h' = h" using assms(3) by metis
    with s False assms(4) show ?thesis by auto
  qed
qed

definition sound :: "(string \<Rightarrow> 'w \<Rightarrow> (verr + ValidationResult) \<times> 'w) option \<Rightarrow> ('sh, 'w) running \<Rightarrow> bool" where
  "sound V r \<longleftrightarrow> (case r of (m, ph, w) \<Rightarrow>
     makes gen new m \<and> accounted (sessions m) ph w \<and> judged V w \<and> passed V ph)"

lemma sound_frame:
  assumes "sound V (m, ph, w)" and "started w' = started w \<and> closes w' = closes w \<and> given w' = given w"
    and "own p = own (ph k)" and "\<And>h c. p = Cleared h c \<Longrightarrow> \<exists>u. may_run V c u"
  shows "sound V (m, ph(k := p), w')"
  using assms accounted_same [OF accounted_frame, of "sessions m" ph w w' p k] judged_frame [of V w w'] passed_upd [of V ph p k]
  by (simp add: sound_def)

lemma step_sound:
  assumes "runner_step S V ro r r'" and "sound V r" and "frames V" and "ranges ro"
  shows "sound V r'"
  using assms(1,2)
proof (cases rule: runner_step.cases)
  case (create_id ph k m w i w')
  show ?thesis unfolding create_id(2)
    by (rule sound_frame [of V m ph w])
      (use assms(2) create_id gen_frame [of w "Inr i" w'] in \<open>auto simp: sound_def makes_def\<close>)
next
  case (create_no_id ph k m w e w')
  have "sound V (m, ph(k := ph k), w')"
    by (rule sound_frame [of V m ph w])
      (use assms(2) create_no_id gen_frame [of w "Inl e" w'] in \<open>auto simp: sound_def makes_def\<close>)
  then show ?thesis unfolding create_no_id(2) fun_upd_triv .
next
  case (create_shell ph k i m w h w')
  have n: "new w = (Inr h, w')" using assms(2) create_shell by (simp add: sound_def makes_def)
  have "accounted (sessions m) (ph(k := Made i h)) w'"
    by (rule accounted_new [of _ _ w]) (use assms(2) create_shell new_ok [OF n] in \<open>auto simp: sound_def\<close>)
  then show ?thesis using assms(2) create_shell judged_new [OF _ n] passed_upd [of V ph "Made i h" k]
    by (simp add: sound_def)
next
  case (create_no_shell ph k i m w e w')
  show ?thesis unfolding create_no_shell(2)
    by (rule sound_frame [of V m ph w])
      (use assms(2) create_no_shell new_fail [of w e w'] in \<open>auto simp: sound_def makes_def\<close>)
next
  case (create_insert ph k i h m m' w)
  then have t: "sessions m i = None" "m' = m\<lparr>sessions := (sessions m)(i \<mapsto> h)\<rparr>"
    by (auto simp: insert_session_def split: option.splits)
  have "accounted ((sessions m)(i \<mapsto> h)) (ph(k := Idle)) w"
    by (rule accounted_insert) (use assms(2) create_insert t in \<open>auto simp: sound_def\<close>)
  then show ?thesis using assms(2) create_insert t passed_upd [of V ph Idle k] by (simp add: sound_def makes_def)
next
  case (create_duplicate ph k i h m w)
  show ?thesis unfolding create_duplicate(2)
    by (rule sound_frame [of V m ph w]) (use assms(2) create_duplicate in auto)
next
  case (delete_take ph k m i h m' w)
  then have t: "sessions m i = Some h" "m' = m\<lparr>sessions := (sessions m)(i := None)\<rparr>"
    by (auto simp: take_session_def split: option.splits)
  have a: "accounted (sessions m) ph w" using assms(2) delete_take by (simp add: sound_def)
  note d = apartD [OF accountedD(1) [OF a]]
  have "accounted ((sessions m)(i := None)) (ph(k := Closing [h])) w"
    by (rule accounted_take [where hs = "[h]", OF a])
      (use delete_take(3) d(1) ranI [of "sessions m" i h] t(1) ran_remove [OF d(2) t(1)] inj_remove [OF d(2), of i] in auto)
  then show ?thesis using assms(2) delete_take t passed_upd [of V ph "Closing [h]" k] by (simp add: sound_def makes_def)
next
  case (close_all_take ph k m hs m' w)
  then have t: "hs = map (\<lambda>i. the (sessions m i)) (ro (sessions m))" "m' = m\<lparr>sessions := Map.empty\<rparr>"
    by (auto simp: take_all_def)
  have a: "accounted (sessions m) ph w" using assms(2) close_all_take by (simp add: sound_def)
  note d = apartD [OF accountedD(1) [OF a]]
  have k: "distinct (ro (sessions m))" "set (ro (sessions m)) = dom (sessions m)"
    using assms(4) d(1) by (auto simp: ranges_def)
  have "accounted Map.empty (ph(k := Closing hs)) w"
    by (rule accounted_take [where hs = hs, OF a])
      (use close_all_take(3) t(1) distinct_the [OF k d(2)] ran_the [OF k(2)] in auto)
  then show ?thesis using assms(2) close_all_take t passed_upd [of V ph "Closing hs" k] by (simp add: sound_def makes_def)
next
  case (close_one ph k h hs w r w' m)
  note c = close_frame [OF close_one(4)] and g = close_given [OF close_one(4)]
  have "accounted (sessions m) (ph(k := Closing hs)) w'"
    by (rule accounted_close [OF _ _ close_one(4)]) (use assms(2) close_one in \<open>auto simp: sound_def\<close>)
  moreover have "judged V w'"
    by (rule judged_give [of V w w' h]) (use assms(2) close_one c g in \<open>auto simp: sound_def\<close>)
  ultimately show ?thesis using assms(2) close_one passed_upd [of V ph "Closing hs" k] by (simp add: sound_def)
next
  case (close_end ph k m w)
  show ?thesis unfolding close_end(2) by (rule sound_frame [of V m ph w]) (use assms(2) close_end in auto)
next
  case (execute_get ph k m i h w cmd)
  show ?thesis unfolding execute_get(2) by (rule sound_frame [of V m ph w]) (use assms(2) execute_get in auto)
next
  case (execute_listed ph k h cmd m w)
  show ?thesis unfolding execute_listed(2)
    by (rule sound_frame [of V m ph w]) (use assms(2) execute_listed in \<open>auto simp: may_run_def\<close>)
next
  case (execute_unjudged ph k h cmd m w)
  show ?thesis unfolding execute_unjudged(2)
    by (rule sound_frame [of V m ph w]) (use assms(2) execute_unjudged in auto)
next
  case (execute_judged ph k h cmd v w a w' m)
  have f: "started w' = started w \<and> closes w' = closes w \<and> given w' = given w"
    using assms(3) execute_judged unfolding frames_def Let_def by (metis snd_conv)
  show ?thesis unfolding execute_judged(2)
    by (rule sound_frame [of V m ph w])
      (use assms(2) execute_judged f clears_may_run [of v cmd w a w'] in \<open>auto split: if_splits\<close>)
next
  case (execute_run ph k h cmd w x w' m)
  note e = exec_frame [OF execute_run(4)] and g = exec_given [OF execute_run(4)]
  from assms(2) execute_run have u: "\<exists>u. may_run V cmd u" unfolding sound_def passed_def by auto
  have j: "judged V w'"
    by (rule judged_give [of V w w' h]) (use assms(2) execute_run e g u in \<open>auto simp: sound_def\<close>)
  have "accounted (sessions m) (ph(k := Idle)) w'"
    by (rule accounted_same [OF accounted_frame [of _ _ w]]) (use assms(2) execute_run e in \<open>auto simp: sound_def\<close>)
  with j show ?thesis using assms(2) execute_run passed_upd [of V ph Idle k] by (simp add: sound_def)
qed

lemma steps_sound:
  assumes "(runner_step S V ro)\<^sup>*\<^sup>* r r'" and "sound V r" and "frames V" and "ranges ro"
  shows "sound V r'"
  using assms(1,2) by induction (blast intro: step_sound assms(3,4))+

end

section \<open>A request alone\<close>

text \<open>Without others in between, the steps of a request are what the handler of the code does.\<close>

abbreviation runs where "runs S V ro \<equiv> (runner_step S V ro)\<^sup>*\<^sup>*"

lemmas step_then = converse_rtranclp_into_rtranclp [where r = "runner_step S V ro" for S V ro]

lemma back_to_idle: "ph k = Idle \<Longrightarrow> ph(k := Idle) = ph"
  by (rule fun_upd_idem)

lemma closing_runs:
  "close_each S hs e w = (x, w') \<Longrightarrow> ph k = Idle \<Longrightarrow> runs S V ro (m, ph(k := Closing hs), w) (m, ph, w')"
proof (induction hs arbitrary: e w)
  case Nil
  have "runner_step S V ro (m, ph(k := Closing []), w) (m, (ph(k := Closing []))(k := Idle), w)"
    by (rule runner_step.close_end) simp
  then show ?case using Nil by (simp only: fun_upd_upd back_to_idle close_each.simps prod.inject)
next
  case (Cons h hs)
  obtain y w1 where c: "sh_Close S h w = (y, w1)" by fastforce
  have "runner_step S V ro (m, ph(k := Closing (h # hs)), w) (m, (ph(k := Closing (h # hs)))(k := Closing hs), w1)"
    by (rule runner_step.close_one [OF _ c]) simp
  moreover have "runs S V ro (m, ph(k := Closing hs), w1) (m, ph, w')"
    by (rule Cons.IH [of "if y \<noteq> None \<and> e = None then y else e" w1]) (use Cons.prems c in simp_all)
  ultimately show ?case unfolding fun_upd_upd by (rule step_then)
qed

lemma close_one_runs:
  assumes "sh_Close S h w = (x, w')" and "ph k = Idle"
  shows "runs S V ro (m, ph(k := Closing [h]), w) (m, ph, w')"
  using closing_runs [of S "[h]" None w "if x \<noteq> None then x else None" w' ph k V ro m] assms by simp

lemma create_runs:
  assumes "Create S m w = (x, m', w')" and k: "ph k = Idle"
  shows "runs S V ro (m, ph, w) (m', ph, w')"
proof -
  obtain g w1 where g: "genID m w = (g, w1)" by fastforce
  show ?thesis
  proof (cases g)
    case (Inl e)
    then have "runner_step S V ro (m, ph, w) (m, ph, w1)" "m' = m" "w' = w1"
      using runner_step.create_no_id [where ph = ph and k = k, OF k g [unfolded Inl]] assms(1) g by (auto simp: Create_def)
    then show ?thesis by simp
  next
    case [simp]: (Inr i)
    have s1: "runner_step S V ro (m, ph, w) (m, ph(k := Named i), w1)"
      by (rule runner_step.create_id [where ph = ph and k = k, OF k g [unfolded Inr]])
    obtain s w2 where s: "newShell m w1 = (s, w2)" by fastforce
    show ?thesis
    proof (cases s)
      case (Inl e)
      have "runner_step S V ro (m, ph(k := Named i), w1) (m, (ph(k := Named i))(k := Idle), w2)"
        by (rule runner_step.create_no_shell) (use s Inl in auto)
      with s1 show ?thesis using assms g s Inl by (auto simp: Create_def back_to_idle intro: step_then)
    next
      case [simp]: (Inr h)
      have "runner_step S V ro (m, ph(k := Named i), w1) (m, (ph(k := Named i))(k := Made i h), w2)"
        by (rule runner_step.create_shell) (use s in auto)
      with s1 have s2: "runs S V ro (m, ph, w) (m, ph(k := Made i h), w2)" by (auto intro: step_then)
      show ?thesis
      proof (cases "sessions m i")
        case None
        have "runner_step S V ro (m, ph(k := Made i h), w2)
            (m\<lparr>sessions := (sessions m)(i \<mapsto> h)\<rparr>, (ph(k := Made i h))(k := Idle), w2)"
          by (rule runner_step.create_insert) (use None in \<open>auto simp: insert_session_def\<close>)
        with s2 show ?thesis using assms g s None by (auto simp: Create_def back_to_idle intro: rtranclp.rtrancl_into_rtrancl)
      next
        case (Some h0)
        obtain y w3 where c: "sh_Close S h w2 = (y, w3)" by fastforce
        have "runner_step S V ro (m, ph(k := Made i h), w2) (m, (ph(k := Made i h))(k := Closing [h]), w2)"
          by (rule runner_step.create_duplicate) (use Some in \<open>auto simp: insert_session_def\<close>)
        with s2 have "runs S V ro (m, ph, w) (m, ph(k := Closing [h]), w2)"
          by (auto intro: rtranclp.rtrancl_into_rtrancl)
        moreover note close_one_runs [where ph = ph and k = k, OF c k, of V ro m]
        moreover have "m' = m" "w' = w3" using assms(1) g s Some c by (auto simp: Create_def)
        ultimately show ?thesis by simp
      qed
    qed
  qed
qed

lemma delete_runs:
  assumes "session_Delete S m i w = (x, m', w')" and k: "ph k = Idle"
  shows "runs S V ro (m, ph, w) (m', ph, w')"
proof (cases "sessions m i")
  case None
  then show ?thesis using assms(1) by (simp add: session_Delete_def)
next
  case (Some h)
  let ?m = "m\<lparr>sessions := (sessions m)(i := None)\<rparr>"
  obtain y w1 where c: "sh_Close S h w = (y, w1)" by fastforce
  have "runner_step S V ro (m, ph, w) (?m, ph(k := Closing [h]), w)"
    by (rule runner_step.delete_take [where ph = ph and k = k and i = i, OF k]) (simp add: take_session_def Some)
  from step_then [OF this close_one_runs [where ph = ph and k = k, OF c k]] show ?thesis
    using assms(1) Some c by (auto simp: session_Delete_def Let_def)
qed

lemma close_all_runs:
  assumes "CloseAll ro S m w = (x, m', w')" and k: "ph k = Idle"
  shows "runs S V ro (m, ph, w) (m', ph, w')"
proof -
  let ?hs = "map (\<lambda>i. the (sessions m i)) (ro (sessions m))" and ?m = "m\<lparr>sessions := Map.empty\<rparr>"
  obtain y w1 where c: "close_each S ?hs None w = (y, w1)" by fastforce
  have "runner_step S V ro (m, ph, w) (?m, ph(k := Closing ?hs), w)"
    by (rule runner_step.close_all_take [where ph = ph and k = k, OF k]) (simp add: take_all_def)
  from step_then [OF this closing_runs [where ph = ph and k = k, OF c k]] show ?thesis
    using assms(1) c by (auto simp: CloseAll_def Let_def)
qed

lemma stream_runs_step:
  assumes "stream_command ext quote S h i remote cl cmd c w = Some (c', w')" and k: "ph k = Idle"
  shows "runs S V ro (m, ph(k := Cleared h cmd), w) (m, ph, w')"
proof -
  obtain r where r: "sh_ExecuteStream S h cmd w = Some (r, w')"
    using assms(1) by (auto simp: stream_command_def split: option.splits)
  have "runner_step S V ro (m, ph(k := Cleared h cmd), w) (m, (ph(k := Cleared h cmd))(k := Idle), w')"
    by (rule runner_step.execute_run [OF _ r]) simp
  then show ?thesis unfolding fun_upd_upd back_to_idle [where ph = ph and k = k, OF k] by (rule r_into_rtranclp)
qed

lemma execute_runs:
  assumes x: "handleExecute ext quote S m V c w = Some (c', w')" and k: "ph k = Idle"
  shows "runs S V ro (m, ph, w) (m, ph, w')"
proof (cases "\<exists>i h cmd. rc_Cookie c = Some i \<and> i \<noteq> [] \<and> session_Get m i = Inr h \<and> rc_Command c = Inr cmd")
  case False
  then have "w' = w" using x by (auto simp: handleExecute_def split: option.splits sum.splits if_splits)
  then show ?thesis by simp
next
  case True
  then obtain i h cmd where q: "rc_Cookie c = Some i" "i \<noteq> []" "session_Get m i = Inr h" "rc_Command c = Inr cmd"
    by blast
  have s1: "runner_step S V ro (m, ph, w) (m, ph(k := Asked h cmd), w)"
    by (rule runner_step.execute_get [where ph = ph and k = k, OF k q(3)])
  have run: ?thesis
    if "runner_step S V ro (m, ph(k := Asked h cmd), w) (m, (ph(k := Asked h cmd))(k := Cleared h cmd), w1)"
      and "stream_command ext quote S h i r cl cmd c1 w1 = Some (c', w')" for r cl c1 w1
    using step_then [OF s1 step_then [OF that(1) [unfolded fun_upd_upd]
      stream_runs_step [where ph = ph and k = k, OF that(2) k]]] .
  have stop: ?thesis
    if "runner_step S V ro (m, ph(k := Asked h cmd), w) (m, (ph(k := Asked h cmd))(k := Idle), w')"
  proof (rule step_then [OF s1])
    show "runs S V ro (m, ph(k := Asked h cmd), w) (m, ph, w')"
      using that unfolding fun_upd_upd back_to_idle [where ph = ph and k = k, OF k] by (rule r_into_rtranclp)
  qed
  show ?thesis
  proof (cases "classifyCommand cmd = ''validated''")
    case False
    have "runner_step S V ro (m, ph(k := Asked h cmd), w) (m, (ph(k := Asked h cmd))(k := Cleared h cmd), w)"
      by (rule runner_step.execute_listed) (use False in auto)
    moreover from False x q obtain r cl c1 where "stream_command ext quote S h i r cl cmd c1 w = Some (c', w')"
      by (auto simp: handleExecute_def Let_def)
    ultimately show ?thesis by (rule run)
  next
    case cl: True
    show ?thesis
    proof (cases V)
      case None
      have "runner_step S V ro (m, ph(k := Asked h cmd), w) (m, (ph(k := Asked h cmd))(k := Idle), w)"
        by (rule runner_step.execute_unjudged) (use cl None in auto)
      moreover have "w' = w" using x q cl None by (auto simp: handleExecute_def Let_def)
      ultimately show ?thesis using stop by simp
    next
      case (Some v)
      obtain a w1 where a: "v cmd w = (a, w1)" by fastforce
      have s2: "runner_step S V ro (m, ph(k := Asked h cmd), w)
          (m, (ph(k := Asked h cmd))(k := if clears a then Cleared h cmd else Idle), w1)"
        by (rule runner_step.execute_judged [OF _ cl Some a]) simp
      show ?thesis
      proof (cases "clears a")
        case True
        with x q cl Some a obtain r l c1 where "stream_command ext quote S h i r l cmd c1 w1 = Some (c', w')"
          by (cases a rule: clears.cases) (auto simp: handleExecute_def Let_def)
        then show ?thesis using run s2 True by simp
      next
        case False
        with x q cl Some a have "w' = w1" by (cases a rule: clears.cases) (auto simp: handleExecute_def Let_def)
        then show ?thesis using stop s2 False by simp
      qed
    qed
  qed
qed

theorem handler_runs:
  assumes "newHandler ext quote nf na S V method path c m w = Some (c', m', w')" and "ph k = Idle"
  shows "runs S V ro (m, ph, w) (m', ph, w')"
proof -
  note k = assms(2)
  have "runs S V ro (m, ph, w) (m', ph, w')" if "handleCreateSession ext S m c w = (c', m', w')"
    using that create_runs [where ph = ph and k = k, OF _ k]
    by (auto simp: handleCreateSession_def split: prod.splits sum.splits)
  moreover have "runs S V ro (m, ph, w) (m', ph, w')" if "handleDeleteSession ext S m c w = (c', m', w')"
    using that delete_runs [where ph = ph and k = k, OF _ k]
    by (auto simp: handleDeleteSession_def split: prod.splits option.splits if_splits)
  ultimately show ?thesis using assms(1) execute_runs [where ph = ph and k = k, OF _ k]
    by (auto simp: newHandler_def split: if_splits)
qed

section \<open>The property\<close>

text \<open>C35. Requests on one runner, interleaved in any way.  From a session manager without sessions, after any
  sequence of steps of any number of creations, deletions, closings of everything and executions: (1) no
  shell was closed twice; (2) a shell in the table is open and belongs to one session only; (3) whatever
  a shell was given is the farewell of its closing or the script of a command that is white-listed, was
  judged safe or could not be judged; (4) when no request is under way, a shell was closed exactly
  if it is not in the table: none is left behind.\<close>

theorem shells_under_interleaving:
  fixes V :: "('doc, 'x) BedrockValidator option"
  assumes "(runner_step (bash_shells ext) (map_option (\<lambda>v. Validate (lift_validator v)) V) range_of)\<^sup>*\<^sup>*
      (NewSessionManager (lift gen) newDefaultShell, \<lambda>k. Idle, w0) (m, ph, w)"
    and "ranges range_of" and "bash_started w0 = 0" and "bash_closes w0 = (\<lambda>h. 0)"
  shows "(\<forall>h. bash_closes w h \<le> 1) \<and>
    (\<forall>i h. sessions m i = Some h \<longrightarrow>
       h < bash_started w \<and> bash_closes w h = 0 \<and> (\<forall>j. sessions m j = Some h \<longrightarrow> j = i)) \<and>
    (\<forall>h < bash_started w. \<forall>s \<in> set (bash_given w h). s = ''exit'' @ [CHR 0x0A] \<or>
       (\<exists>c n u. s = script_of c (marker_of n) \<and> may_run (map_option (\<lambda>v. Validate (lift_validator v)) V) c u)) \<and>
    ((\<forall>k. ph k = Idle) \<longrightarrow> (\<forall>h < bash_started w. bash_closes w h = 1 \<longleftrightarrow> (\<forall>i. sessions m i \<noteq> Some h)))"
proof -
  let ?V = "map_option (\<lambda>v. Validate (lift_validator v)) V" and ?m0 = "NewSessionManager (lift gen) newDefaultShell"
  have "bash_pool.sound gen ?V (?m0, \<lambda>k. Idle, w0)"
    using assms(3,4) by (simp add: bash_pool.sound_def bash_pool.accounted_def bash_pool.judged_def bash_pool.passed_def
      makes_def NewSessionManager_def apart_def held_def)
  from bash_pool.steps_sound [OF assms(1) this Validate_frames assms(2)]
  have s: "bash_pool.accounted (sessions m) ph w" "bash_pool.judged ?V w" by (simp_all add: bash_pool.sound_def)
  note a = bash_pool.accountedD [OF s(1)] note d = apartD(2) [OF a(1)]
  have one: "bash_closes w h \<le> 1" for h using a(3) [of h] by simp
  have tab: "h < bash_started w \<and> bash_closes w h = 0 \<and> (\<forall>j. sessions m j = Some h \<longrightarrow> j = i)"
    if "sessions m i = Some h" for i h
  proof -
    have h: "h \<in> held (sessions m) ph" using that by (auto simp: held_def ran_def)
    have "j = i" if "sessions m j = Some h" for j
      using inj_onD [OF d, of j i] \<open>sessions m i = Some h\<close> that by auto
    then show ?thesis using a(2,3) h by auto
  qed
  have giv: "\<forall>h < bash_started w. \<forall>s \<in> set (bash_given w h). s = ''exit'' @ [CHR 0x0A] \<or>
       (\<exists>c n u. s = script_of c (marker_of n) \<and> may_run ?V c u)"
    using s(2) [unfolded bash_pool.judged_def] unfolding is_script_def farewell_def by (simp add: Ball_def)
  have idle: "bash_closes w h = 1 \<longleftrightarrow> (\<forall>i. sessions m i \<noteq> Some h)" if "\<forall>k. ph k = Idle" "h < bash_started w" for h
  proof -
    have "held (sessions m) ph = ran (sessions m)" using that(1) by (simp add: held_def)
    then show ?thesis using a(3) [of h] that(2) by (auto simp: ran_def)
  qed
  show ?thesis using one tab giv idle by blast
qed

text \<open>Two creations that draw the same identifier: the second one to finish gives its shell up.\<close>

definition demo_gen :: "unit \<Rightarrow> (rerr + string) \<times> unit" where
  "demo_gen u = (Inr ''s'', u)"

definition demo_w0 :: "unit bash_world" where
  "demo_w0 = demo_bash_world (demo_call [] [])"

definition demo_w1 :: "unit bash_world" where
  "demo_w1 = snd (newDefaultShell demo_w0)"

definition demo_w2 :: "unit bash_world" where
  "demo_w2 = snd (newDefaultShell demo_w1)"

definition demo_w3 :: "unit bash_world" where
  "demo_w3 = snd (sh_Close (bash_shells (\<lambda>e. [])) 0 demo_w2)"

lemma demo_worlds:
  "lift demo_gen w = (Inr ''s'', w)" "newDefaultShell demo_w0 = (Inr 0, demo_w1)" "newDefaultShell demo_w1 = (Inr 1, demo_w2)"
  "\<exists>r. sh_Close (bash_shells (\<lambda>e. [])) 0 demo_w2 = (r, demo_w3)" "bash_started demo_w3 = 2"
  "bash_started demo_w0 = 0" "bash_closes demo_w0 = (\<lambda>h. 0)"
  by (simp_all add: lift_def demo_gen_def demo_w0_def demo_w1_def demo_w2_def demo_w3_def newDefaultShell_def
      newBashShellFromCommander_def demo_bash_world_def bash_shells_def Close_def Let_def)

lemma demo_interleaving:
  "runs (bash_shells (\<lambda>e. [])) None sorted_range
     (NewSessionManager (lift demo_gen) newDefaultShell, \<lambda>k. Idle, demo_w0)
     ((NewSessionManager (lift demo_gen) newDefaultShell)\<lparr>sessions := [''s'' \<mapsto> 1]\<rparr>, \<lambda>k. Idle, demo_w3)"
proof -
  let ?m = "NewSessionManager (lift demo_gen) newDefaultShell" and ?I = "\<lambda>k :: nat. Idle :: nat phase"
  let ?m1 = "?m\<lparr>sessions := [''s'' \<mapsto> 1]\<rparr>" and ?S = "bash_shells (\<lambda>e. [])"
  let ?R = "runner_step ?S None sorted_range"
  have m: "genID ?m w = (Inr ''s'', w)" "newShell ?m = newDefaultShell" "sessions ?m = Map.empty" for w
    by (simp_all add: NewSessionManager_def demo_worlds)
  obtain r where c: "sh_Close ?S 0 demo_w2 = (r, demo_w3)" using demo_worlds(4) by blast
  have s1: "?R (?m, ?I, demo_w0) (?m, ?I(0 := Named ''s''), demo_w0)"
    by (rule runner_step.create_id [where k = 0]) (simp_all add: m)
  have s2: "?R (?m, ?I(0 := Named ''s''), demo_w0) (?m, ?I(0 := Named ''s'', 1 := Named ''s''), demo_w0)"
    by (rule runner_step.create_id [where k = 1]) (simp_all add: m)
  have s3: "?R (?m, ?I(0 := Named ''s'', 1 := Named ''s''), demo_w0)
      (?m, ?I(0 := Named ''s'', 1 := Named ''s'', 0 := Made ''s'' 0), demo_w1)"
    by (rule runner_step.create_shell [where k = 0]) (simp_all add: m demo_worlds)
  have s4: "?R (?m, ?I(0 := Named ''s'', 1 := Named ''s'', 0 := Made ''s'' 0), demo_w1)
      (?m, ?I(0 := Made ''s'' 0, 1 := Made ''s'' 1), demo_w2)"
    using runner_step.create_shell [where k = 1 and ph = "?I(0 := Made ''s'' 0, 1 := Named ''s'')" and m = ?m and
      w = demo_w1 and i = "''s''" and h = 1 and w' = demo_w2 and S = ?S and validator = None and range_of = sorted_range]
    by (simp add: m demo_worlds fun_upd_twist)
  have s5: "?R (?m, ?I(0 := Made ''s'' 0, 1 := Made ''s'' 1), demo_w2) (?m1, ?I(0 := Made ''s'' 0, 1 := Idle), demo_w2)"
    using runner_step.create_insert [where k = 1 and ph = "?I(0 := Made ''s'' 0, 1 := Made ''s'' 1)" and m = ?m and
      w = demo_w2 and i = "''s''" and h = 1 and m' = ?m1 and S = ?S and validator = None and range_of = sorted_range]
    by (simp add: m insert_session_def)
  have s6: "?R (?m1, ?I(0 := Made ''s'' 0, 1 := Idle), demo_w2) (?m1, ?I(0 := Made ''s'' 0, 1 := Idle, 0 := Closing [0]), demo_w2)"
    by (rule runner_step.create_duplicate [where k = 0 and i = "''s''"]) (simp_all add: insert_session_def)
  have s7: "?R (?m1, ?I(0 := Made ''s'' 0, 1 := Idle, 0 := Closing [0]), demo_w2)
      (?m1, ?I(0 := Made ''s'' 0, 1 := Idle, 0 := Closing [0], 0 := Closing []), demo_w3)"
    by (rule runner_step.close_one [where k = 0, OF _ c]) simp
  have s8: "?R (?m1, ?I(0 := Made ''s'' 0, 1 := Idle, 0 := Closing [0], 0 := Closing []), demo_w3)
      (?m1, ?I(0 := Made ''s'' 0, 1 := Idle, 0 := Closing [0], 0 := Closing [], 0 := Idle), demo_w3)"
    by (rule runner_step.close_end [where k = 0]) simp
  have e: "?I(0 := Made ''s'' 0, 1 := Idle, 0 := Closing [0], 0 := Closing [], 0 := Idle) = ?I" by auto
  show ?thesis
    using step_then [OF s1 step_then [OF s2 step_then [OF s3 step_then [OF s4 step_then [OF s5 step_then [OF s6
      step_then [OF s7 r_into_rtranclp [where r = ?R, OF s8]]]]]]]] unfolding e .
qed

theorem shells_under_interleaving_witness:
  "bash_closes demo_w3 0 = 1 \<and> bash_closes demo_w3 1 = 0"
proof -
  note p = shells_under_interleaving [where V = None, unfolded option.map, OF demo_interleaving ranges_sorted demo_worlds(6,7)]
  note tab = conjunct1 [OF conjunct2 [OF p]] and idle = conjunct2 [OF conjunct2 [OF conjunct2 [OF p]]]
  have "bash_closes demo_w3 1 = 0" using tab [rule_format, of "''s''" 1] by simp
  moreover have "bash_closes demo_w3 0 = 1"
    using idle [rule_format, of 0] demo_worlds(5) by simp
  ultimately show ?thesis by blast
qed
end
