(* ===== verification/Dynamo.thy ===== *)
theory Dynamo
  imports Prelude
begin

text \<open>
  Amazon DynamoDB as the repository sees it.  The service and its SDK are not part of the
  repository: the stores take a client (\<^verbatim>\<open>DynamoDBAPI\<close> in the sources) as a parameter,
  here a record of functions over an arbitrary world \<open>'w\<close>.  What the code relies on is
  stated as locales over such a client, from the weakest to the strongest:
  \<open>dynamo\<close> (writes are atomic and conditional; a failed call other than a condition failure
  may or may not have taken effect; plain reads promise nothing), \<open>dynamo_current\<close> (reads
  return the current items) and \<open>dynamo_up\<close> (no outage).  The last section is a client kept
  in memory that satisfies all of them; it serves to show that the contracts can hold.
\<close>

section \<open>Items and requests\<close>

datatype attr =
    AS string
  | AN int
  | AL "attr list"
  | AM "string \<Rightarrow> attr option"

type_synonym item = "string \<Rightarrow> attr option"
type_synonym key = "attr option list"
type_synonym tables = "string \<Rightarrow> key \<Rightarrow> item option"

text \<open>The value of an item's primary key under a table's key schema.\<close>

definition key_of :: "string list \<Rightarrow> item \<Rightarrow> key" where
  "key_of ks it = map it ks"

lemma key_of_Nil [simp]: "key_of [] it = []"
  by (simp add: key_of_def)

lemma key_of_Cons [simp]: "key_of (k # ks) it = it k # key_of ks it"
  by (simp add: key_of_def)

text \<open>Condition, update and key condition expressions, as parsed.  \<open>Path_plus m k z x\<close> is
  \<^verbatim>\<open>SET m.k = if_not_exists(m.k, z) + x\<close>, \<open>Path_minus\<close> the same with a minus.\<close>

datatype condition =
    Attribute_exists string
  | Attribute_not_exists string

datatype update_action =
    Set_attr string attr
  | Remove_attr string
  | Path_plus string string int int
  | Path_minus string string int int

datatype key_cond =
    Key_eq string attr
  | Key_begins_with string string

datatype transact_item =
    T_put string item "condition option"
  | T_update string item "update_action list" "condition option"
  | T_delete string item "condition option"

record query_input =
  q_table :: string
  q_index :: "string option"
  q_conds :: "key_cond list"
  q_limit :: "int option"
  q_start :: "item option"
  q_count :: bool

text \<open>\<open>out_last = None\<close> is an empty \<^verbatim>\<open>LastEvaluatedKey\<close>.\<close>

record query_output =
  out_items :: "item list"
  out_count :: int
  out_last :: "item option"

record 'w ddb =
  PutItem :: "string \<Rightarrow> item \<Rightarrow> condition option \<Rightarrow> 'w \<Rightarrow> (ext_error + unit) \<times> 'w"
  GetItem :: "string \<Rightarrow> item \<Rightarrow> bool \<Rightarrow> 'w \<Rightarrow> (ext_error + item option) \<times> 'w"
  DeleteItem :: "string \<Rightarrow> item \<Rightarrow> 'w \<Rightarrow> (ext_error + unit) \<times> 'w"
  UpdateItem :: "string \<Rightarrow> item \<Rightarrow> update_action list \<Rightarrow> condition option \<Rightarrow> 'w \<Rightarrow>
    (ext_error + unit) \<times> 'w"
  Query :: "query_input \<Rightarrow> 'w \<Rightarrow> (ext_error + query_output) \<times> 'w"
  TransactWriteItems :: "transact_item list \<Rightarrow> 'w \<Rightarrow> (ext_error + unit) \<times> 'w"

text \<open>The string under an attribute, empty if there is none.\<close>

definition str_attr :: "item \<Rightarrow> string \<Rightarrow> string" where
  "str_attr it a = (case it a of Some (AS s) \<Rightarrow> s | _ \<Rightarrow> [])"

text \<open>The number under an attribute, 0 if there is none.\<close>

definition int_attr :: "item \<Rightarrow> string \<Rightarrow> int" where
  "int_attr it a = (case it a of Some (AN n) \<Rightarrow> n | _ \<Rightarrow> 0)"

lemma str_attr_Some: "str_attr it a \<noteq> [] \<Longrightarrow> it a = Some (AS (str_attr it a))"
  by (auto simp: str_attr_def split: option.splits attr.splits)

section \<open>Documented effects\<close>

fun cond_holds :: "condition option \<Rightarrow> item option \<Rightarrow> bool" where
  "cond_holds None oi = True"
| "cond_holds (Some (Attribute_exists a)) oi = (\<exists>it. oi = Some it \<and> it a \<noteq> None)"
| "cond_holds (Some (Attribute_not_exists a)) oi = (\<forall>it. oi = Some it \<longrightarrow> it a = None)"

lemma cond_holds_code [code]:
  "cond_holds None oi = True"
  "cond_holds (Some (Attribute_exists a)) None = False"
  "cond_holds (Some (Attribute_exists a)) (Some it) = (\<not> Option.is_none (it a))"
  "cond_holds (Some (Attribute_not_exists a)) None = True"
  "cond_holds (Some (Attribute_not_exists a)) (Some it) = Option.is_none (it a)"
  by (auto simp: Option.is_none_def)

text \<open>A nested path can be set only when its map exists; arithmetic needs a number.\<close>

fun path_number :: "item \<Rightarrow> string \<Rightarrow> string \<Rightarrow> int \<Rightarrow> ((string \<Rightarrow> attr option) \<times> int) option" where
  "path_number it m k z =
     (case it m of
        Some (AM mp) \<Rightarrow>
          (case mp k of None \<Rightarrow> Some (mp, z) | Some (AN n) \<Rightarrow> Some (mp, n) | _ \<Rightarrow> None)
      | _ \<Rightarrow> None)"

fun apply_update :: "update_action \<Rightarrow> item \<Rightarrow> item option" where
  "apply_update (Set_attr a v) it = Some (it(a \<mapsto> v))"
| "apply_update (Remove_attr a) it = Some (it(a := None))"
| "apply_update (Path_plus m k z x) it =
     map_option (\<lambda>(mp, n). it(m \<mapsto> AM (mp(k \<mapsto> AN (n + x))))) (path_number it m k z)"
| "apply_update (Path_minus m k z x) it =
     map_option (\<lambda>(mp, n). it(m \<mapsto> AM (mp(k \<mapsto> AN (n - x))))) (path_number it m k z)"

fun apply_updates :: "update_action list \<Rightarrow> item \<Rightarrow> item option" where
  "apply_updates [] it = Some it"
| "apply_updates (u # us) it = Option.bind (apply_update u it) (apply_updates us)"

definition set_item :: "string \<Rightarrow> key \<Rightarrow> item option \<Rightarrow> tables \<Rightarrow> tables" where
  "set_item T k oi tb = tb(T := (tb T)(k := oi))"

lemma set_item_apply [simp]:
  "set_item T k oi tb T' k' = (if T' = T \<and> k' = k then oi else tb T' k')"
  by (simp add: set_item_def)

lemma set_item_same [simp]: "set_item T k oi tb T = (tb T)(k := oi)"
  by (simp add: set_item_def)

lemma set_item_other [simp]: "T' \<noteq> T \<Longrightarrow> set_item T k oi tb T' = tb T'"
  by (simp add: set_item_def)

definition put_effect ::
  "(string \<Rightarrow> string list) \<Rightarrow> string \<Rightarrow> item \<Rightarrow> condition option \<Rightarrow> tables \<Rightarrow> tables option" where
  "put_effect sc T it c tb =
     (let k = key_of (sc T) it in
      if cond_holds c (tb T k) then Some (set_item T k (Some it) tb) else None)"

text \<open>An update of an absent item starts from the key attributes; an update never changes the
  key of an item.\<close>

definition update_effect ::
  "(string \<Rightarrow> string list) \<Rightarrow> string \<Rightarrow> item \<Rightarrow> update_action list \<Rightarrow> condition option \<Rightarrow> tables \<Rightarrow>
   tables option" where
  "update_effect sc T ky us c tb =
     (let k = key_of (sc T) ky; old = tb T k in
      if cond_holds c old
      then (case apply_updates us (case old of None \<Rightarrow> ky | Some it \<Rightarrow> it) of
              None \<Rightarrow> None
            | Some it \<Rightarrow> if key_of (sc T) it = k then Some (set_item T k (Some it) tb) else None)
      else None)"

definition delete_effect ::
  "(string \<Rightarrow> string list) \<Rightarrow> string \<Rightarrow> item \<Rightarrow> condition option \<Rightarrow> tables \<Rightarrow> tables option" where
  "delete_effect sc T ky c tb =
     (let k = key_of (sc T) ky in
      if cond_holds c (tb T k) then Some (set_item T k None tb) else None)"

fun ti_effect :: "(string \<Rightarrow> string list) \<Rightarrow> transact_item \<Rightarrow> tables \<Rightarrow> tables option" where
  "ti_effect sc (T_put T it c) tb = put_effect sc T it c tb"
| "ti_effect sc (T_update T ky us c) tb = update_effect sc T ky us c tb"
| "ti_effect sc (T_delete T ky c) tb = delete_effect sc T ky c tb"

fun ti_target :: "(string \<Rightarrow> string list) \<Rightarrow> transact_item \<Rightarrow> string \<times> key" where
  "ti_target sc (T_put T it c) = (T, key_of (sc T) it)"
| "ti_target sc (T_update T ky us c) = (T, key_of (sc T) ky)"
| "ti_target sc (T_delete T ky c) = (T, key_of (sc T) ky)"

fun ti_cond :: "(string \<Rightarrow> string list) \<Rightarrow> tables \<Rightarrow> transact_item \<Rightarrow> bool" where
  "ti_cond sc tb (T_put T it c) = cond_holds c (tb T (key_of (sc T) it))"
| "ti_cond sc tb (T_update T ky us c) = cond_holds c (tb T (key_of (sc T) ky))"
| "ti_cond sc tb (T_delete T ky c) = cond_holds c (tb T (key_of (sc T) ky))"

fun seq_effect :: "(string \<Rightarrow> string list) \<Rightarrow> transact_item list \<Rightarrow> tables \<Rightarrow> tables option" where
  "seq_effect sc [] tb = Some tb"
| "seq_effect sc (t # ts) tb = Option.bind (ti_effect sc t tb) (seq_effect sc ts)"

text \<open>A transaction applies all of its actions or none, and refuses two actions on one item;
  since the targets differ, applying them in turn is applying them together.\<close>

definition transact_effect ::
  "(string \<Rightarrow> string list) \<Rightarrow> transact_item list \<Rightarrow> tables \<Rightarrow> tables option" where
  "transact_effect sc ts tb =
     (if distinct (map (ti_target sc) ts) then seq_effect sc ts tb else None)"

fun kc_holds :: "key_cond \<Rightarrow> item \<Rightarrow> bool" where
  "kc_holds (Key_eq a v) it \<longleftrightarrow> it a = Some v"
| "kc_holds (Key_begins_with a p) it \<longleftrightarrow> (\<exists>s. it a = Some (AS (p @ s)))"

text \<open>One page of a query: a segment of the full result list that starts after the
  exclusive start key; a page that is followed by more carries the key of its last item.\<close>

definition is_page :: "string list \<Rightarrow> query_input \<Rightarrow> item list \<Rightarrow> query_output \<Rightarrow> bool" where
  "is_page ks q vw out \<longleftrightarrow> (\<exists>pre its post.
     vw = pre @ its @ post \<and>
     (case q_start q of None \<Rightarrow> pre = []
        | Some k \<Rightarrow> pre \<noteq> [] \<and> key_of ks (last pre) = key_of ks k) \<and>
     (case out_last out of None \<Rightarrow> post = []
        | Some k \<Rightarrow> its \<noteq> [] \<and> key_of ks k = key_of ks (last its)) \<and>
     out_items out = (if q_count q then [] else its) \<and>
     out_count out = int (length its))"

end
