(* ===== verification/Dynamo_Contract.thy ===== *)
theory Dynamo_Contract
  imports Dynamo
begin

text \<open>
  The contracts of a DynamoDB client, as locales over the client \<open>C\<close>, the current contents
  \<open>tabs w\<close> of its tables and the key schema \<open>sc\<close> of each table, and an in-memory client
  that satisfies them.
\<close>

section \<open>Writes\<close>

text \<open>
  A successful call had its condition true and took effect.  A condition failure and a
  cancelled transaction changed nothing.  Any other failure (a timeout, a lost response)
  leaves it open whether the call took effect.  Plain reads and queries promise nothing
  about their answers here; a consistent read returns the current item.
\<close>

locale dynamo =
  fixes C :: "'w ddb"
    and tabs :: "'w \<Rightarrow> tables"
    and sc :: "string \<Rightarrow> string list"
  assumes keyed: "tabs w T k = Some it \<Longrightarrow> key_of (sc T) it = k"
    and put_ok: "PutItem C T it c w = (Inr u, w') \<Longrightarrow>
      put_effect sc T it c (tabs w) = Some (tabs w')"
    and put_ccf: "PutItem C T it c w = (Inl Conditional_check_failed, w') \<Longrightarrow>
      put_effect sc T it c (tabs w) = None \<and> tabs w' = tabs w"
    and put_fail: "PutItem C T it c w = (Inl e, w') \<Longrightarrow>
      tabs w' = tabs w \<or> put_effect sc T it c (tabs w) = Some (tabs w')"
    and get_frame: "GetItem C T ky cr w = (r, w') \<Longrightarrow> tabs w' = tabs w"
    and get_consistent: "GetItem C T ky True w = (Inr oi, w') \<Longrightarrow>
      oi = tabs w T (key_of (sc T) ky)"
    and delete_ok: "DeleteItem C T ky w = (Inr u, w') \<Longrightarrow>
      tabs w' = set_item T (key_of (sc T) ky) None (tabs w)"
    and delete_fail: "DeleteItem C T ky w = (Inl e, w') \<Longrightarrow>
      tabs w' = tabs w \<or> tabs w' = set_item T (key_of (sc T) ky) None (tabs w)"
    and update_ok: "UpdateItem C T ky us c w = (Inr u, w') \<Longrightarrow>
      update_effect sc T ky us c (tabs w) = Some (tabs w')"
    and update_ccf: "UpdateItem C T ky us c w = (Inl Conditional_check_failed, w') \<Longrightarrow>
      \<not> cond_holds c (tabs w T (key_of (sc T) ky)) \<and> tabs w' = tabs w"
    and update_fail: "UpdateItem C T ky us c w = (Inl e, w') \<Longrightarrow>
      tabs w' = tabs w \<or> update_effect sc T ky us c (tabs w) = Some (tabs w')"
    and query_frame: "Query C q w = (qr, w') \<Longrightarrow> tabs w' = tabs w"
    and transact_ok: "TransactWriteItems C ts w = (Inr u, w') \<Longrightarrow>
      transact_effect sc ts (tabs w) = Some (tabs w')"
    and transact_cancel: "TransactWriteItems C ts w = (Inl (Transaction_canceled rs), w') \<Longrightarrow>
      tabs w' = tabs w"
    and transact_reason: "TransactWriteItems C ts w = (Inl (Transaction_canceled rs), w') \<Longrightarrow>
      i < length rs \<Longrightarrow> i < length ts \<Longrightarrow> rs ! i = Some ''ConditionalCheckFailed'' \<Longrightarrow>
      \<not> ti_cond sc (tabs w) (ts ! i)"
    and transact_fail: "TransactWriteItems C ts w = (Inl e, w') \<Longrightarrow>
      tabs w' = tabs w \<or> transact_effect sc ts (tabs w) = Some (tabs w')"
begin

text \<open>Whatever a call answers, it left the tables alone or took effect as a whole.\<close>

lemma put_cases:
  "PutItem C T it c w = (r, w') \<Longrightarrow>
   tabs w' = tabs w \<or> put_effect sc T it c (tabs w) = Some (tabs w')"
  by (cases r) (use put_ok put_fail in blast)+

lemma delete_cases:
  "DeleteItem C T ky w = (r, w') \<Longrightarrow>
   tabs w' = tabs w \<or> tabs w' = set_item T (key_of (sc T) ky) None (tabs w)"
  by (cases r) (use delete_ok delete_fail in blast)+

lemma update_cases:
  "UpdateItem C T ky us c w = (r, w') \<Longrightarrow>
   tabs w' = tabs w \<or> update_effect sc T ky us c (tabs w) = Some (tabs w')"
  by (cases r) (use update_ok update_fail in blast)+

lemma transact_cases:
  "TransactWriteItems C ts w = (r, w') \<Longrightarrow>
   tabs w' = tabs w \<or> transact_effect sc ts (tabs w) = Some (tabs w')"
  by (cases r) (use transact_ok transact_fail in blast)+

end

text \<open>The contract leaves the answers of queries open.\<close>

lemma dynamo_query_any:
  assumes D: "dynamo C tabs sc" and "\<And>q w qr w'. f q w = (qr, w') \<Longrightarrow> tabs w' = tabs w"
  shows "dynamo (C\<lparr>Query := f\<rparr>) tabs sc"
proof -
  let ?C = "C\<lparr>Query := f\<rparr>"
  have ops: "PutItem ?C = PutItem C" "GetItem ?C = GetItem C" "DeleteItem ?C = DeleteItem C"
    "UpdateItem ?C = UpdateItem C" "Query ?C = f" "TransactWriteItems ?C = TransactWriteItems C"
    by simp_all
  show ?thesis
    by (rule dynamo.intro; (unfold ops)?;
      (erule (3) dynamo.transact_reason [OF D] |
       erule dynamo.keyed [OF D] dynamo.put_ok [OF D] dynamo.put_ccf [OF D] dynamo.put_fail [OF D]
         dynamo.get_frame [OF D] dynamo.get_consistent [OF D] dynamo.delete_ok [OF D] dynamo.delete_fail [OF D]
         dynamo.update_ok [OF D] dynamo.update_ccf [OF D] dynamo.update_fail [OF D] assms(2)
         dynamo.transact_ok [OF D] dynamo.transact_cancel [OF D] dynamo.transact_fail [OF D]))
qed
section \<open>Current reads\<close>

text \<open>
  Reads that are not delayed: a read returns the current item, and the pages of a query are
  segments of one listing \<open>view\<close> of the matching items.
\<close>

locale dynamo_current = dynamo C tabs sc
  for C :: "'w ddb" and tabs :: "'w \<Rightarrow> tables" and sc :: "string \<Rightarrow> string list" +
  fixes view :: "'w \<Rightarrow> string \<Rightarrow> key_cond list \<Rightarrow> item list"
  assumes get_current: "GetItem C T ky cr w = (Inr oi, w') \<Longrightarrow>
      oi = tabs w T (key_of (sc T) ky)"
    and view_set: "set (view w T cs) = {it \<in> ran (tabs w T). \<forall>c \<in> set cs. kc_holds c it}"
    and view_distinct: "distinct (map (key_of (sc T)) (view w T cs))"
    and view_frame: "Query C q w = (qr, w') \<Longrightarrow> view w' T cs = view w T cs"
    and query_page: "Query C q w = (Inr out, w') \<Longrightarrow>
      is_page (sc (q_table q)) q (view w (q_table q) (q_conds q)) out"
begin

text \<open>An empty first page means that nothing matches.\<close>

lemma first_page_empty:
  assumes "Query C q w = (Inr out, w')" and "q_start q = None" and "\<not> q_count q"
    and "out_items out = []"
  shows "view w (q_table q) (q_conds q) = []"
  using query_page [OF assms(1)] assms(2-4)
  by (auto simp: is_page_def split: option.splits)

lemma page_items:
  assumes "Query C q w = (Inr out, w')" and "it \<in> set (out_items out)"
  shows "it \<in> ran (tabs w (q_table q)) \<and> (\<forall>c \<in> set (q_conds q). kc_holds c it)"
proof -
  from query_page [OF assms(1)] assms(2) have "it \<in> set (view w (q_table q) (q_conds q))"
    by (auto simp: is_page_def split: if_splits)
  then show ?thesis by (simp add: view_set)
qed

end

section \<open>No outage\<close>

text \<open>Calls fail only for the reasons the request gives: a false condition.\<close>

locale dynamo_up = dynamo_current C tabs sc view
  for C :: "'w ddb" and tabs :: "'w \<Rightarrow> tables" and sc :: "string \<Rightarrow> string list"
    and view :: "'w \<Rightarrow> string \<Rightarrow> key_cond list \<Rightarrow> item list" +
  assumes put_up: "\<exists>w'. PutItem C T it c w =
      (if put_effect sc T it c (tabs w) = None then Inl Conditional_check_failed else Inr (), w')"
    and get_up: "\<exists>oi w'. GetItem C T ky cr w = (Inr oi, w')"
    and delete_up: "\<exists>w'. DeleteItem C T ky w = (Inr (), w')"
    and update_up: "cond_holds c (tabs w T (key_of (sc T) ky)) \<Longrightarrow>
      update_effect sc T ky us c (tabs w) \<noteq> None \<Longrightarrow> \<exists>w'. UpdateItem C T ky us c w = (Inr (), w')"
    and update_up_ccf: "\<not> cond_holds c (tabs w T (key_of (sc T) ky)) \<Longrightarrow>
      \<exists>w'. UpdateItem C T ky us c w = (Inl Conditional_check_failed, w')"
    and query_up: "q_start q = None \<or>
        (\<exists>it \<in> set (view w (q_table q) (q_conds q)).
           key_of (sc (q_table q)) it = key_of (sc (q_table q)) (the (q_start q))) \<Longrightarrow>
      \<exists>out w'. Query C q w = (Inr out, w')"
    and transact_up: "transact_effect sc ts (tabs w) \<noteq> None \<Longrightarrow>
      \<exists>w'. TransactWriteItems C ts w = (Inr (), w')"
    and transact_up_cancel: "distinct (map (ti_target sc) ts) \<Longrightarrow>
      \<exists>t \<in> set ts. \<not> ti_cond sc (tabs w) t \<Longrightarrow>
      \<exists>w'. TransactWriteItems C ts w =
        (Inl (Transaction_canceled
           (map (\<lambda>t. Some (if ti_cond sc (tabs w) t then ''None'' else ''ConditionalCheckFailed'')) ts)), w')"

section \<open>An in-memory client\<close>

text \<open>
  Tables as lists of items, newest last.  Queries answer in one page.  The first of two
  items with one key would shadow the second; writes never create two.
\<close>

record mem = mem_items :: "string \<Rightarrow> item list"

definition mem_find :: "string list \<Rightarrow> key \<Rightarrow> item list \<Rightarrow> item option" where
  "mem_find ks k its = find (\<lambda>it. key_of ks it = k) its"

definition mem_store :: "string list \<Rightarrow> item \<Rightarrow> item list \<Rightarrow> item list" where
  "mem_store ks it its = filter (\<lambda>x. key_of ks x \<noteq> key_of ks it) its @ [it]"

definition mem_drop :: "string list \<Rightarrow> key \<Rightarrow> item list \<Rightarrow> item list" where
  "mem_drop ks k its = filter (\<lambda>x. key_of ks x \<noteq> k) its"

definition mem_tabs :: "(string \<Rightarrow> string list) \<Rightarrow> 'a mem_scheme \<Rightarrow> tables" where
  "mem_tabs sc w T k = mem_find (sc T) k (mem_items w T)"

definition mem_with :: "string \<Rightarrow> item list \<Rightarrow> 'a mem_scheme \<Rightarrow> 'a mem_scheme" where
  "mem_with T its w = w\<lparr>mem_items := (mem_items w)(T := its)\<rparr>"

function mem_listing :: "string list \<Rightarrow> item list \<Rightarrow> item list" where
  "mem_listing ks [] = []"
| "mem_listing ks (it # its) = it # mem_listing ks (filter (\<lambda>x. key_of ks x \<noteq> key_of ks it) its)"
  by pat_completeness auto
termination
  by (relation "measure (\<lambda>(ks, its). length its)") (auto simp: le_imp_less_Suc)


definition mem_view :: "(string \<Rightarrow> string list) \<Rightarrow> 'a mem_scheme \<Rightarrow> string \<Rightarrow> key_cond list \<Rightarrow> item list" where
  "mem_view sc w T cs =
     filter (\<lambda>it. list_all (\<lambda>c. kc_holds c it) cs) (mem_listing (sc T) (mem_items w T))"

definition mem_put :: "(string \<Rightarrow> string list) \<Rightarrow> string \<Rightarrow> item \<Rightarrow> condition option \<Rightarrow>
    'a mem_scheme \<Rightarrow> (ext_error + unit) \<times> 'a mem_scheme" where
  "mem_put sc T it c w =
     (if cond_holds c (mem_tabs sc w T (key_of (sc T) it))
      then (Inr (), mem_with T (mem_store (sc T) it (mem_items w T)) w)
      else (Inl Conditional_check_failed, w))"

definition mem_get :: "(string \<Rightarrow> string list) \<Rightarrow> string \<Rightarrow> item \<Rightarrow> bool \<Rightarrow>
    'a mem_scheme \<Rightarrow> (ext_error + item option) \<times> 'a mem_scheme" where
  "mem_get sc T ky cr w = (Inr (mem_tabs sc w T (key_of (sc T) ky)), w)"

definition mem_delete :: "(string \<Rightarrow> string list) \<Rightarrow> string \<Rightarrow> item \<Rightarrow>
    'a mem_scheme \<Rightarrow> (ext_error + unit) \<times> 'a mem_scheme" where
  "mem_delete sc T ky w =
     (Inr (), mem_with T (mem_drop (sc T) (key_of (sc T) ky) (mem_items w T)) w)"

definition mem_new_item :: "(string \<Rightarrow> string list) \<Rightarrow> string \<Rightarrow> item \<Rightarrow> update_action list \<Rightarrow>
    'a mem_scheme \<Rightarrow> item option" where
  "mem_new_item sc T ky us w =
     (let k = key_of (sc T) ky in
      case apply_updates us (case mem_tabs sc w T k of None \<Rightarrow> ky | Some it \<Rightarrow> it) of
        None \<Rightarrow> None
      | Some it \<Rightarrow> if key_of (sc T) it = k then Some it else None)"

definition mem_update :: "(string \<Rightarrow> string list) \<Rightarrow> string \<Rightarrow> item \<Rightarrow> update_action list \<Rightarrow>
    condition option \<Rightarrow> 'a mem_scheme \<Rightarrow> (ext_error + unit) \<times> 'a mem_scheme" where
  "mem_update sc T ky us c w =
     (if cond_holds c (mem_tabs sc w T (key_of (sc T) ky))
      then (case mem_new_item sc T ky us w of
              None \<Rightarrow> (Inl (Api_error ''ValidationException''), w)
            | Some it \<Rightarrow> (Inr (), mem_with T (mem_store (sc T) it (mem_items w T)) w))
      else (Inl Conditional_check_failed, w))"

definition mem_query :: "(string \<Rightarrow> string list) \<Rightarrow> query_input \<Rightarrow>
    'a mem_scheme \<Rightarrow> (ext_error + query_output) \<times> 'a mem_scheme" where
  "mem_query sc q w =
     (let ks = sc (q_table q); vw = mem_view sc w (q_table q) (q_conds q);
          answer = (\<lambda>its. \<lparr>out_items = if q_count q then [] else its,
                           out_count = int (length its), out_last = None\<rparr>)
      in case q_start q of
           None \<Rightarrow> (Inr (answer vw), w)
         | Some k \<Rightarrow>
             (case dropWhile (\<lambda>it. key_of ks it \<noteq> key_of ks k) vw of
                [] \<Rightarrow> (Inl (Api_error ''ValidationException''), w)
              | it # its \<Rightarrow> (Inr (answer its), w)))"

fun mem_ti :: "(string \<Rightarrow> string list) \<Rightarrow> transact_item \<Rightarrow> 'a mem_scheme \<Rightarrow> 'a mem_scheme option" where
  "mem_ti sc (T_put T it c) w =
     (if cond_holds c (mem_tabs sc w T (key_of (sc T) it))
      then Some (mem_with T (mem_store (sc T) it (mem_items w T)) w) else None)"
| "mem_ti sc (T_update T ky us c) w =
     (if cond_holds c (mem_tabs sc w T (key_of (sc T) ky))
      then map_option (\<lambda>it. mem_with T (mem_store (sc T) it (mem_items w T)) w)
             (mem_new_item sc T ky us w)
      else None)"
| "mem_ti sc (T_delete T ky c) w =
     (if cond_holds c (mem_tabs sc w T (key_of (sc T) ky))
      then Some (mem_with T (mem_drop (sc T) (key_of (sc T) ky) (mem_items w T)) w) else None)"

fun mem_seq :: "(string \<Rightarrow> string list) \<Rightarrow> transact_item list \<Rightarrow> 'a mem_scheme \<Rightarrow> 'a mem_scheme option" where
  "mem_seq sc [] w = Some w"
| "mem_seq sc (t # ts) w = Option.bind (mem_ti sc t w) (mem_seq sc ts)"

definition mem_transact :: "(string \<Rightarrow> string list) \<Rightarrow> transact_item list \<Rightarrow>
    'a mem_scheme \<Rightarrow> (ext_error + unit) \<times> 'a mem_scheme" where
  "mem_transact sc ts w =
     (if \<not> distinct (map (ti_target sc) ts) then (Inl (Api_error ''ValidationException''), w)
      else if list_all (ti_cond sc (mem_tabs sc w)) ts
      then (case mem_seq sc ts w of
              None \<Rightarrow> (Inl (Api_error ''ValidationException''), w)
            | Some w' \<Rightarrow> (Inr (), w'))
      else (Inl (Transaction_canceled
             (map (\<lambda>t. Some (if ti_cond sc (mem_tabs sc w) t then ''None''
                             else ''ConditionalCheckFailed'')) ts)), w))"

definition mem_client :: "(string \<Rightarrow> string list) \<Rightarrow> 'a mem_scheme ddb" where
  "mem_client sc = \<lparr>PutItem = mem_put sc, GetItem = mem_get sc, DeleteItem = mem_delete sc,
     UpdateItem = mem_update sc, Query = mem_query sc, TransactWriteItems = mem_transact sc\<rparr>"

lemma mem_find_Some: "mem_find ks k its = Some it \<Longrightarrow> key_of ks it = k \<and> it \<in> set its"
  unfolding mem_find_def by (induction its) (auto split: if_splits)

lemma mem_find_store [simp]:
  "mem_find ks k (mem_store ks it its) = (if k = key_of ks it then Some it else mem_find ks k its)"
  unfolding mem_find_def mem_store_def by (induction its) auto

lemma mem_find_drop [simp]:
  "mem_find ks k (mem_drop ks k' its) = (if k = k' then None else mem_find ks k its)"
  unfolding mem_find_def mem_drop_def by (induction its) auto

lemma mem_items_with [simp]: "mem_items (mem_with T its w) = (mem_items w)(T := its)"
  by (simp add: mem_with_def)

lemma mem_tabs_store [simp]:
  "mem_tabs sc (mem_with T (mem_store (sc T) it (mem_items w T)) w) =
   set_item T (key_of (sc T) it) (Some it) (mem_tabs sc w)"
  by (intro ext) (simp add: mem_tabs_def)

lemma mem_tabs_drop [simp]:
  "mem_tabs sc (mem_with T (mem_drop (sc T) k (mem_items w T)) w) = set_item T k None (mem_tabs sc w)"
  by (intro ext) (simp add: mem_tabs_def)

lemma mem_new_item_effect:
  "cond_holds c (mem_tabs sc w T (key_of (sc T) ky)) \<Longrightarrow>
   update_effect sc T ky us c (mem_tabs sc w) =
   map_option (\<lambda>it. mem_tabs sc (mem_with T (mem_store (sc T) it (mem_items w T)) w))
     (mem_new_item sc T ky us w)"
  by (auto simp: update_effect_def mem_new_item_def Let_def split: option.splits)

lemma mem_ti_effect: "ti_effect sc t (mem_tabs sc w) = map_option (mem_tabs sc) (mem_ti sc t w)"
proof (cases t)
  case (T_update T ky us c)
  then show ?thesis
    by (cases "cond_holds c (mem_tabs sc w T (key_of (sc T) ky))")
      (simp_all add: mem_new_item_effect option.map_comp comp_def,
       simp add: update_effect_def Let_def)
qed (auto simp: put_effect_def delete_effect_def Let_def)

lemma mem_seq_effect: "seq_effect sc ts (mem_tabs sc w) = map_option (mem_tabs sc) (mem_seq sc ts w)"
proof (induction ts arbitrary: w)
  case (Cons t ts)
  then show ?case by (cases "mem_ti sc t w") (simp_all add: mem_ti_effect)
qed simp


lemma set_mem_listing: "it \<in> set (mem_listing ks its) \<longleftrightarrow> mem_find ks (key_of ks it) its = Some it"
proof (induction ks its rule: mem_listing.induct)
  case (1 ks)
  then show ?case by (simp add: mem_find_def)
next
  case (2 ks x its)
  have "mem_find ks k (filter (\<lambda>y. key_of ks y \<noteq> key_of ks x) its) =
      (if k = key_of ks x then None else mem_find ks k its)" for k
    using mem_find_drop [of ks k "key_of ks x" its] by (simp add: mem_drop_def)
  with 2 show ?case by (auto simp: mem_find_def)
qed

lemma set_mem_listing_subset: "set (mem_listing ks its) \<subseteq> set its"
  by (auto simp: set_mem_listing dest: mem_find_Some)

lemma distinct_mem_listing: "distinct (map (key_of ks) (mem_listing ks its))"
proof (induction ks its rule: mem_listing.induct)
  case (2 ks x its)
  then show ?case using set_mem_listing_subset by fastforce
qed simp

lemma mem_view_set:
  "set (mem_view sc w T cs) = {it \<in> ran (mem_tabs sc w T). \<forall>c \<in> set cs. kc_holds c it}"
  by (auto simp: mem_view_def set_mem_listing list_all_iff mem_tabs_def ran_def
      dest: mem_find_Some)

lemma mem_view_distinct: "distinct (map (key_of (sc T)) (mem_view sc w T cs))"
  unfolding mem_view_def by (rule distinct_map_filter) (rule distinct_mem_listing)

lemma ti_effect_other:
  "ti_effect sc t tb = Some tb' \<Longrightarrow> (T, k) \<noteq> ti_target sc t \<Longrightarrow> tb' T k = tb T k"
  by (cases t) (auto simp: put_effect_def update_effect_def delete_effect_def Let_def
      split: if_splits option.splits)

lemma ti_effect_cond: "ti_effect sc t tb = Some tb' \<Longrightarrow> ti_cond sc tb t"
  by (cases t) (auto simp: put_effect_def update_effect_def delete_effect_def Let_def
      split: if_splits)

lemma ti_cond_cong:
  "(case ti_target sc t of (T, k) \<Rightarrow> tb' T k = tb T k) \<Longrightarrow> ti_cond sc tb' t = ti_cond sc tb t"
  by (cases t) auto

lemma seq_effect_conds:
  "distinct (map (ti_target sc) ts) \<Longrightarrow> seq_effect sc ts tb = Some tb' \<Longrightarrow>
   list_all (ti_cond sc tb) ts"
proof (induction ts arbitrary: tb)
  case (Cons t ts)
  from Cons.prems obtain tb1 where tb1: "ti_effect sc t tb = Some tb1"
    "seq_effect sc ts tb1 = Some tb'" by (auto simp: bind_eq_Some_conv)
  with Cons have "list_all (ti_cond sc tb1) ts" by simp
  moreover have "ti_cond sc tb1 u = ti_cond sc tb u" if "u \<in> set ts" for u
  proof (rule ti_cond_cong)
    from that Cons.prems(1) have "ti_target sc u \<noteq> ti_target sc t" by (metis distinct.simps(2) image_eqI list.map(2) list.set_map)
    then show "case ti_target sc u of (T, k) \<Rightarrow> tb1 T k = tb T k"
      using ti_effect_other [OF tb1(1)] by (cases "ti_target sc u") simp
  qed
  ultimately show ?case using ti_effect_cond [OF tb1(1)] by (simp add: list_all_iff)
qed simp

lemma transact_effect_conds: "transact_effect sc ts tb = Some tb' \<Longrightarrow> t \<in> set ts \<Longrightarrow> ti_cond sc tb t"
  using seq_effect_conds by (fastforce simp: transact_effect_def list_all_iff split: if_splits)

lemma mem_page:
  assumes "mem_query sc q w = (Inr out, w')"
  shows "is_page (sc (q_table q)) q (mem_view sc w (q_table q) (q_conds q)) out"
proof (cases "q_start q")
  case None
  with assms show ?thesis
    by (auto simp: mem_query_def is_page_def Let_def)
next
  case (Some k)
  let ?ks = "sc (q_table q)" and ?vw = "mem_view sc w (q_table q) (q_conds q)"
  let ?P = "\<lambda>it. key_of ?ks it \<noteq> key_of ?ks k"
  from assms Some obtain it its where dw: "dropWhile ?P ?vw = it # its"
    and out: "out = \<lparr>out_items = if q_count q then [] else its,
      out_count = int (length its), out_last = None\<rparr>"
    by (auto simp: mem_query_def Let_def split: list.splits)
  have it: "key_of ?ks it = key_of ?ks k" using dropWhile_eq_Cons_conv [THEN iffD1, OF dw] by simp
  define pre where "pre = takeWhile ?P ?vw @ [it]"
  have "?vw = takeWhile ?P ?vw @ it # its" unfolding dw [symmetric] by simp
  then have vw: "?vw = pre @ its @ []" by (simp add: pre_def)
  have "pre \<noteq> []" "last pre = it" by (simp_all add: pre_def)
  with it vw Some out show ?thesis
    unfolding is_page_def
    by (intro exI [of _ pre] exI [of _ its] exI [of _ "[]"]) simp
qed

lemma mem_query_world [simp]: "mem_query sc q w = (r, w') \<Longrightarrow> w' = w"
  by (auto simp: mem_query_def Let_def split: option.splits list.splits)

lemma mem_client_simps [simp]:
  "PutItem (mem_client sc) = mem_put sc" "GetItem (mem_client sc) = mem_get sc"
  "DeleteItem (mem_client sc) = mem_delete sc" "UpdateItem (mem_client sc) = mem_update sc"
  "Query (mem_client sc) = mem_query sc" "TransactWriteItems (mem_client sc) = mem_transact sc"
  by (simp_all add: mem_client_def)

lemma mem_dynamo: "dynamo (mem_client sc) (mem_tabs sc) sc"
proof unfold_locales
  fix T k it and w :: "'a mem_scheme"
  show "mem_tabs sc w T k = Some it \<Longrightarrow> key_of (sc T) it = k"
    by (auto simp: mem_tabs_def dest: mem_find_Some)
next
  fix ts u and w w' :: "'a mem_scheme"
  assume "TransactWriteItems (mem_client sc) ts w = (Inr u, w')"
  then show "transact_effect sc ts (mem_tabs sc w) = Some (mem_tabs sc w')"
    by (auto simp: mem_transact_def transact_effect_def mem_seq_effect
        split: if_splits option.splits)
qed (auto simp: mem_put_def mem_get_def mem_delete_def mem_update_def mem_transact_def
    put_effect_def Let_def mem_new_item_effect dest: mem_query_world split: if_splits option.splits)


lemma mem_dynamo_current: "dynamo_current (mem_client sc) (mem_tabs sc) sc (mem_view sc)"
  by (intro dynamo_current.intro mem_dynamo dynamo_current_axioms.intro)
    (auto simp: mem_get_def mem_view_set mem_view_distinct mem_page dest: mem_query_world)

lemma mem_query_answers:
  assumes "q_start q = None \<or>
    (\<exists>it \<in> set (mem_view sc w (q_table q) (q_conds q)).
       key_of (sc (q_table q)) it = key_of (sc (q_table q)) (the (q_start q)))"
  shows "\<exists>out w'. mem_query sc q w = (Inr out, w')"
proof (cases "q_start q")
  case (Some k)
  with assms have "dropWhile (\<lambda>it. key_of (sc (q_table q)) it \<noteq> key_of (sc (q_table q)) k)
      (mem_view sc w (q_table q) (q_conds q)) \<noteq> []"
    by (auto simp: dropWhile_eq_Nil_conv)
  with Some show ?thesis
    by (auto simp: mem_query_def Let_def split: list.splits)
qed (simp add: mem_query_def Let_def)

lemma mem_transact_answers:
  assumes "transact_effect sc ts (mem_tabs sc w) \<noteq> None"
  shows "\<exists>w'. mem_transact sc ts w = (Inr (), w')"
proof -
  from assms obtain tb' where tb': "transact_effect sc ts (mem_tabs sc w) = Some tb'" by blast
  then have "distinct (map (ti_target sc) ts)" "seq_effect sc ts (mem_tabs sc w) = Some tb'"
    by (auto simp: transact_effect_def split: if_splits)
  moreover from this have "list_all (ti_cond sc (mem_tabs sc w)) ts"
    by (rule seq_effect_conds)
  ultimately show ?thesis by (auto simp: mem_transact_def mem_seq_effect)
qed

lemma mem_dynamo_up: "dynamo_up (mem_client sc) (mem_tabs sc) sc (mem_view sc)"
proof (intro dynamo_up.intro mem_dynamo_current dynamo_up_axioms.intro)
  fix ts and w :: "'a mem_scheme"
  assume "distinct (map (ti_target sc) ts)" "\<exists>t \<in> set ts. \<not> ti_cond sc (mem_tabs sc w) t"
  then show "\<exists>w'. TransactWriteItems (mem_client sc) ts w =
     (Inl (Transaction_canceled
        (map (\<lambda>t. Some (if ti_cond sc (mem_tabs sc w) t then ''None''
           else ''ConditionalCheckFailed'')) ts)), w')"
    by (auto simp: mem_transact_def list_all_iff)
qed (auto simp: mem_put_def mem_get_def mem_delete_def mem_update_def put_effect_def Let_def
    mem_new_item_effect mem_query_answers mem_transact_answers split: option.splits)

interpretation mem: dynamo_up "mem_client sc" "mem_tabs sc" sc "mem_view sc"
  for sc :: "string \<Rightarrow> string list"
  by (rule mem_dynamo_up)

end
