(* ===== verification/Broker_Store.thy ===== *)
theory Broker_Store
  imports Go_Strings Dynamo_Contract
begin

text \<open>
  The runner table of the broker: the model (\<open>broker/model/runner.go\<close>), the repository
  interface (\<open>broker/store/repository.go\<close>) and its DynamoDB implementation
  (\<open>broker/store/dynamo.go\<close>).
\<close>

section \<open>Runners\<close>

record Runner =
  RunnerID :: string
  CurrentSessionID :: string
  IdleBucket :: string
  PrivateURL :: string

definition IsIdle :: "Runner \<Rightarrow> bool" where
  "IsIdle r \<longleftrightarrow> IdleBucket r \<noteq> []"

definition IsBusy :: "Runner \<Rightarrow> bool" where
  "IsBusy r \<longleftrightarrow> CurrentSessionID r \<noteq> []"

datatype store_err = ErrNotFound | ErrNoIdleRunner | ErrConditionFailed | ErrConflict

type_synonym berr = "store_err go_error"

text \<open>
  The repository object.  \<open>unmarshalFn\<close> is the SDK's \<^verbatim>\<open>attributevalue.UnmarshalMap\<close> into a
  runner, \<open>shuffleFn\<close> the random reordering by \<^verbatim>\<open>rand.Shuffle\<close>; both are parameters like the
  other members.
\<close>

record 'w DynamoRepository =
  client :: "'w ddb"
  tableName :: string
  bucketFn :: "'w \<Rightarrow> string \<times> 'w"
  marshalFn :: "Runner \<Rightarrow> ext_error + item"
  unmarshalFn :: "item \<Rightarrow> ext_error + Runner"
  shuffleFn :: "Runner list \<Rightarrow> 'w \<Rightarrow> Runner list \<times> 'w"

definition bucketCount :: nat where
  "bucketCount = 4"

definition idleQueryLimit :: int where
  "idleQueryLimit = 20"

definition bucket_key :: "nat \<Rightarrow> string" where
  "bucket_key n = ''bucket-'' @ dec n"

text \<open>\<open>intN n\<close> is \<^verbatim>\<open>rand.IntN(n)\<close>.\<close>

definition defaultBucketFn :: "(nat \<Rightarrow> 'w \<Rightarrow> nat \<times> 'w) \<Rightarrow> 'w \<Rightarrow> string \<times> 'w" where
  "defaultBucketFn intN w = (let (n, w') = intN bucketCount w in (bucket_key n, w'))"

definition isConditionalCheckFailed :: "'s go_error \<Rightarrow> bool" where
  "isConditionalCheckFailed err \<longleftrightarrow> errors_as err = Some Conditional_check_failed"

definition runner_key :: "string \<Rightarrow> item" where
  "runner_key runnerID = [''runnerId'' \<mapsto> AS runnerID]"

section \<open>Operations\<close>

definition FindByID :: "'w DynamoRepository \<Rightarrow> string \<Rightarrow> 'w \<Rightarrow> (berr + Runner) \<times> 'w" where
  "FindByID r runnerID w =
     (case GetItem (client r) (tableName r) (runner_key runnerID) True w of
        (Inl e, w1) \<Rightarrow> (Inl (Wrapf ''get item'' (Foreign e)), w1)
      | (Inr None, w1) \<Rightarrow> (Inl (Sentinel ErrNotFound), w1)
      | (Inr (Some it), w1) \<Rightarrow>
          (case unmarshalFn r it of
             Inl e \<Rightarrow> (Inl (Wrapf ''unmarshal runner'' (Foreign e)), w1)
           | Inr runner \<Rightarrow> (Inr runner, w1)))"

definition Register :: "'w DynamoRepository \<Rightarrow> string \<Rightarrow> string \<Rightarrow> 'w \<Rightarrow> (berr + unit) \<times> 'w" where
  "Register r runnerID privateURL w =
     (if privateURL = [] then (Inl (New_error ''privateURL must not be empty''), w)
      else
        let (bucket, w1) = bucketFn r w in
        case marshalFn r \<lparr>RunnerID = runnerID, CurrentSessionID = [], IdleBucket = bucket,
                          PrivateURL = privateURL\<rparr> of
          Inl e \<Rightarrow> (Inl (Wrapf ''marshal runner'' (Foreign e)), w1)
        | Inr it \<Rightarrow>
            (case PutItem (client r) (tableName r) it (Some (Attribute_not_exists ''runnerId'')) w1 of
               (Inr _, w2) \<Rightarrow> (Inr (), w2)
             | (Inl e, w2) \<Rightarrow>
                 if isConditionalCheckFailed (Foreign e :: berr)
                 then (case FindByID r runnerID w2 of
                         (Inl findErr, w3) \<Rightarrow> (Inl (Wrapf ''find existing runner'' findErr), w3)
                       | (Inr existing, w3) \<Rightarrow>
                           if PrivateURL existing \<noteq> privateURL then (Inl (Sentinel ErrConflict), w3)
                           else (Inr (), w3))
                 else (Inl (Wrapf ''put item'' (Foreign e)), w2)))"

fun unmarshal_all :: "(item \<Rightarrow> ext_error + Runner) \<Rightarrow> item list \<Rightarrow> ext_error + Runner list" where
  "unmarshal_all f [] = Inr []"
| "unmarshal_all f (it # its) =
     (case f it of
        Inl e \<Rightarrow> Inl e
      | Inr runner \<Rightarrow>
          (case unmarshal_all f its of Inl e \<Rightarrow> Inl e | Inr rs \<Rightarrow> Inr (runner # rs)))"

definition idle_query :: "string \<Rightarrow> string \<Rightarrow> query_input" where
  "idle_query T bucket =
     \<lparr>q_table = T, q_index = Some ''idle-index'', q_conds = [Key_eq ''idleBucket'' (AS bucket)],
      q_limit = Some idleQueryLimit, q_start = None, q_count = False\<rparr>"

definition queryIdleBucket :: "'w DynamoRepository \<Rightarrow> string \<Rightarrow> 'w \<Rightarrow> (berr + Runner list) \<times> 'w" where
  "queryIdleBucket r bucket w =
     (case Query (client r) (idle_query (tableName r) bucket) w of
        (Inl e, w1) \<Rightarrow> (Inl (Wrapf ''query idle-index'' (Foreign e)), w1)
      | (Inr out, w1) \<Rightarrow>
          (case unmarshal_all (unmarshalFn r) (out_items out) of
             Inl e \<Rightarrow> (Inl (Wrapf ''unmarshal runner'' (Foreign e)), w1)
           | Inr runners \<Rightarrow> (Inr runners, w1)))"

definition assignSession :: "'w DynamoRepository \<Rightarrow> string \<Rightarrow> string \<Rightarrow> 'w \<Rightarrow> (berr + unit) \<times> 'w" where
  "assignSession r runnerID sessionID w =
     (case UpdateItem (client r) (tableName r) (runner_key runnerID)
             [Set_attr ''currentSessionId'' (AS sessionID), Remove_attr ''idleBucket'']
             (Some (Attribute_exists ''idleBucket'')) w of
        (Inr _, w1) \<Rightarrow> (Inr (), w1)
      | (Inl e, w1) \<Rightarrow>
          if isConditionalCheckFailed (Foreign e :: berr) then (Inl (Sentinel ErrConditionFailed), w1)
          else (Inl (Wrapf ''update item'' (Foreign e)), w1))"

text \<open>
  The inner loop of \<open>AcquireIdle\<close> over the shuffled page.  \<open>Some res\<close> is an early return;
  \<open>None\<close> falls through to the check of \<open>progressed\<close>.
\<close>

fun try_candidates :: "'w DynamoRepository \<Rightarrow> string \<Rightarrow> Runner list \<Rightarrow> string set \<Rightarrow> bool \<Rightarrow> 'w \<Rightarrow>
    ((berr + Runner) option \<times> string set \<times> bool) \<times> 'w" where
  "try_candidates r sessionID [] tried progressed w = ((None, tried, progressed), w)"
| "try_candidates r sessionID (runner # rs) tried progressed w =
     (if RunnerID runner \<in> tried then try_candidates r sessionID rs tried progressed w
      else
        let tried' = insert (RunnerID runner) tried in
        case assignSession r (RunnerID runner) sessionID w of
          (Inr _, w1) \<Rightarrow>
            ((Some (Inr (runner\<lparr>CurrentSessionID := sessionID, IdleBucket := []\<rparr>)), tried', True), w1)
        | (Inl err, w1) \<Rightarrow>
            if \<not> errors_is err ErrConditionFailed then ((Some (Inl err), tried', True), w1)
            else try_candidates r sessionID rs tried' True w1)"

text \<open>The outer loop; \<open>None\<close> if it runs for ever.\<close>

partial_function (option) acquire_loop ::
  "'w DynamoRepository \<Rightarrow> string \<Rightarrow> string \<Rightarrow> string set \<Rightarrow> 'w \<Rightarrow> ((berr + Runner) \<times> 'w) option" where
  "acquire_loop r sessionID bucketKey tried w =
     (case queryIdleBucket r bucketKey w of
        (Inl err, w1) \<Rightarrow> Some (Inl err, w1)
      | (Inr runners, w1) \<Rightarrow>
          if runners = [] then Some (Inl (Sentinel ErrNoIdleRunner), w1)
          else
            let (shuffled, w2) = shuffleFn r runners w1 in
            case try_candidates r sessionID shuffled tried False w2 of
              ((Some res, _, _), w3) \<Rightarrow> Some (res, w3)
            | ((None, tried', progressed), w3) \<Rightarrow>
                if \<not> progressed then Some (Inl (Sentinel ErrNoIdleRunner), w3)
                else acquire_loop r sessionID bucketKey tried' w3)"

definition AcquireIdle :: "'w DynamoRepository \<Rightarrow> string \<Rightarrow> nat \<Rightarrow> 'w \<Rightarrow> ((berr + Runner) \<times> 'w) option" where
  "AcquireIdle r sessionID bucket w = acquire_loop r sessionID (bucket_key bucket) {} w"

definition session_query :: "string \<Rightarrow> string \<Rightarrow> query_input" where
  "session_query T sessionID =
     \<lparr>q_table = T, q_index = Some ''session-index'',
      q_conds = [Key_eq ''currentSessionId'' (AS sessionID)],
      q_limit = Some 1, q_start = None, q_count = False\<rparr>"

definition FindBySessionID :: "'w DynamoRepository \<Rightarrow> string \<Rightarrow> 'w \<Rightarrow> (berr + Runner) \<times> 'w" where
  "FindBySessionID r sessionID w =
     (case Query (client r) (session_query (tableName r) sessionID) w of
        (Inl e, w1) \<Rightarrow> (Inl (Wrapf ''query session-index'' (Foreign e)), w1)
      | (Inr out, w1) \<Rightarrow>
          (case out_items out of
             [] \<Rightarrow> (Inl (Sentinel ErrNotFound), w1)
           | it # _ \<Rightarrow>
               (case unmarshalFn r it of
                  Inl e \<Rightarrow> (Inl (Wrapf ''unmarshal runner'' (Foreign e)), w1)
                | Inr runner \<Rightarrow> (Inr runner, w1))))"

definition Delete :: "'w DynamoRepository \<Rightarrow> string \<Rightarrow> 'w \<Rightarrow> (berr + unit) \<times> 'w" where
  "Delete r runnerID w =
     (case DeleteItem (client r) (tableName r) (runner_key runnerID) w of
        (Inl e, w1) \<Rightarrow> (Inl (Wrapf ''delete item'' (Foreign e)), w1)
      | (Inr _, w1) \<Rightarrow> (Inr (), w1))"

section \<open>The repository interface\<close>

record 'w Repository =
  repo_Register :: "string \<Rightarrow> string \<Rightarrow> 'w \<Rightarrow> (berr + unit) \<times> 'w"
  repo_AcquireIdle :: "string \<Rightarrow> nat \<Rightarrow> 'w \<Rightarrow> ((berr + Runner) \<times> 'w) option"
  repo_BucketCount :: nat
  repo_FindBySessionID :: "string \<Rightarrow> 'w \<Rightarrow> (berr + Runner) \<times> 'w"
  repo_FindByID :: "string \<Rightarrow> 'w \<Rightarrow> (berr + Runner) \<times> 'w"
  repo_Delete :: "string \<Rightarrow> 'w \<Rightarrow> (berr + unit) \<times> 'w"

definition dynamo_repository :: "'w DynamoRepository \<Rightarrow> 'w Repository" where
  "dynamo_repository r =
     \<lparr>repo_Register = Register r, repo_AcquireIdle = AcquireIdle r,
      repo_BucketCount = bucketCount, repo_FindBySessionID = FindBySessionID r,
      repo_FindByID = FindByID r, repo_Delete = Delete r\<rparr>"

end
