(* ===== verification/Broker_Contract.thy ===== *)
theory Broker_Contract
  imports Broker_Store "HOL-Library.Multiset"
begin

text \<open>
  What the broker's repository promises its client, as a locale over the operations of the
  \<^verbatim>\<open>Repository\<close> interface, and the proof that the DynamoDB implementation keeps the promise
  for every client that meets the DynamoDB contract.
\<close>

section \<open>The contract\<close>

text \<open>A runner goes from idle to busy under a session; nothing else changes.\<close>

definition assigns :: "string \<Rightarrow> string \<Rightarrow> (string \<Rightarrow> Runner option) \<Rightarrow> (string \<Rightarrow> Runner option) \<Rightarrow> bool" where
  "assigns sid i m m' \<longleftrightarrow> (\<exists>old. m i = Some old \<and> IsIdle old \<and>
     m' = m(i \<mapsto> old\<lparr>CurrentSessionID := sid, IdleBucket := []\<rparr>))"

definition registers :: "string \<Rightarrow> string \<Rightarrow> (string \<Rightarrow> Runner option) \<Rightarrow> (string \<Rightarrow> Runner option) \<Rightarrow> bool" where
  "registers i url m m' \<longleftrightarrow> m i = None \<and> (\<exists>b. b \<noteq> [] \<and>
     m' = m(i \<mapsto> \<lparr>RunnerID = i, CurrentSessionID = [], IdleBucket = b, PrivateURL = url\<rparr>))"

text \<open>\<open>recs w\<close> are the current runner records, by identifier.\<close>

locale repository =
  fixes repo :: "'w Repository"
    and recs :: "'w \<Rightarrow> string \<Rightarrow> Runner option"
    and invar :: "'w \<Rightarrow> bool"
  assumes shape: "invar w \<Longrightarrow> recs w i = Some rn \<Longrightarrow> RunnerID rn = i \<and> IsIdle rn \<noteq> IsBusy rn"
    and register_ok: "invar w \<Longrightarrow> repo_Register repo i url w = (Inr u, w') \<Longrightarrow> invar w' \<and>
      (recs w' = recs w \<or> registers i url (recs w) (recs w'))"
    and register_fail: "invar w \<Longrightarrow> repo_Register repo i url w = (Inl e, w') \<Longrightarrow> invar w' \<and>
      (recs w' = recs w \<or> registers i url (recs w) (recs w'))"
    and acquire_ok: "invar w \<Longrightarrow> sid \<noteq> [] \<Longrightarrow>
      repo_AcquireIdle repo sid b w = Some (Inr rn, w') \<Longrightarrow>
      invar w' \<and> assigns sid (RunnerID rn) (recs w) (recs w')"
    and acquire_fail: "invar w \<Longrightarrow> sid \<noteq> [] \<Longrightarrow>
      repo_AcquireIdle repo sid b w = Some (Inl e, w') \<Longrightarrow>
      invar w' \<and> (recs w' = recs w \<or> \<not> errors_is e ErrNoIdleRunner \<and> (\<exists>i. assigns sid i (recs w) (recs w')))"
    and delete_ok: "invar w \<Longrightarrow> repo_Delete repo i w = (Inr u, w') \<Longrightarrow>
      invar w' \<and> recs w' = (recs w)(i := None)"
    and delete_fail: "invar w \<Longrightarrow> repo_Delete repo i w = (Inl e, w') \<Longrightarrow>
      invar w' \<and> (recs w' = recs w \<or> recs w' = (recs w)(i := None)) \<and>
      \<not> errors_is e ErrNoIdleRunner"
    and find_session_frame: "invar w \<Longrightarrow> repo_FindBySessionID repo sid w = (r, w') \<Longrightarrow>
      invar w' \<and> recs w' = recs w"
    and find_session_err: "repo_FindBySessionID repo sid w = (Inl e, w') \<Longrightarrow> \<not> errors_is e ErrNoIdleRunner"
    and find_id_frame: "invar w \<Longrightarrow> repo_FindByID repo i w = (r, w') \<Longrightarrow>
      invar w' \<and> recs w' = recs w"

text \<open>With current reads, searches are exact and the search for an idle runner ends.\<close>

locale repository_current = repository repo recs invar
  for repo :: "'w Repository" and recs :: "'w \<Rightarrow> string \<Rightarrow> Runner option"
    and invar :: "'w \<Rightarrow> bool" +
  assumes finite_recs: "invar w \<Longrightarrow> finite (dom (recs w))"
    and find_session_found: "invar w \<Longrightarrow> repo_FindBySessionID repo sid w = (Inr rn, w') \<Longrightarrow>
      recs w (RunnerID rn) = Some rn \<and> CurrentSessionID rn = sid"
    and find_session_none: "invar w \<Longrightarrow> sid \<noteq> [] \<Longrightarrow>
      repo_FindBySessionID repo sid w = (Inl e, w') \<Longrightarrow> errors_is e ErrNotFound \<Longrightarrow>
      recs w i = Some rn \<Longrightarrow> CurrentSessionID rn \<noteq> sid"
    and acquire_record: "invar w \<Longrightarrow> sid \<noteq> [] \<Longrightarrow>
      repo_AcquireIdle repo sid b w = Some (Inr rn, w') \<Longrightarrow> recs w' (RunnerID rn) = Some rn"
    and acquire_empty: "invar w \<Longrightarrow> sid \<noteq> [] \<Longrightarrow>
      repo_AcquireIdle repo sid b w = Some (Inl e, w') \<Longrightarrow> errors_is e ErrNoIdleRunner \<Longrightarrow>
      recs w i = Some rn \<Longrightarrow> IdleBucket rn \<noteq> bucket_key b"
    and acquire_returns: "invar w \<Longrightarrow> sid \<noteq> [] \<Longrightarrow> \<exists>res. repo_AcquireIdle repo sid b w = Some res"
    and buckets: "invar w \<Longrightarrow> recs w i = Some rn \<Longrightarrow> IsIdle rn \<Longrightarrow>
      \<exists>b < repo_BucketCount repo. IdleBucket rn = bucket_key b"

section \<open>Runner records as items\<close>

text \<open>The fields that the struct tags of \<open>Runner\<close> name.\<close>

definition runner_of :: "item \<Rightarrow> Runner" where
  "runner_of it = \<lparr>RunnerID = str_attr it ''runnerId'',
     CurrentSessionID = str_attr it ''currentSessionId'',
     IdleBucket = str_attr it ''idleBucket'', PrivateURL = str_attr it ''privateUrl''\<rparr>"

definition omitempty :: "string \<Rightarrow> attr option" where
  "omitempty s = (if s = [] then None else Some (AS s))"

definition runner_item :: "Runner \<Rightarrow> item" where
  "runner_item rn = [''runnerId'' \<mapsto> AS (RunnerID rn)]
     (''currentSessionId'' := omitempty (CurrentSessionID rn),
      ''idleBucket'' := omitempty (IdleBucket rn), ''privateUrl'' := omitempty (PrivateURL rn))"

lemma runner_of_item [simp]: "runner_of (runner_item rn) = rn"
  by (simp add: runner_of_def runner_item_def str_attr_def omitempty_def)

text \<open>The two states of a stored runner.\<close>

definition idle_buckets :: "string list" where
  "idle_buckets = map bucket_key [0..<bucketCount]"

definition idle_item :: "item \<Rightarrow> bool" where
  "idle_item it \<longleftrightarrow> (\<exists>i. it ''runnerId'' = Some (AS i)) \<and>
     (\<exists>b \<in> set idle_buckets. it ''idleBucket'' = Some (AS b)) \<and> it ''currentSessionId'' = None"

definition busy_item :: "item \<Rightarrow> bool" where
  "busy_item it \<longleftrightarrow> (\<exists>i. it ''runnerId'' = Some (AS i)) \<and> it ''idleBucket'' = None \<and>
     (\<exists>s. s \<noteq> [] \<and> it ''currentSessionId'' = Some (AS s))"

lemma bucket_key_nonempty [simp]: "bucket_key b \<noteq> []"
  by (simp add: bucket_key_def)

lemma idle_bucket_nonempty: "b \<in> set idle_buckets \<Longrightarrow> b \<noteq> []"
  by (auto simp: idle_buckets_def)

lemma idle_item_runner: "idle_item it \<Longrightarrow> IsIdle (runner_of it) \<and> \<not> IsBusy (runner_of it)"
  by (auto simp: idle_item_def IsIdle_def IsBusy_def runner_of_def str_attr_def
      dest: idle_bucket_nonempty)

lemma busy_item_runner: "busy_item it \<Longrightarrow> IsBusy (runner_of it) \<and> \<not> IsIdle (runner_of it)"
  by (auto simp: busy_item_def IsIdle_def IsBusy_def runner_of_def str_attr_def)

text \<open>What an assignment does to an item.\<close>

definition assign_item :: "string \<Rightarrow> item \<Rightarrow> item" where
  "assign_item sid it = it(''currentSessionId'' \<mapsto> AS sid, ''idleBucket'' := None)"

lemma runner_of_assign [simp]:
  "runner_of (assign_item sid it) = (runner_of it)\<lparr>CurrentSessionID := sid, IdleBucket := []\<rparr>"
  by (simp add: assign_item_def runner_of_def str_attr_def)

lemma assign_item_busy: "idle_item it \<Longrightarrow> sid \<noteq> [] \<Longrightarrow> busy_item (assign_item sid it)"
  by (auto simp: idle_item_def busy_item_def assign_item_def)

abbreviation rkey :: "string \<Rightarrow> key" where
  "rkey i \<equiv> [Some (AS i)]"

text \<open>The same step on tables: item \<open>i\<close> had an idle bucket and was assigned.\<close>

definition tab_assigns :: "string \<Rightarrow> string \<Rightarrow> string \<Rightarrow> tables \<Rightarrow> tables \<Rightarrow> bool" where
  "tab_assigns T sid i tb tb' \<longleftrightarrow> (\<exists>it. tb T (rkey i) = Some it \<and> it ''idleBucket'' \<noteq> None \<and>
     tb' = set_item T (rkey i) (Some (assign_item sid it)) tb)"

definition runner_recs :: "string \<Rightarrow> tables \<Rightarrow> string \<Rightarrow> Runner option" where
  "runner_recs T tb i = map_option runner_of (tb T (rkey i))"

definition table_ok :: "string \<Rightarrow> tables \<Rightarrow> bool" where
  "table_ok T tb \<longleftrightarrow> (\<forall>k it. tb T k = Some it \<longrightarrow> idle_item it \<or> busy_item it)"

lemma table_ok_set: "table_ok T tb \<Longrightarrow> idle_item it \<or> busy_item it \<Longrightarrow> table_ok T (set_item T k (Some it) tb)"
  by (auto simp: table_ok_def)

lemma table_ok_del: "table_ok T tb \<Longrightarrow> table_ok T (set_item T k None tb)"
  by (auto simp: table_ok_def)

lemma runner_recs_set [simp]:
  "runner_recs T (set_item T (rkey i) oi tb) = (runner_recs T tb)(i := map_option runner_of oi)"
  by (auto simp: runner_recs_def)

lemma table_idle: "table_ok T tb \<Longrightarrow> tb T k = Some it \<Longrightarrow> it ''idleBucket'' \<noteq> None \<Longrightarrow> idle_item it"
  by (metis busy_item_def table_ok_def)

lemma tab_assigns_runners:
  assumes "table_ok T tb" and "sid \<noteq> []" and "tab_assigns T sid i tb tb'"
  shows "table_ok T tb' \<and> assigns sid i (runner_recs T tb) (runner_recs T tb')"
proof -
  from assms(3) obtain it where it: "tb T (rkey i) = Some it" "it ''idleBucket'' \<noteq> None"
    "tb' = set_item T (rkey i) (Some (assign_item sid it)) tb"
    by (auto simp: tab_assigns_def)
  from assms(1) it(1,2) have "idle_item it" by (rule table_idle)
  with assms(2) have "busy_item (assign_item sid it)" by (intro assign_item_busy)
  with assms(1) it(3) have "table_ok T tb'" by (simp add: table_ok_set)
  moreover from \<open>idle_item it\<close> it have "assigns sid i (runner_recs T tb) (runner_recs T tb')"
    unfolding assigns_def by (intro exI [of _ "runner_of it"]) (simp add: idle_item_runner, simp add: runner_recs_def)
  ultimately show ?thesis by blast
qed

end
