(* ===== verification/Broker_Repository.thy ===== *)
theory Broker_Repository
  imports Broker_Contract
begin

text \<open>
  The DynamoDB implementation of the repository keeps the contract of \<open>repository\<close> over
  any client that meets \<open>dynamo\<close>, and of \<open>repository_current\<close> when reads are current.
\<close>

section \<open>The store over a client\<close>

text \<open>
  The members of the repository object beside the client: the SDK's marshalling follows the
  struct tags, the bucket function names one of the buckets, shuffling permutes.
\<close>

locale broker_store = dynamo "client R" tabs sc
  for R :: "'w DynamoRepository" and tabs :: "'w \<Rightarrow> tables" and sc :: "string \<Rightarrow> string list" +
  assumes schema: "sc (tableName R) = [''runnerId'']"
    and marshal: "marshalFn R rn = Inr it \<Longrightarrow> it = runner_item rn"
    and unmarshal: "unmarshalFn R it = Inr rn \<Longrightarrow> rn = runner_of it"
    and bucket: "bucketFn R w = (b, w') \<Longrightarrow> b \<in> set idle_buckets \<and> tabs w' = tabs w"
    and shuffle: "shuffleFn R rs w = (rs', w') \<Longrightarrow> mset rs' = mset rs \<and> tabs w' = tabs w"
begin

abbreviation tab :: "'w \<Rightarrow> key \<Rightarrow> item option" where
  "tab w \<equiv> tabs w (tableName R)"

abbreviation recs :: "'w \<Rightarrow> string \<Rightarrow> Runner option" where
  "recs w \<equiv> runner_recs (tableName R) (tabs w)"

abbreviation ok :: "'w \<Rightarrow> bool" where
  "ok w \<equiv> table_ok (tableName R) (tabs w)"

lemma key_runner [simp]: "key_of (sc (tableName R)) (runner_key i) = rkey i"
  by (simp add: schema runner_key_def)

lemma find_by_id_frame: "FindByID R i w = (r, w') \<Longrightarrow> tabs w' = tabs w"
  by (auto simp: FindByID_def split: prod.splits sum.splits option.splits dest: get_frame)

lemma query_idle_frame: "queryIdleBucket R b w = (r, w') \<Longrightarrow> tabs w' = tabs w"
  by (auto simp: queryIdleBucket_def split: prod.splits sum.splits dest: query_frame)

lemma find_by_session_frame: "FindBySessionID R sid w = (r, w') \<Longrightarrow> tabs w' = tabs w"
  by (auto simp: FindBySessionID_def split: prod.splits sum.splits list.splits dest: query_frame)

lemma find_by_session_err: "FindBySessionID R sid w = (Inl e, w') \<Longrightarrow> \<not> errors_is e ErrNoIdleRunner"
  by (auto simp: FindBySessionID_def split: prod.splits sum.splits list.splits)

lemma unmarshal_all_Inr:
  "unmarshal_all (unmarshalFn R) its = Inr rns \<Longrightarrow> rns = map runner_of its"
  by (induction its arbitrary: rns) (auto split: sum.splits dest: unmarshal)

text \<open>One assignment: it happens as a whole, or the table stays; a failed condition means that
  the runner was not idle.\<close>

lemma assign_ok:
  assumes "assignSession R i sid w = (Inr u, w')"
  shows "tab_assigns (tableName R) sid i (tabs w) (tabs w')"
proof -
  from assms have "UpdateItem (client R) (tableName R) (runner_key i)
      [Set_attr ''currentSessionId'' (AS sid), Remove_attr ''idleBucket'']
      (Some (Attribute_exists ''idleBucket'')) w = (Inr (), w')"
    by (auto simp: assignSession_def split: prod.splits sum.splits if_splits)
  from update_ok [OF this] show ?thesis
    by (auto simp: update_effect_def tab_assigns_def assign_item_def Let_def
        split: if_splits option.splits)
qed

lemma assign_fail:
  assumes "assignSession R i sid w = (Inl e, w')"
  shows "tabs w' = tabs w \<and> (\<forall>it. tab w (rkey i) = Some it \<longrightarrow> it ''idleBucket'' = None) \<and>
      e = Sentinel ErrConditionFailed
    \<or> \<not> errors_is e ErrConditionFailed \<and> \<not> errors_is e ErrNoIdleRunner \<and>
      (tabs w' = tabs w \<or> tab_assigns (tableName R) sid i (tabs w) (tabs w'))"
proof -
  let ?call = "UpdateItem (client R) (tableName R) (runner_key i)
      [Set_attr ''currentSessionId'' (AS sid), Remove_attr ''idleBucket'']
      (Some (Attribute_exists ''idleBucket'')) w"
  from assms obtain x where x: "?call = (Inl x, w')"
    "e = (if x = Conditional_check_failed then Sentinel ErrConditionFailed
          else Wrapf ''update item'' (Foreign x))"
    by (auto simp: assignSession_def isConditionalCheckFailed_def split: prod.splits sum.splits if_splits)
  show ?thesis
  proof (cases "x = Conditional_check_failed")
    case True
    with x update_ccf [of _ _ _ _ w w'] show ?thesis by fastforce
  next
    case False
    from update_fail [OF x(1)] have "tabs w' = tabs w \<or> tab_assigns (tableName R) sid i (tabs w) (tabs w')"
      by (auto simp: update_effect_def tab_assigns_def assign_item_def Let_def
          split: if_splits option.splits)
    with False x(2) show ?thesis by simp
  qed
qed

text \<open>The inner loop.\<close>

lemma try_None:
  "try_candidates R sid rs tried pr w = ((None, tried', pr'), w') \<Longrightarrow>
   tabs w' = tabs w \<and> tried' = tried \<union> RunnerID ` set rs \<and>
   (pr' \<longleftrightarrow> pr \<or> \<not> RunnerID ` set rs \<subseteq> tried) \<and>
   (\<forall>i \<in> tried' - tried. \<forall>it. tab w (rkey i) = Some it \<longrightarrow> it ''idleBucket'' = None)"
proof (induction rs arbitrary: tried pr w)
  case Nil
  then show ?case by simp
next
  case (Cons rn rs)
  show ?case
  proof (cases "RunnerID rn \<in> tried")
    case True
    with Cons.prems have "try_candidates R sid rs tried pr w = ((None, tried', pr'), w')" by simp
    from Cons.IH [OF this] True show ?thesis by auto
  next
    case False
    with Cons.prems obtain e w1 where a: "assignSession R (RunnerID rn) sid w = (Inl e, w1)"
      "errors_is e ErrConditionFailed"
      "try_candidates R sid rs (insert (RunnerID rn) tried) True w1 = ((None, tried', pr'), w')"
      by (auto simp: Let_def split: prod.splits sum.splits if_splits)
    from assign_fail [OF a(1)] a(2)
    have "tabs w1 = tabs w" "\<forall>it. tab w (rkey (RunnerID rn)) = Some it \<longrightarrow> it ''idleBucket'' = None"
      by auto
    with Cons.IH [OF a(3)] False show ?thesis by auto
  qed
qed

lemma try_Some:
  "try_candidates R sid rs tried pr w = ((Some res, tried', pr'), w') \<Longrightarrow>
   (case res of
      Inr rn \<Rightarrow> tab_assigns (tableName R) sid (RunnerID rn) (tabs w) (tabs w') \<and>
        (\<exists>r \<in> set rs. rn = r\<lparr>CurrentSessionID := sid, IdleBucket := []\<rparr>)
    | Inl e \<Rightarrow> \<not> errors_is e ErrNoIdleRunner \<and>
        (tabs w' = tabs w \<or> (\<exists>i. tab_assigns (tableName R) sid i (tabs w) (tabs w'))))"
proof (induction rs arbitrary: tried pr w)
  case Nil
  then show ?case by simp
next
  case (Cons rn rs)
  show ?case
  proof (cases "RunnerID rn \<in> tried")
    case True
    with Cons.prems have "try_candidates R sid rs tried pr w = ((Some res, tried', pr'), w')" by simp
    from Cons.IH [OF this] show ?thesis by (auto split: sum.splits)
  next
    case new: False
    obtain ar w1 where call: "assignSession R (RunnerID rn) sid w = (ar, w1)" by fastforce
    show ?thesis
    proof (cases ar)
      case (Inr u)
      from assign_ok [OF call [unfolded Inr]] Cons.prems new call Inr show ?thesis
        by (auto simp: Let_def)
    next
      case (Inl e)
      note a = assign_fail [OF call [unfolded Inl]]
      show ?thesis
      proof (cases "errors_is e ErrConditionFailed")
        case True
        with a have same: "tabs w1 = tabs w" by auto
        from Cons.prems new call Inl True
        have "try_candidates R sid rs (insert (RunnerID rn) tried) True w1 = ((Some res, tried', pr'), w')"
          by (simp add: Let_def)
        from Cons.IH [OF this] same show ?thesis by (auto split: sum.splits)
      next
        case False
        with a call Inl new Cons.prems show ?thesis by (auto simp: Let_def)
      qed
    qed
  qed
qed


text \<open>One round of the outer loop: it fails, finds the bucket exhausted, acquires a runner of
  the page, or goes on from an unchanged table with more runners tried.\<close>

abbreviation page_ids :: "query_output \<Rightarrow> string set" where
  "page_ids out \<equiv> RunnerID ` runner_of ` set (out_items out)"

abbreviation idle_page :: "string \<Rightarrow> 'w \<Rightarrow> query_output \<Rightarrow> 'w \<Rightarrow> bool" where
  "idle_page b w out w1 \<equiv> Query (client R) (idle_query (tableName R) b) w = (Inr out, w1)"

lemma acquire_round:
  assumes body: "(case queryIdleBucket R b w of
        (Inl err, w1) \<Rightarrow> Some (Inl err, w1)
      | (Inr runners, w1) \<Rightarrow>
          if runners = [] then Some (Inl (Sentinel ErrNoIdleRunner), w1)
          else
            let (shuffled, w2) = shuffleFn R runners w1 in
            case try_candidates R sid shuffled tried False w2 of
              ((Some res, _, _), w3) \<Rightarrow> Some (res, w3)
            | ((None, tried', progressed), w3) \<Rightarrow>
                if \<not> progressed then Some (Inl (Sentinel ErrNoIdleRunner), w3)
                else loop R sid b tried' w3) = x"
  obtains
    (fail) e w' where "x = Some (Inl e, w')"
      "\<not> errors_is e ErrNoIdleRunner"
      "tabs w' = tabs w \<or> (\<exists>i. tab_assigns (tableName R) sid i (tabs w) (tabs w'))"
  | (exhausted) out w1 w' where
      "x = Some (Inl (Sentinel ErrNoIdleRunner), w')"
      "tabs w' = tabs w" "idle_page b w out w1" "page_ids out \<subseteq> tried"
  | (found) out w1 it w' where
      "x =
         Some (Inr ((runner_of it)\<lparr>CurrentSessionID := sid, IdleBucket := []\<rparr>), w')"
      "tab_assigns (tableName R) sid (RunnerID (runner_of it)) (tabs w) (tabs w')"
      "idle_page b w out w1" "it \<in> set (out_items out)"
  | (again) out w1 w2 where
      "x = loop R sid b (tried \<union> page_ids out) w2"
      "idle_page b w out w1" "\<not> page_ids out \<subseteq> tried" "tabs w2 = tabs w"
      "\<And>i it. i \<in> page_ids out - tried \<Longrightarrow> tab w (rkey i) = Some it \<Longrightarrow> it ''idleBucket'' = None"
proof -
  obtain qr w1 where q: "queryIdleBucket R b w = (qr, w1)" by fastforce
  from query_idle_frame [OF q] have t1: "tabs w1 = tabs w" .
  show thesis
  proof (cases qr)
    case (Inl e)
    with q have "\<not> errors_is e ErrNoIdleRunner"
      by (auto simp: queryIdleBucket_def split: prod.splits sum.splits)
    moreover have "x = Some (Inl e, w1)"
      using body by (simp add: q Inl)
    ultimately show thesis using fail t1 by blast
  next
    case (Inr rns)
    with q obtain out where out: "idle_page b w out w1" "rns = map runner_of (out_items out)"
      by (auto simp: queryIdleBucket_def split: prod.splits sum.splits dest: unmarshal_all_Inr)
    obtain rs w2 where sh: "shuffleFn R rns w1 = (rs, w2)" by fastforce
    from shuffle [OF sh] have set_rs: "set rs = set rns" and t2: "tabs w2 = tabs w"
      using t1 by (auto dest: mset_eq_setD)
    obtain res tried' pr' w3 where tc: "try_candidates R sid rs tried False w2 = ((res, tried', pr'), w3)"
      by (metis surj_pair)
    have step: "x =
        (if rns = [] then Some (Inl (Sentinel ErrNoIdleRunner), w1)
         else case res of Some r \<Rightarrow> Some (r, w3)
           | None \<Rightarrow> if \<not> pr' then Some (Inl (Sentinel ErrNoIdleRunner), w3)
                     else loop R sid b tried' w3)"
      using body by (cases "rns = []"; cases pr'; cases res) (simp_all add: q Inr sh tc)
    have ids: "RunnerID ` set rs = page_ids out" using set_rs out(2) by auto
    show thesis
    proof (cases "rns = []")
      case True
      with out step t1 exhausted [of w1 out w1] show thesis by simp
    next
      case ne: False
      show thesis
      proof (cases res)
        case None
        note t = try_None [OF tc [unfolded None], unfolded ids]
        show thesis
        proof (cases pr')
          case True
          with t t2 step ne None have "tried' = tried \<union> page_ids out" "\<not> page_ids out \<subseteq> tried"
            "tabs w3 = tabs w" "x = loop R sid b tried' w3"
            by auto
          moreover from t t2 have "it ''idleBucket'' = None"
            if "i \<in> page_ids out - tried" "tab w (rkey i) = Some it" for i it
          proof -
            from that(1) have "i \<in> (tried \<union> page_ids out) - tried" by blast
            with t t2 that(2) show ?thesis by metis
          qed
          ultimately show thesis using again [of out w3 w1] out(1) by metis
        next
          case False
          with t t2 step ne None exhausted [of w3 out w1] out(1) show thesis by simp
        qed
      next
        case (Some r)
        note t = try_Some [OF tc [unfolded Some], unfolded t2]
        from step ne Some have r: "x = Some (r, w3)" by simp
        show thesis
        proof (cases r)
          case (Inl e)
          with t r fail show thesis by simp
        next
          case (Inr rn)
          with t obtain c where "c \<in> set rs" "rn = c\<lparr>CurrentSessionID := sid, IdleBucket := []\<rparr>" by auto
          moreover from this set_rs out(2) obtain it where "it \<in> set (out_items out)" "c = runner_of it" by auto
          ultimately show thesis using t r Inr found [of it w3 out w1] out(1) by simp
        qed
      qed
    qed
  qed
qed


text \<open>The whole loop: success is one assignment of the returned runner, which was on a page of
  the index; a failure that reports an empty bucket changed nothing and had tried the whole
  page; any other failure made at most one assignment.\<close>

abbreviation not_idle :: "'w \<Rightarrow> string \<Rightarrow> bool" where
  "not_idle w i \<equiv> \<forall>it. tab w (rkey i) = Some it \<longrightarrow> it ''idleBucket'' = None"

abbreviation acquire_post :: "string \<Rightarrow> string \<Rightarrow> string set \<Rightarrow> 'w \<Rightarrow> (berr + Runner) \<Rightarrow> 'w \<Rightarrow> bool" where
  "acquire_post sid b tried w res w' \<equiv> (case res of
      Inr rn \<Rightarrow> tab_assigns (tableName R) sid (RunnerID rn) (tabs w) (tabs w') \<and>
        (\<exists>w0 out w1. tabs w0 = tabs w \<and> idle_page b w0 out w1 \<and> (\<exists>it \<in> set (out_items out).
           rn = (runner_of it)\<lparr>CurrentSessionID := sid, IdleBucket := []\<rparr>))
    | Inl e \<Rightarrow>
        errors_is e ErrNoIdleRunner \<and> tabs w' = tabs w \<and>
          (\<exists>w0 out w1. tabs w0 = tabs w \<and> idle_page b w0 out w1 \<and>
             (\<forall>i \<in> page_ids out - tried. not_idle w i))
      \<or> \<not> errors_is e ErrNoIdleRunner \<and>
          (tabs w' = tabs w \<or> (\<exists>i. tab_assigns (tableName R) sid i (tabs w) (tabs w'))))"

lemma acquire_post_again:
  assumes "acquire_post sid b (tried \<union> ids) w2 res w'" and "tabs w2 = tabs w"
    and "\<And>i. i \<in> ids - tried \<Longrightarrow> not_idle w i"
  shows "acquire_post sid b tried w res w'"
proof (cases res)
  case (Inr rn)
  with assms(1,2) show ?thesis by simp
next
  case (Inl e)
  show ?thesis
  proof (cases "errors_is e ErrNoIdleRunner")
    case True
    with assms(1,2) Inl obtain w0 out w1 where "tabs w' = tabs w" "tabs w0 = tabs w"
      "idle_page b w0 out w1" "\<forall>i \<in> page_ids out - (tried \<union> ids). not_idle w i"
      by auto
    moreover from this assms(3) have "\<forall>i \<in> page_ids out - tried. not_idle w i" by blast
    ultimately show ?thesis using True Inl by auto
  next
    case False
    with assms(1,2) Inl show ?thesis by simp
  qed
qed

lemma acquire_loop_effect:
  assumes "acquire_loop R sid b tried w = Some (res, w')"
  shows "acquire_post sid b tried w res w'"
proof -
  let ?P = "\<lambda>r s b tried w (res, w'). r = R \<longrightarrow> s = sid \<longrightarrow> acquire_post sid b tried w res w'"
  have "?P R sid b tried w (res, w')"
  proof (rule acquire_loop.raw_induct [where P = ?P, OF _ assms])
    fix f r s b tried w y
    assume IH: "\<And>r s b tried w y. f r s b tried w = Some y \<Longrightarrow> ?P r s b tried w y"
      and eq: "(case queryIdleBucket r b w of
          (Inl err, w1) \<Rightarrow> Some (Inl err, w1)
        | (Inr runners, w1) \<Rightarrow>
            if runners = [] then Some (Inl (Sentinel ErrNoIdleRunner), w1)
            else let (shuffled, w2) = shuffleFn r runners w1 in
              case try_candidates r s shuffled tried False w2 of
                ((Some res, _, _), w3) \<Rightarrow> Some (res, w3)
              | ((None, tried', progressed), w3) \<Rightarrow>
                  if \<not> progressed then Some (Inl (Sentinel ErrNoIdleRunner), w3)
                  else f r s b tried' w3) = Some y"
    obtain res w' where y: "y = (res, w')" by fastforce
    show "?P r s b tried w y"
      unfolding y prod.case
    proof (intro impI)
      assume RS: "r = R" "s = sid"
      show "acquire_post sid b tried w res w'"
      proof (rule acquire_round [where loop = f, OF eq [unfolded RS y]])
        fix out w1 w2
        assume again: "Some (res, w') = f R sid b (tried \<union> page_ids out) w2" "tabs w2 = tabs w"
          "\<And>i it. i \<in> page_ids out - tried \<Longrightarrow> tab w (rkey i) = Some it \<Longrightarrow> it ''idleBucket'' = None"
        from IH [OF again(1) [symmetric]] have "acquire_post sid b (tried \<union> page_ids out) w2 res w'"
          by simp
        then show ?thesis by (rule acquire_post_again) (use again(2,3) in blast)+
      next
        fix out w1 w3
        assume ex: "Some (res, w') = Some (Inl (Sentinel ErrNoIdleRunner), w3)" "tabs w3 = tabs w"
          "idle_page b w out w1" "page_ids out \<subseteq> tried"
        then have "\<exists>w0 out w1. tabs w0 = tabs w \<and> idle_page b w0 out w1 \<and>
            (\<forall>i \<in> page_ids out - tried. not_idle w i)" by blast
        with ex show ?thesis by simp
      qed auto
    qed
  qed
  then show ?thesis by simp
qed

text \<open>The loop ends when the runners that the index can show are finitely many, even if the
  index is stale: each round that goes on has tried a new one.\<close>

lemma acquire_loop_returns:
  assumes fin: "finite S"
    and pages: "\<And>w1 out w2. tabs w1 = tb \<Longrightarrow> idle_page b w1 out w2 \<Longrightarrow> page_ids out \<subseteq> S"
    and start: "tabs w = tb"
  shows "\<exists>y. acquire_loop R sid b tried w = Some y"
  using start
proof (induction "card (S - tried)" arbitrary: tried w rule: less_induct)
  case less
  from acquire_loop.simps [of R sid b tried w, symmetric] show ?case
  proof (rule acquire_round [where loop = acquire_loop])
    fix out w1 w2
    assume a: "acquire_loop R sid b tried w = acquire_loop R sid b (tried \<union> page_ids out) w2"
      "idle_page b w out w1" "\<not> page_ids out \<subseteq> tried" "tabs w2 = tabs w"
    from pages [OF less.prems a(2)] a(3) have "S - (tried \<union> page_ids out) \<subset> S - tried" by blast
    with fin have "card (S - (tried \<union> page_ids out)) < card (S - tried)"
      by (intro psubset_card_mono) auto
    from less.hyps [OF this] a(4) less.prems a(1) show ?thesis by simp
  qed auto
qed


section \<open>The contract holds\<close>

lemma rec_shape:
  assumes "ok w" and "recs w i = Some rn"
  shows "RunnerID rn = i \<and> IsIdle rn \<noteq> IsBusy rn"
proof -
  from assms(2) obtain it where it: "tab w (rkey i) = Some it" "rn = runner_of it"
    by (auto simp: runner_recs_def)
  from keyed [OF it(1)] have "it ''runnerId'' = Some (AS i)" by (simp add: schema)
  with it assms(1) idle_item_runner [of it] busy_item_runner [of it] show ?thesis
    by (auto simp: table_ok_def runner_of_def str_attr_def)
qed

lemma table_runnerId: "ok w \<Longrightarrow> tab w k = Some it \<Longrightarrow> it ''runnerId'' \<noteq> None"
  by (metis busy_item_def idle_item_def option.discI table_ok_def)

lemma new_runner_item:
  "b \<in> set idle_buckets \<Longrightarrow> idle_item (runner_item \<lparr>RunnerID = i, CurrentSessionID = [], IdleBucket = b, PrivateURL = url\<rparr>)"
  by (auto simp: idle_item_def runner_item_def omitempty_def dest: idle_bucket_nonempty)

lemma key_runner_item [simp]: "key_of (sc (tableName R)) (runner_item rn) = rkey (RunnerID rn)"
  by (simp add: schema runner_item_def)

lemma put_runner:
  assumes "ok w" and b: "b \<in> set idle_buckets"
    and put: "PutItem (client R) (tableName R)
      (runner_item \<lparr>RunnerID = i, CurrentSessionID = [], IdleBucket = b, PrivateURL = url\<rparr>)
      (Some (Attribute_not_exists ''runnerId'')) w = (r, w')"
  shows "ok w' \<and> (recs w' = recs w \<or> registers i url (recs w) (recs w'))"
proof -
  let ?it = "runner_item \<lparr>RunnerID = i, CurrentSessionID = [], IdleBucket = b, PrivateURL = url\<rparr>"
  consider "tabs w' = tabs w" | "tabs w' = set_item (tableName R) (rkey i) (Some ?it) (tabs w)"
      "cond_holds (Some (Attribute_not_exists ''runnerId'')) (tab w (rkey i))"
    using put_cases [OF put] by (auto simp: put_effect_def Let_def split: if_splits)
  then show ?thesis
  proof cases
    case 1
    with \<open>ok w\<close> show ?thesis by simp
  next
    case 2
    from 2(2) \<open>ok w\<close> have "tab w (rkey i) = None"
      using table_runnerId by (cases "tab w (rkey i)") fastforce+
    with 2(1) \<open>ok w\<close> new_runner_item [OF b] idle_bucket_nonempty [OF b] show ?thesis
      by (auto simp: registers_def table_ok_set runner_recs_def)
  qed
qed

lemma register_any:
  assumes "ok w" and reg: "Register R i url w = (r, w')"
  shows "ok w' \<and> (recs w' = recs w \<or> registers i url (recs w) (recs w'))"
proof (cases "url = []")
  case True
  with assms show ?thesis by (simp add: Register_def)
next
  case False
  obtain b w1 where b: "bucketFn R w = (b, w1)" by fastforce
  from bucket [OF b] have b': "b \<in> set idle_buckets" "tabs w1 = tabs w" by auto
  let ?rn = "\<lparr>RunnerID = i, CurrentSessionID = [], IdleBucket = b, PrivateURL = url\<rparr>"
  show ?thesis
  proof (cases "marshalFn R ?rn")
    case (Inl e)
    with False b b' assms show ?thesis by (auto simp: Register_def)
  next
    case (Inr it)
    note it = marshal [OF Inr]
    obtain pr w2 where put: "PutItem (client R) (tableName R) it
        (Some (Attribute_not_exists ''runnerId'')) w1 = (pr, w2)" by fastforce
    have "tabs w' = tabs w2"
      using reg False b Inr put
      by (auto simp: Register_def split: sum.splits if_splits prod.splits dest: find_by_id_frame)
    moreover from b' \<open>ok w\<close> put_runner [of w1 b i url pr w2] put it
    have "ok w2 \<and> (recs w2 = recs w \<or> registers i url (recs w) (recs w2))" by simp
    ultimately show ?thesis by simp
  qed
qed

lemma delete_any:
  assumes "ok w" and "Delete R i w = (r, w')"
  shows "ok w' \<and> (recs w' = (recs w)(i := None) \<or> (\<exists>e. r = Inl e) \<and> recs w' = recs w) \<and>
    (\<forall>e. r = Inl e \<longrightarrow> \<not> errors_is e ErrNoIdleRunner)"
proof -
  obtain dr w1 where d: "DeleteItem (client R) (tableName R) (runner_key i) w = (dr, w1)" by fastforce
  show ?thesis
  proof (cases dr)
    case (Inl e)
    with d assms delete_fail [OF d [unfolded Inl]] show ?thesis
      by (auto simp: Delete_def table_ok_del)
  next
    case (Inr u)
    with d assms delete_ok [OF d [unfolded Inr]] show ?thesis
      by (auto simp: Delete_def table_ok_del)
  qed
qed

lemma acquire_any:
  assumes "ok w" and "sid \<noteq> []" and "AcquireIdle R sid b w = Some (res, w')"
  shows "ok w' \<and> (case res of
      Inr rn \<Rightarrow> assigns sid (RunnerID rn) (recs w) (recs w')
    | Inl e \<Rightarrow> recs w' = recs w \<or> \<not> errors_is e ErrNoIdleRunner \<and> (\<exists>i. assigns sid i (recs w) (recs w')))"
  using acquire_loop_effect [OF assms(3) [unfolded AcquireIdle_def]] assms(1)
    tab_assigns_runners [OF assms(1,2)]
  by (auto split: sum.splits)

end

sublocale broker_store \<subseteq> repo: repository "dynamo_repository R" recs ok
proof unfold_locales
  fix w w' :: 'w and i url u e
  assume w: "ok w"
  show "repo_Register (dynamo_repository R) i url w = (Inr u, w') \<Longrightarrow>
    ok w' \<and> (recs w' = recs w \<or> registers i url (recs w) (recs w'))"
    and "repo_Register (dynamo_repository R) i url w = (Inl e, w') \<Longrightarrow>
    ok w' \<and> (recs w' = recs w \<or> registers i url (recs w) (recs w'))"
    using register_any [OF w] by (auto simp: dynamo_repository_def)
qed (auto simp: dynamo_repository_def rec_shape dest: acquire_any delete_any find_by_session_frame find_by_session_err
    find_by_id_frame)


section \<open>The store with current reads\<close>

locale broker_store_current =
  broker_store R tabs sc + dynamo_current "client R" tabs sc view
  for R :: "'w DynamoRepository" and tabs :: "'w \<Rightarrow> tables" and sc :: "string \<Rightarrow> string list"
    and view :: "'w \<Rightarrow> string \<Rightarrow> key_cond list \<Rightarrow> item list" +
  assumes unmarshal_stored: "idle_item it \<or> busy_item it \<Longrightarrow> unmarshalFn R it = Inr (runner_of it)"
begin

lemma stored_at:
  assumes "ok w" and "it \<in> ran (tab w)"
  shows "tab w (rkey (RunnerID (runner_of it))) = Some it \<and> (idle_item it \<or> busy_item it)"
proof -
  from assms(2) obtain k where k: "tab w k = Some it" by (auto simp: ran_def)
  with assms(1) have "idle_item it \<or> busy_item it" by (auto simp: table_ok_def)
  moreover from this have "it ''runnerId'' = Some (AS (RunnerID (runner_of it)))"
    by (auto simp: idle_item_def busy_item_def runner_of_def str_attr_def)
  moreover from keyed [OF k] have "k = [it ''runnerId'']" by (simp add: schema)
  ultimately show ?thesis using k by simp
qed

lemma finite_tab: "finite (ran (tab w))"
proof -
  have "ran (tab w) = set (view w (tableName R) [])" by (simp add: view_set)
  then show ?thesis by simp
qed

lemma finite_recs: "finite (dom (recs w))"
proof (rule finite_subset)
  show "dom (recs w) \<subseteq> (\<lambda>it. str_attr it ''runnerId'') ` ran (tab w)"
  proof
    fix i assume "i \<in> dom (recs w)"
    then obtain it where it: "tab w (rkey i) = Some it" by (auto simp: runner_recs_def)
    from keyed [OF it] it show "i \<in> (\<lambda>it. str_attr it ''runnerId'') ` ran (tab w)"
      by (auto simp: schema str_attr_def ran_def image_iff intro!: exI [of _ it] exI [of _ "rkey i"])
  qed
qed (simp add: finite_tab)

lemma find_session_found:
  assumes "ok w" and "FindBySessionID R sid w = (Inr rn, w')"
  shows "recs w (RunnerID rn) = Some rn \<and> CurrentSessionID rn = sid"
proof -
  from assms(2) obtain out w1 it rest where
    q0: "Query (client R) (session_query (tableName R) sid) w = (Inr out, w1)"
    "out_items out = it # rest" "unmarshalFn R it = Inr rn"
    by (auto simp: FindBySessionID_def split: prod.splits sum.splits list.splits)
  then have q: "Query (client R) (session_query (tableName R) sid) w = (Inr out, w1)"
    "it \<in> set (out_items out)" "unmarshalFn R it = Inr rn" by auto
  from page_items [OF q(1,2)] have it: "it \<in> ran (tab w)" "it ''currentSessionId'' = Some (AS sid)"
    by (auto simp: session_query_def)
  from stored_at [OF assms(1) it(1)] unmarshal [OF q(3)] it(2) show ?thesis
    by (auto simp: runner_recs_def runner_of_def str_attr_def)
qed

lemma find_session_none:
  assumes "ok w" and "sid \<noteq> []" and "FindBySessionID R sid w = (Inl e, w')"
    and "errors_is e ErrNotFound" and "recs w i = Some rn"
  shows "CurrentSessionID rn \<noteq> sid"
proof
  assume sid: "CurrentSessionID rn = sid"
  from assms(3,4) obtain out w1 where q: "Query (client R) (session_query (tableName R) sid) w = (Inr out, w1)"
    "out_items out = []"
    by (auto simp: FindBySessionID_def split: prod.splits sum.splits list.splits)
  from assms(5) obtain it where it: "tab w (rkey i) = Some it" "rn = runner_of it"
    by (auto simp: runner_recs_def)
  from it(2) sid have "str_attr it ''currentSessionId'' = sid" by (simp add: runner_of_def)
  with str_attr_Some [of it "''currentSessionId''"] assms(2)
  have "it ''currentSessionId'' = Some (AS sid)" by simp
  with it(1) have "it \<in> set (view w (tableName R) [Key_eq ''currentSessionId'' (AS sid)])"
    by (auto simp: view_set ran_def)
  with first_page_empty [OF q(1)] q(2) show False by (simp add: session_query_def)
qed

lemma idle_page_item:
  assumes "idle_page b w out w1" and "it \<in> set (out_items out)"
  shows "it \<in> ran (tab w) \<and> it ''idleBucket'' = Some (AS b)"
  using page_items [OF assms] by (auto simp: idle_query_def)

lemma acquire_record:
  assumes "ok w" and "AcquireIdle R sid b w = Some (Inr rn, w')"
  shows "recs w' (RunnerID rn) = Some rn"
proof -
  from acquire_loop_effect [OF assms(2) [unfolded AcquireIdle_def]]
  obtain w0 out w1 it where a: "tab_assigns (tableName R) sid (RunnerID rn) (tabs w) (tabs w')"
    "tabs w0 = tabs w" "idle_page (bucket_key b) w0 out w1" "it \<in> set (out_items out)"
    "rn = (runner_of it)\<lparr>CurrentSessionID := sid, IdleBucket := []\<rparr>" by auto
  from idle_page_item [OF a(3,4)] a(2) stored_at [OF assms(1), of it]
  have "tab w (rkey (RunnerID (runner_of it))) = Some it" by simp
  with a(1,5) show ?thesis by (auto simp: tab_assigns_def)
qed

lemma acquire_empty:
  assumes "ok w" and "AcquireIdle R sid b w = Some (Inl e, w')" and "errors_is e ErrNoIdleRunner"
    and "recs w i = Some rn"
  shows "IdleBucket rn \<noteq> bucket_key b"
proof
  assume b: "IdleBucket rn = bucket_key b"
  from acquire_loop_effect [OF assms(2) [unfolded AcquireIdle_def]] assms(3)
  obtain w0 out w1 where a: "tabs w0 = tabs w" "idle_page (bucket_key b) w0 out w1"
    "\<forall>i \<in> page_ids out. not_idle w i" by auto
  have "out_items out = []"
  proof (rule ccontr)
    assume "out_items out \<noteq> []"
    then obtain it where it: "it \<in> set (out_items out)" by (cases "out_items out") auto
    from idle_page_item [OF a(2) it] a(1) have "it \<in> ran (tab w)" "it ''idleBucket'' \<noteq> None" by auto
    moreover from a(3) it have "not_idle w (RunnerID (runner_of it))" by simp
    ultimately show False using stored_at [OF assms(1), of it] by simp
  qed
  with first_page_empty [OF a(2)]
  have "view w0 (tableName R) [Key_eq ''idleBucket'' (AS (bucket_key b))] = []"
    by (simp add: idle_query_def)
  moreover from assms(4) obtain it where it: "tab w (rkey i) = Some it" "rn = runner_of it"
    by (auto simp: runner_recs_def)
  from it(2) b have "str_attr it ''idleBucket'' = bucket_key b" by (simp add: runner_of_def)
  with str_attr_Some [of it "''idleBucket''"] have "it ''idleBucket'' = Some (AS (bucket_key b))" by simp
  then have "it \<in> set (view w0 (tableName R) [Key_eq ''idleBucket'' (AS (bucket_key b))])"
    using it(1) a(1) by (simp add: view_set ranI)
  ultimately show False by simp
qed

lemma acquire_returns: "\<exists>res. AcquireIdle R sid b w = Some res"
  unfolding AcquireIdle_def
proof (rule acquire_loop_returns)
  show "finite (RunnerID ` runner_of ` ran (tab w))" by (simp add: finite_tab)
  show "page_ids out \<subseteq> RunnerID ` runner_of ` ran (tab w)"
    if "tabs w1 = tabs w" "idle_page (bucket_key b) w1 out w2" for w1 out w2
    using idle_page_item [OF that(2)] that(1) by auto
qed simp

lemma stored_bucket:
  assumes "ok w" and "recs w i = Some rn" and "IsIdle rn"
  shows "\<exists>b < bucketCount. IdleBucket rn = bucket_key b"
proof -
  from assms(2) obtain it where it: "tab w (rkey i) = Some it" "rn = runner_of it"
    by (auto simp: runner_recs_def)
  with assms(1,3) have "idle_item it" by (auto simp: table_ok_def dest: busy_item_runner)
  with it(2) show ?thesis
    by (auto simp: idle_item_def idle_buckets_def runner_of_def str_attr_def)
qed

end

sublocale broker_store_current \<subseteq> curr: repository_current "dynamo_repository R" recs ok
proof unfold_locales
  show "IdleBucket rn \<noteq> bucket_key b"
    if "ok w" "repo_AcquireIdle (dynamo_repository R) sid b w = Some (Inl e, w')"
      "errors_is e ErrNoIdleRunner" "recs w i = Some rn" for w w' sid b e i rn
    using acquire_empty that by (simp add: dynamo_repository_def)
  show "\<exists>res. repo_AcquireIdle (dynamo_repository R) sid b w = Some res" for w sid b
    using acquire_returns by (simp add: dynamo_repository_def)
qed (auto simp: dynamo_repository_def finite_recs acquire_record stored_bucket
    dest: find_session_found find_session_none)

end
