(* ===== verification/Broker_Service.thy ===== *)
theory Broker_Service
  imports Broker_Contract
begin

text \<open>
  The broker's business logic (\<open>broker/service/service.go\<close>) over any repository that keeps the
  contract of \<open>repository\<close>: creating, resolving and closing sessions.
\<close>

section \<open>Definitions\<close>

record ResolveResult =
  SessionID :: string
  RunnerURL :: string
  Created :: bool
  Reassigned :: bool

record CreateSessionResult =
  cs_SessionID :: string
  cs_Runner :: Runner

text \<open>
  \<open>checker = None\<close> is a nil checker.  \<open>ctx_Err\<close> reads the request's context, \<open>mrand_IntN\<close> is the
  package's random source; both belong to the world.
\<close>

record 'w BrokerService =
  repo :: "'w Repository"
  checker :: "(string \<Rightarrow> 'w \<Rightarrow> (berr + unit) \<times> 'w) option"
  sessionFn :: "'w \<Rightarrow> (berr + string) \<times> 'w"
  ctx_Err :: "'w \<Rightarrow> ext_error option"
  mrand_IntN :: "nat \<Rightarrow> 'w \<Rightarrow> nat \<times> 'w"

text \<open>\<open>read_full n\<close> is \<^verbatim>\<open>io.ReadFull\<close> from the random source into \<open>n\<close> bytes.\<close>

definition defaultSessionFn :: "(nat \<Rightarrow> 'w \<Rightarrow> (ext_error + string) \<times> 'w) \<Rightarrow> 'w \<Rightarrow> (berr + string) \<times> 'w" where
  "defaultSessionFn read_full w =
     (case read_full 16 w of
        (Inl e, w1) \<Rightarrow> (Inl (Wrapf ''generate session id'' (Foreign e)), w1)
      | (Inr b, w1) \<Rightarrow> (Inr (hex_encode b), w1))"

text \<open>
  The log line before an unhealthy runner is deleted is left out: it has no effect on what follows.
  The inner \<^verbatim>\<open>for\<close> of \<open>createSession\<close> on one bucket.  \<open>Some (None, w)\<close> is the \<^verbatim>\<open>break\<close>,
  \<open>Some (Some res, w)\<close> a return; \<open>None\<close> never returns.
\<close>

partial_function (option) drain_bucket ::
  "'w BrokerService \<Rightarrow> string \<Rightarrow> nat \<Rightarrow> 'w \<Rightarrow> ((berr + CreateSessionResult) option \<times> 'w) option" where
  "drain_bucket s sessionID bucket w =
     (case repo_AcquireIdle (repo s) sessionID bucket w of
        None \<Rightarrow> None
      | Some (Inl err, w1) \<Rightarrow>
          if errors_is err ErrNoIdleRunner then Some (None, w1) else Some (Some (Inl err), w1)
      | Some (Inr runner, w1) \<Rightarrow>
          (case checker s of
             None \<Rightarrow> Some (Some (Inr \<lparr>cs_SessionID = sessionID, cs_Runner = runner\<rparr>), w1)
           | Some check \<Rightarrow>
               (case check (PrivateURL runner) w1 of
                  (Inr _, w2) \<Rightarrow> Some (Some (Inr \<lparr>cs_SessionID = sessionID, cs_Runner = runner\<rparr>), w2)
                | (Inl checkErr, w2) \<Rightarrow>
                    (case ctx_Err s w2 of
                       Some e \<Rightarrow> Some (Some (Inl (Foreign e)), w2)
                     | None \<Rightarrow>
                         (case repo_Delete (repo s) (RunnerID runner) w2 of
                            (Inl err, w3) \<Rightarrow>
                              Some (Some (Inl (Wrapf (''delete unhealthy runner '' @ RunnerID runner) err)), w3)
                          | (Inr _, w3) \<Rightarrow> drain_bucket s sessionID bucket w3)))))"

fun create_buckets :: "'w BrokerService \<Rightarrow> string \<Rightarrow> nat \<Rightarrow> nat \<Rightarrow> nat list \<Rightarrow> 'w \<Rightarrow>
    ((berr + CreateSessionResult) \<times> 'w) option" where
  "create_buckets s sessionID start bc [] w = Some (Inl (Sentinel ErrNoIdleRunner), w)"
| "create_buckets s sessionID start bc (i # is) w =
     (case drain_bucket s sessionID ((start + i) mod bc) w of
        None \<Rightarrow> None
      | Some (Some res, w1) \<Rightarrow> Some (res, w1)
      | Some (None, w1) \<Rightarrow> create_buckets s sessionID start bc is w1)"

definition createSession :: "'w BrokerService \<Rightarrow> 'w \<Rightarrow> ((berr + CreateSessionResult) \<times> 'w) option" where
  "createSession s w =
     (case sessionFn s w of
        (Inl err, w1) \<Rightarrow> Some (Inl err, w1)
      | (Inr sessionID, w1) \<Rightarrow>
          let bc = repo_BucketCount (repo s); (start, w2) = mrand_IntN s bc w1
          in create_buckets s sessionID start bc [0..<bc] w2)"

definition CloseSession :: "'w BrokerService \<Rightarrow> string \<Rightarrow> 'w \<Rightarrow> (berr + unit) \<times> 'w" where
  "CloseSession s sessionID w =
     (case repo_FindBySessionID (repo s) sessionID w of
        (Inl err, w1) \<Rightarrow> (Inl err, w1)
      | (Inr runner, w1) \<Rightarrow> repo_Delete (repo s) (RunnerID runner) w1)"

text \<open>The common tail of \<open>ResolveSession\<close>: a new session.\<close>

definition resolve_new :: "'w BrokerService \<Rightarrow> bool \<Rightarrow> 'w \<Rightarrow> ((berr + ResolveResult) \<times> 'w) option" where
  "resolve_new s reassigned w =
     (case createSession s w of
        None \<Rightarrow> None
      | Some (Inl err, w1) \<Rightarrow> Some (Inl err, w1)
      | Some (Inr result, w1) \<Rightarrow>
          Some (Inr \<lparr>SessionID = cs_SessionID result, RunnerURL = PrivateURL (cs_Runner result),
                     Created = True, Reassigned = reassigned\<rparr>, w1))"

definition ResolveSession :: "'w BrokerService \<Rightarrow> string \<Rightarrow> 'w \<Rightarrow> ((berr + ResolveResult) \<times> 'w) option" where
  "ResolveSession s sessionID w =
     (if sessionID \<noteq> [] then
        (case repo_FindBySessionID (repo s) sessionID w of
           (Inr runner, w1) \<Rightarrow>
             (let found = (\<lambda>w'. Some (Inr \<lparr>SessionID = sessionID, RunnerURL = PrivateURL runner,
                                Created = False, Reassigned = False\<rparr>, w')) in
              case checker s of
                None \<Rightarrow> found w1
              | Some check \<Rightarrow>
                  (case check (PrivateURL runner) w1 of
                     (Inr _, w2) \<Rightarrow> found w2
                   | (Inl checkErr, w2) \<Rightarrow>
                       (case ctx_Err s w2 of
                          Some e \<Rightarrow> Some (Inl (Foreign e), w2)
                        | None \<Rightarrow>
                            (case repo_Delete (repo s) (RunnerID runner) w2 of
                               (Inl err, w3) \<Rightarrow>
                                 Some (Inl (Wrapf (''delete unhealthy runner '' @ RunnerID runner) err), w3)
                             | (Inr _, w3) \<Rightarrow> resolve_new s True w3))))
         | (Inl err, w1) \<Rightarrow>
             if \<not> errors_is err ErrNotFound then Some (Inl err, w1)
             else resolve_new s False w1)
      else resolve_new s False w)"

definition RegisterRunner :: "'w BrokerService \<Rightarrow> string \<Rightarrow> string \<Rightarrow> 'w \<Rightarrow> (berr + unit) \<times> 'w" where
  "RegisterRunner s runnerID privateURL w = repo_Register (repo s) runnerID privateURL w"

definition DeregisterRunner :: "'w BrokerService \<Rightarrow> string \<Rightarrow> 'w \<Rightarrow> (berr + unit) \<times> 'w" where
  "DeregisterRunner s runnerID w = repo_Delete (repo s) runnerID w"

section \<open>What a session request may change\<close>

text \<open>The runners bound to a session.\<close>

definition bound :: "string \<Rightarrow> (string \<Rightarrow> Runner option) \<Rightarrow> string set" where
  "bound sid m = {i. \<exists>rn. m i = Some rn \<and> CurrentSessionID rn = sid}"

text \<open>Every runner is as it was, or was idle and is now bound to \<open>sid\<close> or gone.\<close>

definition rec_step :: "string \<Rightarrow> Runner option \<Rightarrow> Runner option \<Rightarrow> bool" where
  "rec_step sid x y \<longleftrightarrow> y = x \<or> (\<exists>old. x = Some old \<and> IsIdle old \<and>
     (y = None \<or> y = Some (old\<lparr>CurrentSessionID := sid, IdleBucket := []\<rparr>)))"

definition session_step :: "string \<Rightarrow> (string \<Rightarrow> Runner option) \<Rightarrow> (string \<Rightarrow> Runner option) \<Rightarrow> bool" where
  "session_step sid m m' \<longleftrightarrow> (\<forall>i. rec_step sid (m i) (m' i))"

lemma rec_step_refl [simp, intro]: "rec_step sid x x"
  by (simp add: rec_step_def)

lemma rec_step_trans: "rec_step sid x y \<Longrightarrow> rec_step sid y z \<Longrightarrow> rec_step sid x z"
  by (auto simp: rec_step_def IsIdle_def)

lemma session_step_refl [simp, intro]: "session_step sid m m"
  by (simp add: session_step_def)

lemma session_step_trans:
  "session_step sid m m' \<Longrightarrow> session_step sid m' m'' \<Longrightarrow> session_step sid m m''"
  unfolding session_step_def using rec_step_trans by blast

lemma assigns_delete_step: "assigns sid i m m' \<Longrightarrow> session_step sid m (m'(i := None))"
  unfolding assigns_def session_step_def rec_step_def by fastforce

lemma assigns_step: "assigns sid i m m' \<Longrightarrow> session_step sid m m'"
  unfolding assigns_def session_step_def rec_step_def by fastforce

lemma assigns_bound: "assigns sid i m m' \<Longrightarrow> bound sid m' = insert i (bound sid m)"
  by (auto simp: assigns_def bound_def)

lemma bound_delete: "bound sid (m(i := None)) = bound sid m - {i}"
  by (auto simp: bound_def)

text \<open>The runners of another session are not touched.\<close>

lemma session_step_busy:
  assumes "session_step sid m m'" and "m i = Some rn" and "\<not> IsIdle rn"
  shows "m' i = Some rn"
  using assms(1) [unfolded session_step_def, rule_format, of i] assms(2,3)
  by (auto simp: rec_step_def)

text \<open>Only \<open>sid\<close> gains runners.\<close>

lemma session_step_bound:
  assumes "session_step sid m m'" and "t \<noteq> sid"
  shows "bound t m' \<subseteq> bound t m"
proof
  fix i assume "i \<in> bound t m'"
  with assms(2) assms(1) [unfolded session_step_def, rule_format, of i] show "i \<in> bound t m"
    by (auto simp: bound_def rec_step_def)
qed

text \<open>No runner becomes idle.\<close>

lemma session_step_idle:
  assumes "session_step sid m m'" and "m' i = Some rn" and "IsIdle rn"
  shows "m i = Some rn"
  using assms(1) [unfolded session_step_def, rule_format, of i] assms(2,3)
  by (auto simp: rec_step_def IsIdle_def)


section \<open>The service over a repository\<close>

text \<open>
  The other members of the service object do not touch the runner table: the health check,
  the session identifiers (never empty and not in use), the context and the random numbers.
\<close>

locale broker_service = repository "repo S" recs invar
  for S :: "'w BrokerService" and recs :: "'w \<Rightarrow> string \<Rightarrow> Runner option" and invar :: "'w \<Rightarrow> bool" +
  assumes check_frame: "checker S = Some c \<Longrightarrow> c url w = (cr, w') \<Longrightarrow>
      recs w' = recs w \<and> (invar w \<longrightarrow> invar w')"
    and session_frame: "sessionFn S w = (sr, w') \<Longrightarrow> recs w' = recs w \<and> (invar w \<longrightarrow> invar w')"
    and session_nonempty: "sessionFn S w = (Inr sid, w') \<Longrightarrow> sid \<noteq> []"
    and session_fresh: "invar w \<Longrightarrow> sessionFn S w = (Inr sid, w') \<Longrightarrow> bound sid (recs w) = {}"
    and intN: "mrand_IntN S n w = (k, w') \<Longrightarrow>
      recs w' = recs w \<and> (invar w \<longrightarrow> invar w') \<and> (0 < n \<longrightarrow> k < n)"
begin

text \<open>The result of a created session: its identifier, and a runner that just answered the
  health check, if there is one.\<close>

abbreviation checked :: "string \<Rightarrow> CreateSessionResult \<Rightarrow> 'w \<Rightarrow> bool" where
  "checked sid c w' \<equiv> cs_SessionID c = sid \<and>
     (\<forall>chk. checker S = Some chk \<longrightarrow> (\<exists>w0 u. chk (PrivateURL (cs_Runner c)) w0 = (Inr u, w')))"

abbreviation drain_post :: "string \<Rightarrow> 'w \<Rightarrow> (berr + CreateSessionResult) option \<Rightarrow> 'w \<Rightarrow> bool" where
  "drain_post sid w res w' \<equiv> invar w' \<and> session_step sid (recs w) (recs w') \<and>
     (case res of
        None \<Rightarrow> bound sid (recs w) = {} \<longrightarrow> bound sid (recs w') = {}
      | Some (Inl e) \<Rightarrow> \<not> errors_is e ErrNoIdleRunner \<and>
          (bound sid (recs w) = {} \<longrightarrow> (\<exists>i. bound sid (recs w') \<subseteq> {i}))
      | Some (Inr c) \<Rightarrow> checked sid c w' \<and>
          (bound sid (recs w) = {} \<longrightarrow> bound sid (recs w') = {RunnerID (cs_Runner c)}))"

text \<open>Deleting the runner that was just acquired.\<close>

lemma delete_acquired:
  assumes "invar w2" and "assigns sid i (recs w) (recs w1)" and "recs w2 = recs w1"
    and "repo_Delete (repo S) i w2 = (Inl e, w3)"
  shows "drain_post sid w (Some (Inl (Wrapf p e))) w3"
proof -
  from delete_fail [OF assms(1,4)] assms(3)
  have "invar w3" "recs w3 = recs w1 \<or> recs w3 = (recs w1)(i := None)" "\<not> errors_is e ErrNoIdleRunner"
    by auto
  with assms(2) assigns_step [OF assms(2)] assigns_delete_step [OF assms(2)] assigns_bound [OF assms(2)]
  show ?thesis by (auto simp: bound_delete)
qed

text \<open>A round after an acquisition: it stops, with the acquired runner if it succeeds, or the
  runner was unhealthy, is deleted, and the loop goes on.\<close>

lemma settle_round:
  assumes w1: "invar w1" and acq: "assigns sid (RunnerID runner) (recs w) (recs w1)"
    and body: "(case checker S of
             None \<Rightarrow> Some (Some (Inr \<lparr>cs_SessionID = sid, cs_Runner = runner\<rparr>), w1)
           | Some check \<Rightarrow>
               (case check (PrivateURL runner) w1 of
                  (Inr _, w2) \<Rightarrow> Some (Some (Inr \<lparr>cs_SessionID = sid, cs_Runner = runner\<rparr>), w2)
                | (Inl checkErr, w2) \<Rightarrow>
                    (case ctx_Err S w2 of
                       Some e \<Rightarrow> Some (Some (Inl (Foreign e)), w2)
                     | None \<Rightarrow>
                         (case repo_Delete (repo S) (RunnerID runner) w2 of
                            (Inl err, w3) \<Rightarrow>
                              Some (Some (Inl (Wrapf (''delete unhealthy runner '' @ RunnerID runner) err)), w3)
                          | (Inr _, w3) \<Rightarrow> loop S sid b w3)))) = x"
  obtains (stop) res w' where "x = Some (Some res, w')" "drain_post sid w (Some res) w'"
      "\<And>c. res = Inr c \<Longrightarrow> cs_Runner c = runner \<and> recs w' = recs w1"
  | (again) w3 where "x = loop S sid b w3" "invar w3" "recs w3 = (recs w1)(RunnerID runner := None)"
proof -
  let ?c = "\<lparr>cs_SessionID = sid, cs_Runner = runner\<rparr>"
  note keep = assigns_step [OF acq] assigns_bound [OF acq]
  show thesis
  proof (cases "checker S")
    case None
    with keep w1 body stop [of "Inr ?c" w1] show thesis by simp
  next
    case chk: (Some chk)
    obtain cr w2 where c: "chk (PrivateURL runner) w1 = (cr, w2)" by fastforce
    from check_frame [OF chk c] w1 have c2: "recs w2 = recs w1" "invar w2" by auto
    show thesis
    proof (cases cr)
      case (Inr u)
      with chk c c2 keep body stop [of "Inr ?c" w2] show thesis by auto
    next
      case bad: (Inl ce)
      show thesis
      proof (cases "ctx_Err S w2")
        case (Some e)
        with bad chk c c2 keep body stop [of "Inl (Foreign e)" w2] show thesis by auto
      next
        case None
        obtain dr w3 where d: "repo_Delete (repo S) (RunnerID runner) w2 = (dr, w3)" by fastforce
        show thesis
        proof (cases dr)
          case (Inl de)
          from delete_acquired [OF c2(2) acq c2(1) d [unfolded Inl]] Inl None d bad chk c body
            stop [of "Inl (Wrapf (''delete unhealthy runner '' @ RunnerID runner) de)" w3]
          show thesis by simp
        next
          case (Inr u)
          from delete_ok [OF c2(2) d [unfolded Inr]] c2(1) Inr None d bad chk c body again [of w3]
          show thesis by simp
        qed
      qed
    qed
  qed
qed

lemma drain_round:
  assumes w: "invar w" and sid: "sid \<noteq> []"
    and body: "(case repo_AcquireIdle (repo S) sid b w of
        None \<Rightarrow> None
      | Some (Inl err, w1) \<Rightarrow>
          if errors_is err ErrNoIdleRunner then Some (None, w1) else Some (Some (Inl err), w1)
      | Some (Inr runner, w1) \<Rightarrow>
          (case checker S of
             None \<Rightarrow> Some (Some (Inr \<lparr>cs_SessionID = sid, cs_Runner = runner\<rparr>), w1)
           | Some check \<Rightarrow>
               (case check (PrivateURL runner) w1 of
                  (Inr _, w2) \<Rightarrow> Some (Some (Inr \<lparr>cs_SessionID = sid, cs_Runner = runner\<rparr>), w2)
                | (Inl checkErr, w2) \<Rightarrow>
                    (case ctx_Err S w2 of
                       Some e \<Rightarrow> Some (Some (Inl (Foreign e)), w2)
                     | None \<Rightarrow>
                         (case repo_Delete (repo S) (RunnerID runner) w2 of
                            (Inl err, w3) \<Rightarrow>
                              Some (Some (Inl (Wrapf (''delete unhealthy runner '' @ RunnerID runner) err)), w3)
                          | (Inr _, w3) \<Rightarrow> loop S sid b w3))))) = x"
  obtains (never) "repo_AcquireIdle (repo S) sid b w = None" "x = None"
  | (empty) e w' where "x = Some (None, w')" "recs w' = recs w" "invar w'"
      "repo_AcquireIdle (repo S) sid b w = Some (Inl e, w')" "errors_is e ErrNoIdleRunner"
  | (stop) res w' where "x = Some (Some res, w')" "drain_post sid w (Some res) w'"
      "\<And>c. res = Inr c \<Longrightarrow> \<exists>w1. repo_AcquireIdle (repo S) sid b w = Some (Inr (cs_Runner c), w1) \<and>
         recs w' = recs w1"
  | (again) rn w1 w3 where "x = loop S sid b w3" "invar w3"
      "repo_AcquireIdle (repo S) sid b w = Some (Inr rn, w1)"
      "assigns sid (RunnerID rn) (recs w) (recs w1)" "recs w3 = (recs w1)(RunnerID rn := None)"
proof (cases "repo_AcquireIdle (repo S) sid b w")
  case None
  with body never show thesis by simp
next
  case acq: (Some p)
  obtain ar w1 where p: "p = (ar, w1)" by fastforce
  show thesis
  proof (cases ar)
    case (Inl e)
    from acquire_fail [OF w sid acq [unfolded p Inl]] have f: "invar w1"
      "recs w1 = recs w \<or> \<not> errors_is e ErrNoIdleRunner \<and> (\<exists>i. assigns sid i (recs w) (recs w1))" by auto
    then have "session_step sid (recs w) (recs w1) \<and>
        (bound sid (recs w) = {} \<longrightarrow> (\<exists>i. bound sid (recs w1) \<subseteq> {i}))"
      by (auto dest: assigns_step assigns_bound)
    with f acq p Inl body empty [of w1 e] stop [of "Inl e" w1] show thesis
      by (cases "errors_is e ErrNoIdleRunner") simp_all
  next
    case (Inr rn)
    from acquire_ok [OF w sid acq [unfolded p Inr]]
    have a: "invar w1" "assigns sid (RunnerID rn) (recs w) (recs w1)" by auto
    from body acq p Inr have "(case checker S of
             None \<Rightarrow> Some (Some (Inr \<lparr>cs_SessionID = sid, cs_Runner = rn\<rparr>), w1)
           | Some check \<Rightarrow>
               (case check (PrivateURL rn) w1 of
                  (Inr _, w2) \<Rightarrow> Some (Some (Inr \<lparr>cs_SessionID = sid, cs_Runner = rn\<rparr>), w2)
                | (Inl checkErr, w2) \<Rightarrow>
                    (case ctx_Err S w2 of
                       Some e \<Rightarrow> Some (Some (Inl (Foreign e)), w2)
                     | None \<Rightarrow>
                         (case repo_Delete (repo S) (RunnerID rn) w2 of
                            (Inl err, w3) \<Rightarrow>
                              Some (Some (Inl (Wrapf (''delete unhealthy runner '' @ RunnerID rn) err)), w3)
                          | (Inr _, w3) \<Rightarrow> loop S sid b w3)))) = x" by simp
    from a this show thesis
    proof (rule settle_round [where loop = loop])
      fix res w'
      assume "x = Some (Some res, w')" "drain_post sid w (Some res) w'"
        "\<And>c. res = Inr c \<Longrightarrow> cs_Runner c = rn \<and> recs w' = recs w1"
      with acq p Inr show thesis by (intro stop [of res w']) auto
    next
      fix w3
      assume "x = loop S sid b w3" "invar w3" "recs w3 = (recs w1)(RunnerID rn := None)"
      with a(2) acq p Inr show thesis by (intro again [of w3 rn w1]) auto
    qed
  qed
qed

lemma again_step:
  assumes "assigns sid i (recs w) (recs w1)" and "recs w3 = (recs w1)(i := None)"
    and "drain_post sid w3 res w'"
  shows "drain_post sid w res w'"
proof -
  from assms(1,2) have step: "session_step sid (recs w) (recs w3)" "bound sid (recs w3) \<subseteq> bound sid (recs w)"
    by (auto simp: assigns_delete_step bound_delete assigns_bound)
  with assms(3) session_step_trans [OF step(1)]
  have "invar w' \<and> session_step sid (recs w) (recs w')" by blast
  with step(2) assms(3) show ?thesis by (auto split: option.splits sum.splits)
qed

lemma drain_effect:
  assumes "drain_bucket S sid b w = Some (res, w')" and "invar w" and "sid \<noteq> []"
  shows "drain_post sid w res w'"
proof -
  let ?P = "\<lambda>s i b w (res, w'). s = S \<longrightarrow> i = sid \<longrightarrow> invar w \<longrightarrow> drain_post sid w res w'"
  have "?P S sid b w (res, w')"
  proof (rule drain_bucket.raw_induct [where P = ?P, OF _ assms(1)])
    fix f s i b w y
    assume IH: "\<And>s i b w y. f s i b w = Some y \<Longrightarrow> ?P s i b w y"
      and eq: "(case repo_AcquireIdle (repo s) i b w of
        None \<Rightarrow> None
      | Some (Inl err, w1) \<Rightarrow>
          if errors_is err ErrNoIdleRunner then Some (None, w1) else Some (Some (Inl err), w1)
      | Some (Inr runner, w1) \<Rightarrow>
          (case checker s of
             None \<Rightarrow> Some (Some (Inr \<lparr>cs_SessionID = i, cs_Runner = runner\<rparr>), w1)
           | Some check \<Rightarrow>
               (case check (PrivateURL runner) w1 of
                  (Inr _, w2) \<Rightarrow> Some (Some (Inr \<lparr>cs_SessionID = i, cs_Runner = runner\<rparr>), w2)
                | (Inl checkErr, w2) \<Rightarrow>
                    (case ctx_Err s w2 of
                       Some e \<Rightarrow> Some (Some (Inl (Foreign e)), w2)
                     | None \<Rightarrow>
                         (case repo_Delete (repo s) (RunnerID runner) w2 of
                            (Inl err, w3) \<Rightarrow>
                              Some (Some (Inl (Wrapf (''delete unhealthy runner '' @ RunnerID runner) err)), w3)
                          | (Inr _, w3) \<Rightarrow> f s i b w3))))) = Some y"
    obtain res w' where y: "y = (res, w')" by fastforce
    show "?P s i b w y"
      unfolding y prod.case
    proof (intro impI)
      assume SI: "s = S" "i = sid" and w: "invar w"
      show "drain_post sid w res w'"
      proof (rule drain_round [where loop = f, OF w assms(3) eq [unfolded SI y]])
        fix rn w1 w3
        assume again: "Some (res, w') = f S sid b w3" "invar w3"
          "assigns sid (RunnerID rn) (recs w) (recs w1)" "recs w3 = (recs w1)(RunnerID rn := None)"
        from IH [OF again(1) [symmetric]] again(2) have "drain_post sid w3 res w'" by simp
        with again(3,4) show ?thesis by (rule again_step)
      qed auto
    qed
  qed
  with assms(2) show ?thesis by simp
qed

lemma create_buckets_effect:
  assumes "create_buckets S sid start bc is w = Some (res, w')" and "invar w" and "sid \<noteq> []"
    and "bound sid (recs w) = {}"
  shows "invar w' \<and> session_step sid (recs w) (recs w') \<and>
    (case res of
       Inl e \<Rightarrow> (\<exists>i. bound sid (recs w') \<subseteq> {i}) \<and>
         (errors_is e ErrNoIdleRunner \<longrightarrow> bound sid (recs w') = {})
     | Inr c \<Rightarrow> checked sid c w' \<and> bound sid (recs w') = {RunnerID (cs_Runner c)})"
  using assms
proof (induction "is" arbitrary: w)
  case Nil
  then show ?case by auto
next
  case (Cons i "is")
  from Cons.prems(1) obtain r w1 where d: "drain_bucket S sid ((start + i) mod bc) w = Some (r, w1)"
    by (auto split: option.splits prod.splits)
  from drain_effect [OF d Cons.prems(2,3)] have post: "drain_post sid w r w1" .
  show ?case
  proof (cases r)
    case None
    with post Cons.prems(4) have w1: "invar w1" "session_step sid (recs w) (recs w1)" "bound sid (recs w1) = {}"
      by auto
    from Cons.prems(1) d None have "create_buckets S sid start bc is w1 = Some (res, w')" by simp
    from Cons.IH [OF this w1(1) Cons.prems(3) w1(3)] session_step_trans [OF w1(2)] show ?thesis by blast
  next
    case (Some x)
    with Cons.prems d have "x = res" "w1 = w'" by auto
    with post Some Cons.prems(4) show ?thesis by (auto split: sum.splits)
  qed
qed

lemma create_buckets_general:
  assumes "create_buckets S sid start bc is w = Some (res, w')" and "invar w" and "sid \<noteq> []"
  shows "invar w' \<and> session_step sid (recs w) (recs w')"
  using assms
proof (induction "is" arbitrary: w)
  case (Cons i "is")
  from Cons.prems(1) obtain r w1 where d: "drain_bucket S sid ((start + i) mod bc) w = Some (r, w1)"
    by (auto split: option.splits prod.splits)
  from drain_effect [OF d Cons.prems(2,3)]
  have w1: "invar w1" "session_step sid (recs w) (recs w1)" by auto
  show ?case
  proof (cases r)
    case None
    with Cons.prems(1) d have "create_buckets S sid start bc is w1 = Some (res, w')" by simp
    from Cons.IH [OF this w1(1) Cons.prems(3)] session_step_trans [OF w1(2)] show ?thesis by blast
  qed (use Cons.prems d w1 in auto)
qed auto

lemmas create_buckets_invar = create_buckets_general [THEN conjunct1]
  and create_buckets_step = create_buckets_general [THEN conjunct2]

lemma create_effect:
  assumes "createSession S w = Some (res, w')" and "invar w"
  shows "invar w' \<and>
    (case res of
       Inl e \<Rightarrow> recs w' = recs w \<or> (\<exists>sid w1. sessionFn S w = (Inr sid, w1) \<and>
         session_step sid (recs w) (recs w') \<and> (\<exists>i. bound sid (recs w') \<subseteq> {i}))
     | Inr c \<Rightarrow> (\<exists>w1. sessionFn S w = (Inr (cs_SessionID c), w1)) \<and> cs_SessionID c \<noteq> [] \<and>
         session_step (cs_SessionID c) (recs w) (recs w') \<and> checked (cs_SessionID c) c w' \<and>
         bound (cs_SessionID c) (recs w') = {RunnerID (cs_Runner c)})"
proof -
  obtain sr w1 where s: "sessionFn S w = (sr, w1)" by fastforce
  from session_frame [OF s] assms(2) have w1: "recs w1 = recs w" "invar w1" by auto
  show ?thesis
  proof (cases sr)
    case (Inl e)
    with s assms(1) w1 show ?thesis by (auto simp: createSession_def)
  next
    case (Inr sid)
    note sid = session_nonempty [OF s [unfolded Inr]] and s' = s [unfolded Inr]
    obtain k w2 where k: "mrand_IntN S (repo_BucketCount (repo S)) w1 = (k, w2)" by fastforce
    from intN [OF k] w1 session_fresh [OF assms(2) s'] have w2: "recs w2 = recs w" "invar w2" "bound sid (recs w2) = {}" by auto
    from assms(1) s' k
    have c: "create_buckets S sid k (repo_BucketCount (repo S)) [0..<repo_BucketCount (repo S)] w2 = Some (res, w')"
      by (simp add: createSession_def Let_def)
    from create_buckets_effect [OF c w2(2) sid w2(3)] w2(1) s' sid show ?thesis
      by (auto split: sum.splits)
  qed
qed

end


section \<open>The service with current reads\<close>

locale broker_service_current =
  broker_service S recs invar + repository_current "repo S" recs invar
  for S :: "'w BrokerService" and recs :: "'w \<Rightarrow> string \<Rightarrow> Runner option" and invar :: "'w \<Rightarrow> bool"
begin

abbreviation idle_ids :: "'w \<Rightarrow> string set" where
  "idle_ids w \<equiv> {i. \<exists>rn. recs w i = Some rn \<and> IsIdle rn}"

lemma finite_idle: "invar w \<Longrightarrow> finite (idle_ids w)"
  by (rule finite_subset [OF _ finite_recs]) auto

text \<open>Each unhealthy runner that is deleted leaves fewer idle ones: the loop ends.\<close>

lemma drain_returns: "invar w \<Longrightarrow> sid \<noteq> [] \<Longrightarrow> \<exists>y. drain_bucket S sid b w = Some y"
proof (induction "card (idle_ids w)" arbitrary: w rule: less_induct)
  case less
  show ?case
  proof (rule drain_round [where loop = drain_bucket,
        OF less.prems drain_bucket.simps [of S sid b w, symmetric]])
    assume "repo_AcquireIdle (repo S) sid b w = None"
    with acquire_returns [OF less.prems, of b] show ?thesis by simp
  next
    fix rn w1 w3
    assume a: "drain_bucket S sid b w = drain_bucket S sid b w3" "invar w3"
      "assigns sid (RunnerID rn) (recs w) (recs w1)" "recs w3 = (recs w1)(RunnerID rn := None)"
    from a(3,4) have "idle_ids w3 \<subset> idle_ids w" by (auto simp: assigns_def split: if_splits)
    then have "card (idle_ids w3) < card (idle_ids w)"
      by (rule psubset_card_mono [OF finite_idle [OF less.prems(1)]])
    from less.hyps [OF this a(2) less.prems(2)] a(1) show ?thesis by simp
  qed auto
qed

lemma create_buckets_returns:
  "invar w \<Longrightarrow> sid \<noteq> [] \<Longrightarrow> \<exists>y. create_buckets S sid start bc is w = Some y"
proof (induction "is" arbitrary: w)
  case (Cons i "is")
  obtain r w1 where d: "drain_bucket S sid ((start + i) mod bc) w = Some (r, w1)"
    using drain_returns [OF Cons.prems] by fastforce
  from drain_effect [OF d Cons.prems] have "invar w1" by simp
  with Cons.IH [of w1] Cons.prems(2) d show ?case by (cases r) simp_all
qed simp

lemma create_returns: "invar w \<Longrightarrow> \<exists>y. createSession S w = Some y"
proof -
  assume w: "invar w"
  obtain sr w1 where s: "sessionFn S w = (sr, w1)" by fastforce
  obtain k w2 where k: "mrand_IntN S (repo_BucketCount (repo S)) w1 = (k, w2)" by fastforce
  from session_frame [OF s] intN [OF k] w have "invar w2" by simp
  show ?thesis
  proof (cases sr)
    case (Inl e)
    with s show ?thesis by (simp add: createSession_def)
  next
    case (Inr sid)
    from create_buckets_returns [OF \<open>invar w2\<close> session_nonempty [OF s [unfolded Inr]]] s k Inr
    show ?thesis by (simp add: createSession_def Let_def)
  qed
qed

text \<open>A successful call leaves the returned record in the table; an exhausted bucket is empty.\<close>

abbreviation drain_post_current :: "nat \<Rightarrow> (berr + CreateSessionResult) option \<Rightarrow> 'w \<Rightarrow> bool" where
  "drain_post_current b res w' \<equiv> (case res of
      None \<Rightarrow> \<forall>i rn. recs w' i = Some rn \<longrightarrow> IdleBucket rn \<noteq> bucket_key b
    | Some (Inl e) \<Rightarrow> True
    | Some (Inr c) \<Rightarrow> recs w' (RunnerID (cs_Runner c)) = Some (cs_Runner c))"

lemma drain_effect_current:
  assumes "drain_bucket S sid b w = Some (res, w')" and "invar w" and sid: "sid \<noteq> []"
  shows "drain_post_current b res w'"
  using assms(1,2)
proof (induction "card (idle_ids w)" arbitrary: w rule: less_induct)
  case less
  show ?case
  proof (rule drain_round [where loop = drain_bucket,
        OF less.prems(2) sid drain_bucket.simps [of S sid b w, symmetric, unfolded less.prems(1)]])
    fix e w1
    assume a: "Some (res, w') = Some (None, w1)" "recs w1 = recs w"
      "repo_AcquireIdle (repo S) sid b w = Some (Inl e, w1)" "errors_is e ErrNoIdleRunner"
    from acquire_empty [OF less.prems(2) sid a(3,4)] a(1,2) show ?thesis by simp
  next
    fix r w1
    assume "Some (res, w') = Some (Some r, w1)" and "\<And>c. r = Inr c \<Longrightarrow>
      \<exists>w2. repo_AcquireIdle (repo S) sid b w = Some (Inr (cs_Runner c), w2) \<and> recs w1 = recs w2"
    with acquire_record [OF less.prems(2) sid] show ?thesis by (cases r) fastforce+
  next
    fix rn w1 w3
    assume a: "Some (res, w') = drain_bucket S sid b w3" "invar w3"
      "assigns sid (RunnerID rn) (recs w) (recs w1)" "recs w3 = (recs w1)(RunnerID rn := None)"
    from a(3,4) have "idle_ids w3 \<subset> idle_ids w" by (auto simp: assigns_def split: if_splits)
    then have "card (idle_ids w3) < card (idle_ids w)"
      by (rule psubset_card_mono [OF finite_idle [OF less.prems(2)]])
    from less.hyps [OF this a(1) [symmetric] a(2)] show ?thesis .
  qed auto
qed


lemma create_buckets_current:
  assumes "create_buckets S sid start bc is w = Some (res, w')" and "invar w" and "sid \<noteq> []"
  shows "case res of
      Inr c \<Rightarrow> recs w' (RunnerID (cs_Runner c)) = Some (cs_Runner c)
    | Inl e \<Rightarrow> errors_is e ErrNoIdleRunner \<longrightarrow>
        (\<forall>i \<in> set is. \<forall>j rn. recs w' j = Some rn \<longrightarrow> IdleBucket rn \<noteq> bucket_key ((start + i) mod bc))"
  using assms(1,2)
proof (induction "is" arbitrary: w)
  case Nil
  then show ?case by auto
next
  case (Cons i "is")
  from Cons.prems(1) obtain r w1 where d: "drain_bucket S sid ((start + i) mod bc) w = Some (r, w1)"
    by (auto split: option.splits prod.splits)
  note post = drain_effect [OF d Cons.prems(2) assms(3)]
    drain_effect_current [OF d Cons.prems(2) assms(3)]
  show ?case
  proof (cases r)
    case (Some x)
    with Cons.prems d have "x = res" "w1 = w'" by auto
    with post Some show ?thesis by (auto split: sum.splits)
  next
    case None
    from Cons.prems(1) d None have c: "create_buckets S sid start bc is w1 = Some (res, w')" by simp
    from post(1) have w1: "invar w1" by simp
    from create_buckets_step [OF c w1 assms(3)] have step: "session_step sid (recs w1) (recs w')" .
    have "IdleBucket rn \<noteq> bucket_key ((start + i) mod bc)" if "recs w' j = Some rn" for j rn
    proof
      assume b: "IdleBucket rn = bucket_key ((start + i) mod bc)"
      then have "IsIdle rn" by (simp add: IsIdle_def)
      from session_step_idle [OF step that this] post(2) None b show False by simp
    qed
    with Cons.IH [OF c w1] show ?thesis by (auto split: sum.splits)
  qed
qed

lemma mod_shift_surj: "(start :: nat) < bc \<Longrightarrow> b < bc \<Longrightarrow> \<exists>i < bc. (start + i) mod bc = b"
  by (rule exI [of _ "if start \<le> b then b - start else b + bc - start"]) auto

text \<open>A created session returns the stored record; if there is no runner to be had, no idle
  runner is left in the table.\<close>

lemma create_effect_current:
  assumes "createSession S w = Some (res, w')" and "invar w"
  shows "case res of
      Inr c \<Rightarrow> recs w' (RunnerID (cs_Runner c)) = Some (cs_Runner c)
    | Inl e \<Rightarrow> errors_is e ErrNoIdleRunner \<longrightarrow> (\<exists>sid w1. sessionFn S w = (Inr sid, w1)) \<longrightarrow> idle_ids w' = {}"
proof -
  obtain sr w1 where s: "sessionFn S w = (sr, w1)" by fastforce
  show ?thesis
  proof (cases sr)
    case (Inl e)
    with s assms(1) show ?thesis by (auto simp: createSession_def)
  next
    case (Inr sid)
    let ?bc = "repo_BucketCount (repo S)"
    note sid = session_nonempty [OF s [unfolded Inr]]
    obtain k w2 where k: "mrand_IntN S ?bc w1 = (k, w2)" by fastforce
    from session_frame [OF s] intN [OF k] assms(2) have w2: "invar w2" "0 < ?bc \<Longrightarrow> k < ?bc" by auto
    from assms(1) s Inr k have c: "create_buckets S sid k ?bc [0..<?bc] w2 = Some (res, w')"
      by (simp add: createSession_def Let_def)
    have w': "invar w'" by (rule create_buckets_invar [OF c w2(1) sid])
    show ?thesis
    proof (cases res)
      case (Inr x)
      with create_buckets_current [OF c w2(1) sid] show ?thesis by simp
    next
      case (Inl e)
      have "idle_ids w' = {}" if e: "errors_is e ErrNoIdleRunner"
      proof (rule ccontr)
        assume "idle_ids w' \<noteq> {}"
        then obtain i rn where rn: "recs w' i = Some rn" "IsIdle rn" by blast
        from buckets [OF w' rn] obtain b where b: "b < ?bc" "IdleBucket rn = bucket_key b" by blast
        from mod_shift_surj [OF w2(2) b(1)] b(1) obtain j where "j < ?bc" "(k + j) mod ?bc = b" by auto
        with create_buckets_current [OF c w2(1) sid] Inl e rn(1) b(2) show False by auto
      qed
      with Inl show ?thesis by simp
    qed
  qed
qed


section \<open>Resolving and closing\<close>

lemma resolve_new_returns: "invar w \<Longrightarrow> \<exists>y. resolve_new S b w = Some y"
  using create_returns [of w] by (auto simp: resolve_new_def split: sum.splits)

text \<open>A bound runner that fails the health check.\<close>

lemma resolve_dead:
  assumes "invar w2" and "recs w2 = recs w"
    and f: "repo_FindBySessionID (repo S) sid w = (Inr rn, w1)" and chk: "checker S = Some chk"
    and c: "chk (PrivateURL rn) w1 = (Inl ce, w2)" and sid: "sid \<noteq> []"
  shows "(\<exists>e w'. ResolveSession S sid w = Some (Inl e, w') \<and> invar w' \<and> \<not> errors_is e ErrNoIdleRunner \<and>
      (recs w' = recs w \<or> recs w' = (recs w)(RunnerID rn := None)))
    \<or> (\<exists>w3. ResolveSession S sid w = resolve_new S True w3 \<and> invar w3 \<and>
      recs w3 = (recs w)(RunnerID rn := None))"
proof (cases "ctx_Err S w2")
  case (Some e)
  with assms show ?thesis by (simp add: ResolveSession_def)
next
  case None
  obtain dr w3 where d: "repo_Delete (repo S) (RunnerID rn) w2 = (dr, w3)" by fastforce
  show ?thesis
  proof (cases dr)
    case (Inl e)
    from delete_fail [OF assms(1) d [unfolded Inl]] assms Inl None d show ?thesis
      by (simp add: ResolveSession_def)
  next
    case (Inr u)
    from assms Inr None d have "ResolveSession S sid w = resolve_new S True w3"
      by (simp add: ResolveSession_def)
    with delete_ok [OF assms(1) d [unfolded Inr]] assms(2) show ?thesis by auto
  qed
qed

text \<open>The three ways through \<open>ResolveSession\<close>: the bound runner is healthy, an error comes
  before a new session is tried, or a new session is tried.\<close>

lemma resolve_cases:
  assumes w: "invar w"
  obtains
    (found) rn w' where "ResolveSession S sid w = Some (Inr \<lparr>SessionID = sid,
        RunnerURL = PrivateURL rn, Created = False, Reassigned = False\<rparr>, w')"
      "sid \<noteq> []" "invar w'" "recs w' = recs w" "recs w (RunnerID rn) = Some rn" "CurrentSessionID rn = sid"
      "\<And>chk. checker S = Some chk \<Longrightarrow> \<exists>w0 u. chk (PrivateURL rn) w0 = (Inr u, w')"
  | (error) e w' i where "ResolveSession S sid w = Some (Inl e, w')" "invar w'"
      "\<not> errors_is e ErrNoIdleRunner"
      "recs w' = recs w \<or> i \<in> bound sid (recs w) \<and> recs w' = (recs w)(i := None)"
  | (absent) w1 where "ResolveSession S sid w = resolve_new S False w1" "invar w1"
      "recs w1 = recs w" "sid = [] \<or> bound sid (recs w) = {}"
  | (dead) w1 i where "ResolveSession S sid w = resolve_new S True w1" "invar w1" "sid \<noteq> []"
      "i \<in> bound sid (recs w)" "recs w1 = (recs w)(i := None)"
proof (cases "sid = []")
  case True
  with w absent [of w] show thesis by (simp add: ResolveSession_def)
next
  case sid: False
  obtain fr w1 where f: "repo_FindBySessionID (repo S) sid w = (fr, w1)" by fastforce
  from find_session_frame [OF w f] have w1: "invar w1" "recs w1 = recs w" by auto
  show thesis
  proof (cases fr)
    case (Inl e)
    show thesis
    proof (cases "errors_is e ErrNotFound")
      case True
      with find_session_none [OF w sid f [unfolded Inl]] have "bound sid (recs w) = {}"
        by (auto simp: bound_def)
      with True w1 f Inl sid absent [of w1] show thesis by (simp add: ResolveSession_def)
    next
      case False
      with w1 f Inl sid find_session_err [OF f [unfolded Inl]] error [of e w1] show thesis
        by (simp add: ResolveSession_def)
    qed
  next
    case (Inr rn)
    from find_session_found [OF w f [unfolded Inr]]
    have rn: "recs w (RunnerID rn) = Some rn" "CurrentSessionID rn = sid" by auto
    then have b: "RunnerID rn \<in> bound sid (recs w)" by (auto simp: bound_def)
    show thesis
    proof (cases "checker S")
      case None
      with rn w1 f Inr sid found [of rn w1] show thesis by (simp add: ResolveSession_def)
    next
      case chk: (Some chk)
      obtain cr w2 where c: "chk (PrivateURL rn) w1 = (cr, w2)" by fastforce
      from check_frame [OF chk c] w1 have w2: "invar w2" "recs w2 = recs w" by auto
      show thesis
      proof (cases cr)
        case (Inr u)
        with rn w2 f \<open>fr = Inr rn\<close> sid chk c found [of rn w2] show thesis
          by (auto simp: ResolveSession_def)
      next
        case bad: (Inl ce)
        from resolve_dead [OF w2 f [unfolded Inr] chk c [unfolded bad] sid] show thesis
        proof (elim disjE exE conjE)
          fix w3
          assume "ResolveSession S sid w = resolve_new S True w3" "invar w3"
            "recs w3 = (recs w)(RunnerID rn := None)"
          with sid b show thesis by (intro dead [of w3 "RunnerID rn"])
        qed (use b error in blast)+
      qed
    qed
  qed
qed


lemma resolve_returns: "invar w \<Longrightarrow> \<exists>y. ResolveSession S sid w = Some y"
  by (rule resolve_cases [of w sid]) (use resolve_new_returns in metis)+

text \<open>The result of a new session, from the creation.\<close>

abbreviation answered :: "ResolveResult \<Rightarrow> 'w \<Rightarrow> bool" where
  "answered r w' \<equiv> (\<exists>i rn. bound (SessionID r) (recs w') = {i} \<and> recs w' i = Some rn \<and>
       PrivateURL rn = RunnerURL r) \<and>
     (\<forall>chk. checker S = Some chk \<longrightarrow> (\<exists>w0 u. chk (RunnerURL r) w0 = (Inr u, w')))"

lemma resolve_new_effect:
  assumes "resolve_new S b w = Some (res, w')" and w: "invar w"
  shows "invar w' \<and> (\<exists>sid. session_step sid (recs w) (recs w') \<and> bound sid (recs w) = {} \<and>
      (\<exists>i. bound sid (recs w') \<subseteq> {i}) \<and>
      (\<forall>r. res = Inr r \<longrightarrow> SessionID r = sid \<and> sid \<noteq> [] \<and> Created r \<and> Reassigned r = b \<and> answered r w'))
    \<or> recs w' = recs w \<and> invar w' \<and> (\<exists>e. res = Inl e)"
proof -
  from assms(1) obtain cr where c: "createSession S w = Some (cr, w')"
    and res: "res = (case cr of Inl e \<Rightarrow> Inl e
      | Inr c \<Rightarrow> Inr \<lparr>SessionID = cs_SessionID c, RunnerURL = PrivateURL (cs_Runner c),
                      Created = True, Reassigned = b\<rparr>)"
    by (auto simp: resolve_new_def split: option.splits prod.splits sum.splits)
  note eff = create_effect [OF c w]
  show ?thesis
  proof (cases cr)
    case (Inl e)
    with eff res show ?thesis using session_fresh [OF w] by auto
  next
    case (Inr cs)
    from create_effect_current [OF c w] Inr have "recs w' (RunnerID (cs_Runner cs)) = Some (cs_Runner cs)"
      by simp
    with eff Inr res session_fresh [OF w] show ?thesis by auto
  qed
qed


text \<open>What a resolution answers.\<close>

lemma resolve_ok:
  assumes "ResolveSession S sid w = Some (Inr r, w')" and w: "invar w"
    and uniq: "\<And>i j. i \<in> bound sid (recs w) \<Longrightarrow> j \<in> bound sid (recs w) \<Longrightarrow> i = j"
  shows "answered r w' \<and> SessionID r \<noteq> [] \<and>
    (\<not> Created r \<longrightarrow> SessionID r = sid \<and> \<not> Reassigned r \<and> recs w' = recs w) \<and>
    (Created r \<longrightarrow> (Reassigned r \<longleftrightarrow> sid \<noteq> [] \<and> bound sid (recs w) \<noteq> {}) \<and>
       (sid = [] \<or> SessionID r = sid \<or> bound sid (recs w') = {}))"
proof (rule resolve_cases [OF w, of sid])
  fix rn w1
  assume a: "ResolveSession S sid w = Some (Inr \<lparr>SessionID = sid, RunnerURL = PrivateURL rn,
      Created = False, Reassigned = False\<rparr>, w1)" "sid \<noteq> []" "recs w1 = recs w"
    "recs w (RunnerID rn) = Some rn" "CurrentSessionID rn = sid"
    "\<And>chk. checker S = Some chk \<Longrightarrow> \<exists>w0 u. chk (PrivateURL rn) w0 = (Inr u, w1)"
  from a(4,5) uniq have "bound sid (recs w) = {RunnerID rn}" by (force simp: bound_def)
  with a assms(1) show ?thesis by auto
next
  fix w1
  assume a: "ResolveSession S sid w = resolve_new S False w1" "invar w1" "recs w1 = recs w"
    "sid = [] \<or> bound sid (recs w) = {}"
  from resolve_new_effect [of False w1 "Inr r" w'] a(1,2) assms(1)
  have b: "session_step (SessionID r) (recs w1) (recs w')" "SessionID r \<noteq> []" "Created r"
    "\<not> Reassigned r" "answered r w'" by auto
  from b(1) a(3,4) session_step_bound [of "SessionID r" "recs w1" "recs w'" sid]
  have "sid = [] \<or> SessionID r = sid \<or> bound sid (recs w') = {}" by auto
  with a(4) b show ?thesis by blast
next
  fix w1 i
  assume a: "ResolveSession S sid w = resolve_new S True w1" "invar w1" "sid \<noteq> []"
    "i \<in> bound sid (recs w)" "recs w1 = (recs w)(i := None)"
  from resolve_new_effect [of True w1 "Inr r" w'] a(1,2) assms(1)
  have b: "session_step (SessionID r) (recs w1) (recs w')" "SessionID r \<noteq> []" "Created r"
    "Reassigned r" "answered r w'" by auto
  from a(4,5) uniq have "bound sid (recs w1) = {}" by (auto simp: bound_delete)
  with b(1) session_step_bound [of "SessionID r" "recs w1" "recs w'" sid]
  have "SessionID r = sid \<or> bound sid (recs w') = {}" by auto
  with a(3,4) b show ?thesis by blast
qed (use assms(1) in auto)

text \<open>Whatever it answers, runners of other sessions keep serving them, and no session gets a
  second runner.\<close>

lemma resolve_frame:
  assumes "ResolveSession S sid w = Some (res, w')" and w: "invar w"
    and rn: "recs w i = Some rn" "IsBusy rn" "CurrentSessionID rn \<noteq> sid"
  shows "recs w' i = Some rn"
proof -
  from shape [OF w rn(1)] rn(2) have ni: "\<not> IsIdle rn" by simp
  have new: "recs w' i = Some rn" if "resolve_new S b w1 = Some (res, w')" "invar w1" "recs w1 i = Some rn" for b w1
    using resolve_new_effect [OF that(1,2)] that(3) ni session_step_busy [of _ "recs w1" "recs w'" i rn] by auto
  show ?thesis
  proof (rule resolve_cases [OF w, of sid])
    fix e w1 j
    assume "ResolveSession S sid w = Some (Inl e, w1)"
      "recs w1 = recs w \<or> j \<in> bound sid (recs w) \<and> recs w1 = (recs w)(j := None)"
    with assms(1) rn show ?thesis by (auto simp: bound_def)
  next
    fix w1 assume "ResolveSession S sid w = resolve_new S False w1" "invar w1" "recs w1 = recs w"
    with new [of False w1] assms(1) rn(1) show ?thesis by simp
  next
    fix w1 j assume d: "ResolveSession S sid w = resolve_new S True w1" "invar w1"
      "j \<in> bound sid (recs w)" "recs w1 = (recs w)(j := None)"
    with rn have "j \<noteq> i" by (auto simp: bound_def)
    with d new [of True w1] assms(1) rn show ?thesis by simp
  qed (use assms(1) rn(1) in auto)
qed

lemma resolve_exhausted:
  assumes "ResolveSession S sid w = Some (Inl e, w')" and "invar w" and "errors_is e ErrNoIdleRunner"
    and "\<And>w1 e1 w2. sessionFn S w1 \<noteq> (Inl e1, w2)"
  shows "idle_ids w' = {}"
proof -
  have new: "idle_ids w' = {}" if "resolve_new S b w1 = Some (Inl e, w')" "invar w1" for b w1
  proof -
    from that(1) have c: "createSession S w1 = Some (Inl e, w')"
      by (auto simp: resolve_new_def split: option.splits prod.splits sum.splits)
    obtain sr w2 where "sessionFn S w1 = (sr, w2)" by fastforce
    with assms(4) [of w1] have "\<exists>sid w2. sessionFn S w1 = (Inr sid, w2)" by (cases sr) auto
    with create_effect_current [OF c that(2)] assms(3) show ?thesis by simp
  qed
  show ?thesis
    by (rule resolve_cases [OF assms(2), of sid]) (use new assms(1,3) in auto)
qed


lemma resolve_bound_subset:
  assumes "ResolveSession S sid w = Some (res, w')" and w: "invar w"
  shows "invar w' \<and> (\<exists>s. (\<forall>t. t \<noteq> s \<longrightarrow> bound t (recs w') \<subseteq> bound t (recs w)) \<and>
    (bound s (recs w') \<subseteq> bound s (recs w) \<or> (\<exists>i. bound s (recs w') \<subseteq> {i})))"
proof -
  have new: ?thesis if "resolve_new S b w1 = Some (res, w')" "invar w1"
    "\<And>t. bound t (recs w1) \<subseteq> bound t (recs w)" for b w1
    using resolve_new_effect [OF that(1,2)]
  proof (elim disjE conjE exE)
    fix s i
    assume s: "session_step s (recs w1) (recs w')" "bound s (recs w') \<subseteq> {i}" and w': "invar w'"
    from session_step_bound [OF s(1)] that(3) have "\<forall>t. t \<noteq> s \<longrightarrow> bound t (recs w') \<subseteq> bound t (recs w)"
      by blast
    with s(2) w' show ?thesis by blast
  qed (use that(3) in auto)
  show ?thesis
  proof (rule resolve_cases [OF w, of sid])
    fix e w1 i
    assume e: "ResolveSession S sid w = Some (Inl e, w1)" "invar w1"
      "recs w1 = recs w \<or> i \<in> bound sid (recs w) \<and> recs w1 = (recs w)(i := None)"
    from e(3) have "\<And>t. bound t (recs w1) \<subseteq> bound t (recs w)" by (auto simp: bound_delete)
    with e assms(1) show ?thesis by auto
  next
    fix w1 assume "ResolveSession S sid w = resolve_new S False w1" "invar w1" "recs w1 = recs w"
    with new [of False w1] assms(1) show ?thesis by simp
  next
    fix w1 i assume d: "ResolveSession S sid w = resolve_new S True w1" "invar w1"
      "recs w1 = (recs w)(i := None)"
    then have "\<And>t. bound t (recs w1) \<subseteq> bound t (recs w)" by (auto simp: bound_delete)
    with d new [of True w1] assms(1) show ?thesis by simp
  qed (use assms(1) in auto)
qed

text \<open>Closing deletes one runner that was bound to the session.\<close>

lemma close_cases:
  assumes "CloseSession S sid w = (res, w')" and w: "invar w"
  shows "invar w' \<and>
    (case res of
       Inr u \<Rightarrow> \<exists>i \<in> bound sid (recs w). recs w' = (recs w)(i := None)
     | Inl e \<Rightarrow> recs w' = recs w \<or> (\<exists>i \<in> bound sid (recs w). recs w' = (recs w)(i := None)))"
proof -
  obtain fr w1 where f: "repo_FindBySessionID (repo S) sid w = (fr, w1)" by fastforce
  from find_session_frame [OF w f] have w1: "invar w1" "recs w1 = recs w" by auto
  show ?thesis
  proof (cases fr)
    case (Inl e)
    with f assms(1) w1 show ?thesis by (auto simp: CloseSession_def)
  next
    case (Inr rn)
    from find_session_found [OF w f [unfolded Inr]] have b: "RunnerID rn \<in> bound sid (recs w)"
      by (auto simp: bound_def)
    from assms(1) f Inr have d: "repo_Delete (repo S) (RunnerID rn) w1 = (res, w')"
      by (simp add: CloseSession_def)
    show ?thesis
    proof (cases res)
      case (Inl e)
      with delete_fail [OF w1(1) d [unfolded Inl]] w1(2) b show ?thesis by auto
    next
      case (Inr u)
      with delete_ok [OF w1(1) d [unfolded Inr]] w1(2) b show ?thesis by auto
    qed
  qed
qed

lemma close_absent:
  assumes "CloseSession S sid w = (Inl e, w')" and "invar w" and "sid \<noteq> []" and "bound sid (recs w) = {}"
  shows "recs w' = recs w"
  using close_cases [OF assms(1,2)] assms(4) by auto

end

end
