(* ===== verification/Broker_System.thy ===== *)
theory Broker_System
  imports Broker_Repository Broker_Service
begin

text \<open>
  The broker as it is put together in \<open>broker/main.go\<close>: the service over the DynamoDB
  repository.  Its guarantees are stated for every DynamoDB client that meets the contract
  with current reads, and for any sequence of requests.
\<close>

section \<open>The composition\<close>

text \<open>
  \<open>S\<close> runs on the repository \<open>R\<close>.  The health check, the session identifiers, the context and
  the random numbers leave the tables alone; new session identifiers are not empty and not
  in use (the code draws 128 random bits).
\<close>

locale broker = broker_store_current R tabs sc view
  for R :: "'w DynamoRepository" and tabs :: "'w \<Rightarrow> tables" and sc :: "string \<Rightarrow> string list"
    and view :: "'w \<Rightarrow> string \<Rightarrow> key_cond list \<Rightarrow> item list" +
  fixes S :: "'w BrokerService"
  assumes composed: "repo S = dynamo_repository R"
    and check_tabs: "checker S = Some c \<Longrightarrow> c url w = (cr, w') \<Longrightarrow> tabs w' = tabs w"
    and session_tabs: "sessionFn S w = (sr, w') \<Longrightarrow> tabs w' = tabs w"
    and session_new: "sessionFn S w = (Inr sid, w') \<Longrightarrow>
      sid \<noteq> [] \<and> bound sid (runner_recs (tableName R) (tabs w)) = {}"
    and intN_tabs: "mrand_IntN S n w = (k, w') \<Longrightarrow> tabs w' = tabs w \<and> (0 < n \<longrightarrow> k < n)"

sublocale broker \<subseteq> svc: broker_service_current S recs ok
proof -
  have 1: "repository (repo S) recs ok"
    by (simp add: composed repo.repository_axioms)
  have 2: "repository_current (repo S) recs ok"
    by (simp add: composed curr.repository_current_axioms)
  have 3: "broker_service S recs ok"
    by (intro broker_service.intro broker_service_axioms.intro 1)
      (auto dest: check_tabs session_tabs session_new intN_tabs)
  show "broker_service_current S recs ok"
    by (intro broker_service_current.intro 2 3)
qed

section \<open>Requests as steps\<close>

text \<open>One completed request of the broker's API, whatever it answered.\<close>

inductive broker_step :: "'w BrokerService \<Rightarrow> 'w \<Rightarrow> 'w \<Rightarrow> bool" for S where
  resolve: "ResolveSession S sid w = Some (res, w') \<Longrightarrow> broker_step S w w'"
| close: "CloseSession S sid w = (cres, w') \<Longrightarrow> broker_step S w w'"
| register: "RegisterRunner S i url w = (rres, w') \<Longrightarrow> broker_step S w w'"
| deregister: "DeregisterRunner S i w = (dres, w') \<Longrightarrow> broker_step S w w'"

inductive broker_run :: "'w BrokerService \<Rightarrow> 'w \<Rightarrow> 'w \<Rightarrow> bool" for S where
  start: "broker_run S w w"
| next_request: "broker_run S w w1 \<Longrightarrow> broker_step S w1 w2 \<Longrightarrow> broker_run S w w2"

text \<open>The state invariant: every record is idle or busy, never both, under its own identifier,
  and a session has at most one runner.\<close>

definition broker_inv :: "string \<Rightarrow> tables \<Rightarrow> bool" where
  "broker_inv T tb \<longleftrightarrow> table_ok T tb \<and>
     (\<forall>sid i j. sid \<noteq> [] \<longrightarrow> i \<in> bound sid (runner_recs T tb) \<longrightarrow> j \<in> bound sid (runner_recs T tb) \<longrightarrow> i = j)"

context broker
begin

abbreviation one_runner :: "'w \<Rightarrow> bool" where
  "one_runner w \<equiv> (\<forall>sid i j. sid \<noteq> [] \<longrightarrow> i \<in> bound sid (recs w) \<longrightarrow> j \<in> bound sid (recs w) \<longrightarrow> i = j)"

lemma one_runner_subset:
  assumes "one_runner w" and "\<And>t. t \<noteq> [] \<Longrightarrow> t \<noteq> s \<Longrightarrow> bound t (recs w') \<subseteq> bound t (recs w)"
    and "bound s (recs w') \<subseteq> bound s (recs w) \<or> (\<exists>i. bound s (recs w') \<subseteq> {i})"
  shows "one_runner w'"
proof (intro allI impI)
  fix sid i j
  assume h: "sid \<noteq> []" "i \<in> bound sid (recs w')" "j \<in> bound sid (recs w')"
  show "i = j"
  proof (cases "sid = s")
    case True
    with assms(1,3) h show ?thesis by blast
  next
    case False
    with assms(1,2) h show ?thesis by blast
  qed
qed

lemma step_inv:
  assumes "broker_step S w w'" and "broker_inv (tableName R) (tabs w)"
  shows "broker_inv (tableName R) (tabs w')"
proof -
  from assms(2) have w: "ok w" and one: "one_runner w" by (auto simp: broker_inv_def)
  have delete: "ok w' \<and> one_runner w'" if "ok w'" "recs w' = recs w \<or> (\<exists>i. recs w' = (recs w)(i := None))"
  proof -
    from that(2) have "\<And>t. bound t (recs w') \<subseteq> bound t (recs w)" by (auto simp: bound_delete)
    with that(1) one show ?thesis by blast
  qed
  have "ok w' \<and> one_runner w'"
    using assms(1)
  proof (cases rule: broker_step.cases)
    case (resolve sid res)
    from svc.resolve_bound_subset [OF this w] one_runner_subset [OF one] show ?thesis by blast
  next
    case (close sid cres)
    from svc.close_cases [OF this w] have "ok w'" "recs w' = recs w \<or> (\<exists>i. recs w' = (recs w)(i := None))"
      by (auto split: sum.splits)
    then show ?thesis by (rule delete)
  next
    case (register i url rres)
    then have "Register R i url w = (rres, w')"
      by (simp add: RegisterRunner_def composed dynamo_repository_def)
    from register_any [OF w this] have "ok w'" and
      "recs w' = recs w \<or> registers i url (recs w) (recs w')" by auto
    moreover from this(2) have "bound t (recs w') \<subseteq> bound t (recs w)" if "t \<noteq> []" for t
      using that by (auto simp: registers_def bound_def split: if_splits)
    ultimately show ?thesis using one one_runner_subset [of w "[]" w'] by blast
  next
    case (deregister i dres)
    then have "Delete R i w = (dres, w')"
      by (simp add: DeregisterRunner_def composed dynamo_repository_def)
    from delete_any [OF w this] show ?thesis by (intro delete) auto
  qed
  then show ?thesis by (simp add: broker_inv_def)
qed

lemma run_inv:
  assumes "broker_run S w w'" and "broker_inv (tableName R) (tabs w)"
  shows "broker_inv (tableName R) (tabs w')"
  using assms by (induction rule: broker_run.induct) (auto intro: step_inv)

end


section \<open>An instance\<close>

text \<open>
  The broker over the in-memory client: candidates are tried in the order of the listing, the
  runner at \<^verbatim>\<open>http://dead\<close> fails its health check, and a new identifier is longer than
  every identifier in use.
\<close>

definition demo_schema :: "string \<Rightarrow> string list" where
  "demo_schema T = [''runnerId'']"

definition demo_repository :: "mem DynamoRepository" where
  "demo_repository =
     \<lparr>client = mem_client demo_schema, tableName = ''bunshin-runners'',
      bucketFn = defaultBucketFn (\<lambda>n w. (0, w)), marshalFn = (\<lambda>rn. Inr (runner_item rn)),
      unmarshalFn = (\<lambda>it. Inr (runner_of it)), shuffleFn = (\<lambda>rs w. (rs, w))\<rparr>"

definition fresh_id :: "mem \<Rightarrow> string" where
  "fresh_id w = replicate (Suc (sum_list (map (\<lambda>it. length (str_attr it ''currentSessionId''))
     (mem_items w ''bunshin-runners'')))) CHR ''s''"

definition demo_service :: "mem BrokerService" where
  "demo_service =
     \<lparr>repo = dynamo_repository demo_repository,
      checker = Some (\<lambda>url w. if url = ''http://dead'' then (Inl (Foreign (Opaque_error ''timeout'')), w)
                              else (Inr (), w)),
      sessionFn = (\<lambda>w. (Inr (fresh_id w), w)), ctx_Err = (\<lambda>w. None), mrand_IntN = (\<lambda>n w. (0, w))\<rparr>"

definition demo_world :: "Runner list \<Rightarrow> mem" where
  "demo_world rns = \<lparr>mem_items = (\<lambda>T. if T = ''bunshin-runners'' then map runner_item rns else [])\<rparr>"

lemma fresh_id_unused: "bound (fresh_id w) (runner_recs ''bunshin-runners'' (mem_tabs demo_schema w)) = {}"
proof -
  have "length (str_attr it ''currentSessionId'') < length (fresh_id w)"
    if "it \<in> set (mem_items w ''bunshin-runners'')" for it
    using member_le_sum_list [of "length (str_attr it ''currentSessionId'')"] that
    by (auto simp: fresh_id_def le_imp_less_Suc)
  then show ?thesis
    by (fastforce simp: bound_def runner_recs_def mem_tabs_def runner_of_def dest: mem_find_Some)
qed

lemma demo_store: "broker_store demo_repository (mem_tabs demo_schema) demo_schema"
proof -
  have c: "client demo_repository = mem_client demo_schema" by (simp add: demo_repository_def)
  show ?thesis
    by (intro broker_store.intro broker_store_axioms.intro, simp only: c mem_dynamo)
      (auto simp: demo_repository_def demo_schema_def defaultBucketFn_def idle_buckets_def bucketCount_def)
qed

lemma demo_broker: "broker demo_repository (mem_tabs demo_schema) demo_schema (mem_view demo_schema) demo_service"
proof -
  have c: "client demo_repository = mem_client demo_schema" by (simp add: demo_repository_def)
  have bc: "broker_store_current demo_repository (mem_tabs demo_schema) demo_schema (mem_view demo_schema)"
    by (intro broker_store_current.intro broker_store_current_axioms.intro demo_store, simp only: c mem_dynamo_current)
      (simp add: demo_repository_def)
  show ?thesis
    by (intro broker.intro broker_axioms.intro bc)
      (auto simp: demo_service_def demo_repository_def fresh_id_unused [simplified], simp_all add: fresh_id_def split: if_splits)
qed

interpretation demo: broker demo_repository "mem_tabs demo_schema" demo_schema
  "mem_view demo_schema" demo_service
  by (rule demo_broker)

end
