(* ===== verification/Broker_Instance.thy ===== *)
theory Broker_Instance
  imports Broker_System
begin

text \<open>
  How the instance of \<open>Broker_System\<close> computes: the operations of the repository act on the
  list of runners that \<open>demo_world\<close> stores, so that concrete requests evaluate by
  simplification.
\<close>

section \<open>Parts\<close>

lemma demo_parts [simp]:
  "repo demo_service = dynamo_repository demo_repository"
  "checker demo_service = Some (\<lambda>url w. if url = ''http://dead''
     then (Inl (Foreign (Opaque_error ''timeout'')), w) else (Inr (), w))"
  "sessionFn demo_service w = (Inr (fresh_id w), w)" "ctx_Err demo_service w = None"
  "mrand_IntN demo_service n w = (0, w)" "client demo_repository = mem_client demo_schema"
  "tableName demo_repository = ''bunshin-runners''"
  "marshalFn demo_repository rn = Inr (runner_item rn)"
  "unmarshalFn demo_repository it = Inr (runner_of it)"
  "shuffleFn demo_repository rs w = (rs, w)" "demo_schema T = [''runnerId'']"
  "bucketFn demo_repository w = (bucket_key 0, w)"
  by (simp_all add: demo_service_def demo_repository_def demo_schema_def defaultBucketFn_def)

lemma mem_client_parts [simp]:
  "PutItem (mem_client sc) = mem_put sc" "GetItem (mem_client sc) = mem_get sc"
  "DeleteItem (mem_client sc) = mem_delete sc" "UpdateItem (mem_client sc) = mem_update sc"
  "Query (mem_client sc) = mem_query sc" "TransactWriteItems (mem_client sc) = mem_transact sc"
  by (simp_all add: mem_client_def)

lemma repository_parts [simp]:
  "repo_Register (dynamo_repository R) = Register R"
  "repo_AcquireIdle (dynamo_repository R) = AcquireIdle R"
  "repo_BucketCount (dynamo_repository R) = bucketCount"
  "repo_FindBySessionID (dynamo_repository R) = FindBySessionID R"
  "repo_FindByID (dynamo_repository R) = FindByID R"
  "repo_Delete (dynamo_repository R) = Delete R"
  by (simp_all add: dynamo_repository_def)

section \<open>Operations on a stored list\<close>

lemma runner_item_attrs [simp]:
  "runner_item rn ''runnerId'' = Some (AS (RunnerID rn))"
  "runner_item rn ''idleBucket'' = omitempty (IdleBucket rn)"
  "runner_item rn ''currentSessionId'' = omitempty (CurrentSessionID rn)"
  by (simp_all add: runner_item_def)

lemma omitempty_is [simp]: "s \<noteq> [] \<Longrightarrow> omitempty t = Some (AS s) \<longleftrightarrow> t = s" "omitempty t = None \<longleftrightarrow> t = []"
  by (auto simp: omitempty_def)

lemma unmarshal_items [simp]: "unmarshal_all (unmarshalFn demo_repository) (map runner_item rns) = Inr rns"
  by (induction rns) simp_all

lemma listing_runners: "distinct (map RunnerID rns) \<Longrightarrow> mem_listing [''runnerId''] (map runner_item rns) = map runner_item rns"
proof (induction rns)
  case (Cons rn rns)
  then have "filter (\<lambda>x. x ''runnerId'' \<noteq> Some (AS (RunnerID rn))) (map runner_item rns) = map runner_item rns"
    by (auto simp: filter_id_conv) (metis image_eqI)
  with Cons show ?case by simp
qed simp

lemma demo_items [simp]: "mem_items (demo_world rns) ''bunshin-runners'' = map runner_item rns"
  by (simp add: demo_world_def)

lemma demo_with [simp]: "mem_with ''bunshin-runners'' (map runner_item rns') (demo_world rns) = demo_world rns'"
  by (auto simp: mem_with_def demo_world_def)

lemma demo_query_idle [simp]:
  "distinct (map RunnerID rns) \<Longrightarrow> b \<noteq> [] \<Longrightarrow>
   queryIdleBucket demo_repository b (demo_world rns) = (Inr (filter (\<lambda>rn. IdleBucket rn = b) rns), demo_world rns)"
  by (simp add: queryIdleBucket_def idle_query_def mem_query_def mem_view_def listing_runners filter_map o_def
      del: unmarshal_all.simps)

lemma demo_find_session [simp]:
  "distinct (map RunnerID rns) \<Longrightarrow> sid \<noteq> [] \<Longrightarrow>
   FindBySessionID demo_repository sid (demo_world rns) =
     (case filter (\<lambda>rn. CurrentSessionID rn = sid) rns of [] \<Rightarrow> Inl (Sentinel ErrNotFound) | rn # _ \<Rightarrow> Inr rn, demo_world rns)"
  by (simp add: FindBySessionID_def session_query_def mem_query_def mem_view_def listing_runners filter_map o_def
      split: list.split)

lemma demo_find [simp]:
  "mem_tabs demo_schema (demo_world rns) ''bunshin-runners'' [Some (AS i)] =
   map_option runner_item (find (\<lambda>rn. RunnerID rn = i) rns)"
  by (simp add: mem_tabs_def mem_find_def) (induction rns; simp)

lemma demo_recs: "runner_recs ''bunshin-runners'' (mem_tabs demo_schema (demo_world rns)) i = find (\<lambda>rn. RunnerID rn = i) rns"
  by (simp add: runner_recs_def option.map_comp o_def option.map_ident)

lemma demo_delete [simp]:
  "Delete demo_repository i (demo_world rns) = (Inr (), demo_world (filter (\<lambda>rn. RunnerID rn \<noteq> i) rns))"
  by (simp add: Delete_def mem_delete_def runner_key_def mem_drop_def filter_map o_def)

lemma assign_runner_item:
  "sid \<noteq> [] \<Longrightarrow> (runner_item rn)(''currentSessionId'' \<mapsto> AS sid, ''idleBucket'' := None) =
     runner_item (rn\<lparr>CurrentSessionID := sid, IdleBucket := []\<rparr>)"
  by (auto simp: runner_item_def omitempty_def)

lemma demo_assign [simp]:
  assumes "find (\<lambda>rn. RunnerID rn = i) rns = Some rn" and "IdleBucket rn \<noteq> []" and "sid \<noteq> []"
  shows "assignSession demo_repository i sid (demo_world rns) = (Inr (), demo_world
     (filter (\<lambda>x. RunnerID x \<noteq> i) rns @ [rn\<lparr>CurrentSessionID := sid, IdleBucket := []\<rparr>]))"
proof -
  from assms(1) have "RunnerID rn = i" by (induction rns) (auto split: if_splits)
  with assms demo_with [of "filter (\<lambda>x. RunnerID x \<noteq> i) rns @ [rn\<lparr>CurrentSessionID := sid, IdleBucket := []\<rparr>]" rns]
  show ?thesis
    by (simp add: assignSession_def mem_update_def mem_new_item_def runner_key_def Let_def mem_store_def
       assign_runner_item filter_map o_def)
qed

lemma demo_register [simp]:
  "url \<noteq> [] \<Longrightarrow> Register demo_repository i url (demo_world rns) =
     (case find (\<lambda>rn. RunnerID rn = i) rns of
        None \<Rightarrow> (Inr (), demo_world (rns @ [\<lparr>RunnerID = i, CurrentSessionID = [], IdleBucket = bucket_key 0, PrivateURL = url\<rparr>]))
      | Some rn \<Rightarrow> (if PrivateURL rn \<noteq> url then Inl (Sentinel ErrConflict) else Inr (), demo_world rns))"
proof -
  assume url: "url \<noteq> []"
  let ?rn = "\<lparr>RunnerID = i, CurrentSessionID = [], IdleBucket = bucket_key 0, PrivateURL = url\<rparr>"
  show ?thesis
  proof (cases "find (\<lambda>rn. RunnerID rn = i) rns")
    case None
    then have "filter (\<lambda>x. RunnerID x \<noteq> i) rns = rns" by (auto simp: find_None_iff filter_id_conv)
    with None url demo_with [of "rns @ [?rn]" rns] show ?thesis
      by (simp add: Register_def mem_put_def mem_store_def filter_map o_def)
  next
    case (Some rn)
    with url show ?thesis
      by (simp add: Register_def mem_put_def isConditionalCheckFailed_def FindByID_def mem_get_def runner_key_def)
  qed
qed

lemma demo_ok: "table_ok ''bunshin-runners'' (mem_tabs demo_schema (demo_world rns))" if "list_all (\<lambda>rn. (IdleBucket rn \<in> set idle_buckets \<and> CurrentSessionID rn = []) \<or> (IdleBucket rn = [] \<and> CurrentSessionID rn \<noteq> [])) rns"
proof -
  have "idle_item (runner_item rn) \<or> busy_item (runner_item rn)"
    if "(IdleBucket rn \<in> set idle_buckets \<and> CurrentSessionID rn = []) \<or> (IdleBucket rn = [] \<and> CurrentSessionID rn \<noteq> [])" for rn
    using that by (auto simp: idle_item_def busy_item_def omitempty_def dest: idle_bucket_nonempty)
  with that have "\<forall>it \<in> set (map runner_item rns). idle_item it \<or> busy_item it"
    by (auto simp: list_all_iff)
  then show ?thesis
    by (auto simp: table_ok_def mem_tabs_def dest!: mem_find_Some)
qed
section \<open>Concrete requests\<close>

text \<open>Two idle runners, one of them dead, and a runner that serves session \<^verbatim>\<open>s\<close>.\<close>

definition idle_a :: Runner where
  "idle_a = \<lparr>RunnerID = ''a'', CurrentSessionID = [], IdleBucket = bucket_key 1, PrivateURL = ''http://a''\<rparr>"
definition idle_dead :: Runner where
  "idle_dead = \<lparr>RunnerID = ''d'', CurrentSessionID = [], IdleBucket = bucket_key 0, PrivateURL = ''http://dead''\<rparr>"

lemmas eval_resolve = ResolveSession_def resolve_new_def createSession_def drain_bucket.simps [of demo_service]
  acquire_loop.simps [of demo_repository] AcquireIdle_def

lemma demo_buckets: "[0..<4] = [0, 1, 2, 3 :: nat]" by code_simp
lemma bk_eq [simp]: "a < 4 \<Longrightarrow> b < 4 \<Longrightarrow> bucket_key a = bucket_key b \<longleftrightarrow> a = b"
  by (simp add: less_Suc_eq numeral_eq_Suc bucket_key_def) (elim disjE; simp; code_simp)

lemma demo_fresh [simp]: "fresh_id (demo_world rns) = replicate (Suc (sum_list (map (\<lambda>rn. length (CurrentSessionID rn)) rns))) CHR ''s''"
proof -
  have "length (str_attr (runner_item rn) ''currentSessionId'') = length (CurrentSessionID rn)" for rn
    by (simp add: str_attr_def omitempty_def)
  then show ?thesis by (simp add: fresh_id_def o_def)
qed

lemma resolve_demo: "ResolveSession demo_service [] (demo_world [idle_dead, idle_a]) =
   Some (Inr \<lparr>SessionID = ''s'', RunnerURL = ''http://a'', Created = True, Reassigned = False\<rparr>,
     demo_world [idle_a\<lparr>CurrentSessionID := ''s'', IdleBucket := []\<rparr>])"
  by (simp add: eval_resolve demo_buckets bucketCount_def idle_a_def idle_dead_def)

definition busy_a :: Runner where
  "busy_a = idle_a\<lparr>CurrentSessionID := ''s'', IdleBucket := []\<rparr>"

lemma demo_broker_inv:
  assumes "list_all (\<lambda>rn. (IdleBucket rn \<in> set idle_buckets \<and> CurrentSessionID rn = []) \<or>
      (IdleBucket rn = [] \<and> CurrentSessionID rn \<noteq> [])) rns"
    and "\<And>x y. x \<in> set rns \<Longrightarrow> y \<in> set rns \<Longrightarrow> CurrentSessionID x = CurrentSessionID y \<Longrightarrow>
      CurrentSessionID x \<noteq> [] \<Longrightarrow> x = y"
  shows "broker_inv ''bunshin-runners'' (mem_tabs demo_schema (demo_world rns))"
proof -
  have found: "RunnerID rn = i \<and> rn \<in> set rns" if "find (\<lambda>rn. RunnerID rn = i) rns = Some rn" for i rn
    using that by (auto simp: find_Some_iff)
  have "i = j" if "sid \<noteq> []" "find (\<lambda>rn. RunnerID rn = i) rns = Some x" "CurrentSessionID x = sid"
    "find (\<lambda>rn. RunnerID rn = j) rns = Some y" "CurrentSessionID y = sid" for sid i j x y
    using found [OF that(2)] found [OF that(4)] assms(2) that(1,3,5) by metis
  with demo_ok [OF assms(1)] show ?thesis
    unfolding broker_inv_def bound_def demo_recs mem_Collect_eq by blast
qed

lemma bucket_in [simp]: "b < 4 \<Longrightarrow> bucket_key b \<in> set idle_buckets"
  by (simp add: idle_buckets_def bucketCount_def)

lemma demo_inv_idle: "broker_inv ''bunshin-runners'' (mem_tabs demo_schema (demo_world [idle_dead, idle_a]))"
  by (rule demo_broker_inv) (auto simp: idle_a_def idle_dead_def)

lemma demo_inv_busy: "broker_inv ''bunshin-runners'' (mem_tabs demo_schema (demo_world [idle_dead, busy_a]))"
  by (rule demo_broker_inv) (auto simp: busy_a_def idle_a_def idle_dead_def)

lemma close_demo: "CloseSession demo_service ''s'' (demo_world [idle_dead, busy_a]) = (Inr (), demo_world [idle_dead])"
  by (simp add: CloseSession_def busy_a_def idle_a_def idle_dead_def)

lemma resolve_demo_none:
  "ResolveSession demo_service [] (demo_world [busy_a]) = Some (Inl (Sentinel ErrNoIdleRunner), demo_world [busy_a])"
  by (simp add: eval_resolve demo_buckets bucketCount_def idle_a_def busy_a_def bucket_key_nonempty [symmetric])

text \<open>A repository whose index never catches up: it shows one idle runner for ever.\<close>

definition stale_repository :: "mem DynamoRepository" where
  "stale_repository = demo_repository\<lparr>client := (mem_client demo_schema)\<lparr>Query := (\<lambda>q w.
     (Inr \<lparr>out_items = [runner_item idle_a], out_count = 1, out_last = None\<rparr>, w))\<rparr>\<rparr>"

lemma stale_store: "broker_store stale_repository (mem_tabs demo_schema) demo_schema"
proof -
  let ?f = "\<lambda>q w. (Inr \<lparr>out_items = [runner_item idle_a], out_count = 1, out_last = None\<rparr>, w)"
  have "client stale_repository = (mem_client demo_schema)\<lparr>Query := ?f\<rparr>"
    by (simp add: stale_repository_def)
  moreover have "dynamo ((mem_client demo_schema)\<lparr>Query := ?f\<rparr>) (mem_tabs demo_schema) demo_schema"
    by (rule dynamo_query_any [OF mem_dynamo]) simp
  ultimately show ?thesis
    by (intro broker_store.intro broker_store_axioms.intro)
      (auto simp: stale_repository_def bucketCount_def)
qed

end
