(* ===== verification/Broker_Handler.thy ===== *)
theory Broker_Handler
  imports Broker_Instance
begin

text \<open>
  The HTTP side of the broker: the handlers (\<open>broker/handler/handler.go\<close>), the request
  identifier middleware (\<open>broker/handler/middleware.go\<close>), the health check
  (\<open>broker/healthcheck/checker.go\<close>), the error codes (\<open>broker/model/error.go\<close>) and the routes
  (\<open>newRouter\<close> in \<open>broker/main.go\<close>).  The web framework is a parameter: a request is what the
  framework hands to a handler, a context collects what the handler answers.
\<close>

section \<open>Requests and responses\<close>

definition CodeNoIdleRunner :: string where "CodeNoIdleRunner = ''NO_IDLE_RUNNER''"
definition CodeSessionNotFound :: string where "CodeSessionNotFound = ''SESSION_NOT_FOUND''"
definition CodeInvalidRequest :: string where "CodeInvalidRequest = ''INVALID_REQUEST''"
definition CodeInternalError :: string where "CodeInternalError = ''INTERNAL_ERROR''"

record ErrorResponse =
  Code :: string
  Message :: string
  er_RequestID :: string

record registerRequest =
  req_RunnerID :: string
  req_PrivateURL :: string

datatype resp_body = No_body | Text_body string | Json_error ErrorResponse

text \<open>
  The framework's context.  Inputs: the path parameters, the value of the \<^verbatim>\<open>runner_id\<close> cookie
  (\<open>None\<close> if there is none), the request body as bound to a \<open>registerRequest\<close> (\<open>None\<close> if the
  binding fails).  Outputs: status, headers, cookie, body; \<open>requestId\<close> is the context key the
  middleware sets.
\<close>

record gin_context =
  Param :: "string \<Rightarrow> string"
  Cookie :: "string \<Rightarrow> string option"
  BindJSON :: "registerRequest option"
  Keys :: "string \<Rightarrow> string option"
  status :: int
  resp_header :: "string \<Rightarrow> string option"
  resp_cookie :: "set_cookie option"
  resp_body :: resp_body
  aborted :: bool

definition Status :: "int \<Rightarrow> gin_context \<Rightarrow> gin_context" where
  "Status n c = c\<lparr>status := n\<rparr>"

definition Header :: "string \<Rightarrow> string \<Rightarrow> gin_context \<Rightarrow> gin_context" where
  "Header k v c = c\<lparr>resp_header := (resp_header c)(k \<mapsto> v)\<rparr>"

definition requestIDKey :: string where
  "requestIDKey = ''requestId''"

definition runnerIDCookie :: string where
  "runnerIDCookie = ''runner_id''"

definition writeError :: "int \<Rightarrow> string \<Rightarrow> string \<Rightarrow> gin_context \<Rightarrow> gin_context" where
  "writeError st code message c =
     (let rid = (case Keys c requestIDKey of None \<Rightarrow> [] | Some rid \<Rightarrow> rid) in
      c\<lparr>status := st, resp_body := Json_error \<lparr>Code = code, Message = message, er_RequestID = rid\<rparr>\<rparr>)"

section \<open>Handlers\<close>

definition DeleteSession :: "'w BrokerService \<Rightarrow> gin_context \<Rightarrow> 'w \<Rightarrow> gin_context \<times> 'w" where
  "DeleteSession svc c w =
     (case CloseSession svc (Param c ''sessionId'') w of
        (Inl err, w1) \<Rightarrow>
          if errors_is err ErrNotFound
          then (writeError 404 CodeSessionNotFound ''session not found'' c, w1)
          else (writeError 500 CodeInternalError ''failed to close session'' c, w1)
      | (Inr _, w1) \<Rightarrow> (Status 204 c, w1))"

text \<open>The answer to a resolved session; \<^verbatim>\<open>SetSameSite\<close> and \<^verbatim>\<open>SetCookie\<close> make one cookie.\<close>

definition resolve_response :: "ResolveResult \<Rightarrow> gin_context \<Rightarrow> gin_context" where
  "resolve_response result c =
     (let c1 = (if Created result
                then c\<lparr>resp_cookie := Some \<lparr>ck_name = runnerIDCookie, ck_value = SessionID result,
                       ck_maxAge = 0, ck_path = ''/'', ck_domain = [], ck_secure = True,
                       ck_httpOnly = True, ck_strict = True\<rparr>\<rparr>
                else c);
          c2 = (if Reassigned result then Header ''X-Session-Reassigned'' ''true'' c1 else c1)
      in Status 200 (Header ''X-Runner-Url'' (RunnerURL result) c2))"

definition GetResolve :: "'w BrokerService \<Rightarrow> gin_context \<Rightarrow> 'w \<Rightarrow> (gin_context \<times> 'w) option" where
  "GetResolve svc c w =
     (let sessionID = (case Cookie c runnerIDCookie of None \<Rightarrow> [] | Some v \<Rightarrow> v) in
      case ResolveSession svc sessionID w of
        None \<Rightarrow> None
      | Some (Inl err, w1) \<Rightarrow>
          Some (if errors_is err ErrNoIdleRunner
                then writeError 503 CodeNoIdleRunner ''no idle runner available'' c
                else writeError 500 CodeInternalError ''failed to resolve session'' c, w1)
      | Some (Inr result, w1) \<Rightarrow> Some (resolve_response result c, w1))"

text \<open>\<open>url_Parse\<close> is \<^verbatim>\<open>url.Parse\<close>, reduced to the scheme and the host of its result.\<close>

record url =
  Scheme :: string
  Host :: string

definition validateRunnerURL :: "(string \<Rightarrow> string + url) \<Rightarrow> string \<Rightarrow> string + unit" where
  "validateRunnerURL url_Parse rawURL =
     (case url_Parse rawURL of
        Inl err \<Rightarrow> Inl err
      | Inr u \<Rightarrow>
          if Scheme u \<noteq> ''http'' \<and> Scheme u \<noteq> ''https'' then Inl ''scheme must be http or https''
          else if Host u = [] then Inl ''host is required''
          else Inr ())"

definition PostRegister ::
  "(string \<Rightarrow> string + url) \<Rightarrow> 'w BrokerService \<Rightarrow> gin_context \<Rightarrow> 'w \<Rightarrow> gin_context \<times> 'w" where
  "PostRegister url_Parse svc c w =
     (case BindJSON c of
        None \<Rightarrow> (writeError 400 CodeInvalidRequest ''invalid request body'' c, w)
      | Some req \<Rightarrow>
          (case validateRunnerURL url_Parse (req_PrivateURL req) of
             Inl err \<Rightarrow> (writeError 400 CodeInvalidRequest (''invalid privateUrl: '' @ err) c, w)
           | Inr _ \<Rightarrow>
               (case RegisterRunner svc (req_RunnerID req) (req_PrivateURL req) w of
                  (Inl err, w1) \<Rightarrow>
                    (writeError 500 CodeInternalError ''failed to register runner'' c, w1)
                | (Inr _, w1) \<Rightarrow> (Status 201 c, w1))))"

definition DeleteRunner :: "'w BrokerService \<Rightarrow> gin_context \<Rightarrow> 'w \<Rightarrow> gin_context \<times> 'w" where
  "DeleteRunner svc c w =
     (case DeregisterRunner svc (Param c ''runnerId'') w of
        (Inl err, w1) \<Rightarrow> (writeError 500 CodeInternalError ''failed to deregister runner'' c, w1)
      | (Inr _, w1) \<Rightarrow> (Status 204 c, w1))"

section \<open>The middleware and the routes\<close>

definition defaultIDFnWithReader ::
  "(nat \<Rightarrow> 'w \<Rightarrow> (ext_error + string) \<times> 'w) \<Rightarrow> 'w \<Rightarrow> (berr + string) \<times> 'w" where
  "defaultIDFnWithReader read_full w =
     (case read_full 16 w of
        (Inl e, w1) \<Rightarrow> (Inl (Wrapf ''generate request id'' (Foreign e)), w1)
      | (Inr b, w1) \<Rightarrow> (Inr (hex_encode b), w1))"

definition DefaultIDFn :: "(nat \<Rightarrow> 'w \<Rightarrow> (ext_error + string) \<times> 'w) \<Rightarrow> 'w \<Rightarrow> (berr + string) \<times> 'w" where
  "DefaultIDFn rand_Reader = defaultIDFnWithReader rand_Reader"

text \<open>An absent \<open>idFn\<close> is nil; \<open>next_h\<close> is the rest of the handler chain, which \<^verbatim>\<open>AbortWithStatus\<close> skips.\<close>

definition RequestIDMiddleware ::
  "(nat \<Rightarrow> 'w \<Rightarrow> (ext_error + string) \<times> 'w) \<Rightarrow> ('w \<Rightarrow> (berr + string) \<times> 'w) option \<Rightarrow>
   (gin_context \<Rightarrow> 'w \<Rightarrow> (gin_context \<times> 'w) option) \<Rightarrow> gin_context \<Rightarrow> 'w \<Rightarrow> (gin_context \<times> 'w) option" where
  "RequestIDMiddleware rand_Reader idFn next_h c w =
     (let idFn1 = (case idFn of None \<Rightarrow> DefaultIDFn rand_Reader | Some f \<Rightarrow> f) in
      case idFn1 w of
        (Inl err, w1) \<Rightarrow> Some (c\<lparr>status := 500, aborted := True\<rparr>, w1)
      | (Inr i, w1) \<Rightarrow> next_h (Header ''X-Request-Id'' i (c\<lparr>Keys := (Keys c)(requestIDKey \<mapsto> i)\<rparr>)) w1)"

record 'w Handler =
  h_svc :: "'w BrokerService"

text \<open>\<open>None\<close> is the panic on a nil service.\<close>

fun NewHandler :: "'w BrokerService option \<Rightarrow> 'w Handler option" where
  "NewHandler None = None"
| "NewHandler (Some s) = Some \<lparr>h_svc = s\<rparr>"

datatype route = Health | Sessions_delete | Resolve_get | Runners_register | Runners_delete

text \<open>What is registered for a route, if anything.  \<open>/health\<close> is registered before the middleware, the other
  routes after it, and only with a handler that is not nil.\<close>

fun newRouter :: "(string \<Rightarrow> string + url) \<Rightarrow> (nat \<Rightarrow> 'w \<Rightarrow> (ext_error + string) \<times> 'w) \<Rightarrow> 'w Handler option \<Rightarrow> route \<Rightarrow>
    (gin_context \<Rightarrow> 'w \<Rightarrow> (gin_context \<times> 'w) option) option" where
  "newRouter up rand_Reader h Health =
     Some (\<lambda>c w. Some (c\<lparr>status := 200, resp_body := Text_body (''ok'' @ [CHR 0x0A])\<rparr>, w))"
| "newRouter up rand_Reader None route = None"
| "newRouter up rand_Reader (Some h) Sessions_delete =
     Some (RequestIDMiddleware rand_Reader (Some (DefaultIDFn rand_Reader)) (\<lambda>c w. Some (DeleteSession (h_svc h) c w)))"
| "newRouter up rand_Reader (Some h) Resolve_get =
     Some (RequestIDMiddleware rand_Reader (Some (DefaultIDFn rand_Reader)) (GetResolve (h_svc h)))"
| "newRouter up rand_Reader (Some h) Runners_register =
     Some (RequestIDMiddleware rand_Reader (Some (DefaultIDFn rand_Reader)) (\<lambda>c w. Some (PostRegister up (h_svc h) c w)))"
| "newRouter up rand_Reader (Some h) Runners_delete =
     Some (RequestIDMiddleware rand_Reader (Some (DefaultIDFn rand_Reader)) (\<lambda>c w. Some (DeleteRunner (h_svc h) c w)))"

section \<open>The health check\<close>

text \<open>\<open>new_request\<close> is \<^verbatim>\<open>http.NewRequestWithContext\<close> for a GET of the URL, \<open>client_Do\<close> the HTTP
  client, reduced to the status of its response.\<close>

definition Check :: "(string \<Rightarrow> ext_error + 'q) \<Rightarrow> ('q \<Rightarrow> 'w \<Rightarrow> (ext_error + int) \<times> 'w) \<Rightarrow> string \<Rightarrow> 'w \<Rightarrow>
    (berr + unit) \<times> 'w" where
  "Check new_request client_Do privateURL w =
     (case new_request (privateURL @ ''/health'') of
        Inl e \<Rightarrow> (Inl (Wrapf ''healthcheck: create request'' (Foreign e)), w)
      | Inr req \<Rightarrow>
          (case client_Do req w of
             (Inl e, w1) \<Rightarrow> (Inl (Wrapf ''healthcheck: request failed'' (Foreign e)), w1)
           | (Inr code, w1) \<Rightarrow>
               if code \<noteq> 200 then (Inl (New_error (''healthcheck: unexpected status '' @ dec_int code)), w1)
               else (Inr (), w1)))"

section \<open>The client\<close>

text \<open>The cookie that a browser holds after an exchange.\<close>

definition client_cookie :: "gin_context \<Rightarrow> gin_context \<Rightarrow> string option" where
  "client_cookie req resp = (case resp_cookie resp of Some ck \<Rightarrow> Some (ck_value ck) | None \<Rightarrow> Cookie req runnerIDCookie)"

end
