(* ===== verification/Broker_Properties.thy ===== *)
theory Broker_Properties
  imports Broker_Instance
begin

text \<open>
  The properties of the broker, each over every client, health check and random source that
  meet the hypotheses of the locales \<open>broker_store\<close> and \<open>broker\<close>, with an instance on the
  in-memory client.
\<close>

section \<open>Facts about the composed broker\<close>

text \<open>The service's lemmas at the repository of the broker.\<close>

context broker
begin

lemma broker_inv_alt: "broker_inv (tableName R) (tabs w) \<longleftrightarrow> ok w \<and> one_runner w"
  by (auto simp: broker_inv_def)

lemma resolve_answer:
  assumes "ResolveSession S sid w = Some (Inr r, w')" and "broker_inv (tableName R) (tabs w)"
  shows "svc.answered r w' \<and> SessionID r \<noteq> [] \<and>
    (\<not> Created r \<longrightarrow> SessionID r = sid \<and> \<not> Reassigned r \<and> recs w' = recs w) \<and>
    (Created r \<longrightarrow> (Reassigned r \<longleftrightarrow> sid \<noteq> [] \<and> bound sid (recs w) \<noteq> {}) \<and>
       (sid = [] \<or> SessionID r = sid \<or> bound sid (recs w') = {}))"
proof (cases "sid = []")
  case True
  from assms(2) have w: "ok w" by (simp add: broker_inv_alt)
  from True assms(1) have "resolve_new S False w = Some (Inr r, w')" by (simp add: ResolveSession_def)
  from svc.resolve_new_effect [OF this w] True show ?thesis by auto
next
  case False
  with assms(2) have w: "ok w" and
    uniq: "\<And>i j. i \<in> bound sid (recs w) \<Longrightarrow> j \<in> bound sid (recs w) \<Longrightarrow> i = j"
    by (auto simp: broker_inv_alt)
  from svc.resolve_ok [OF assms(1) w uniq] show ?thesis by simp
qed

lemma resolve_keeps_others:
  assumes "ResolveSession S sid w = Some (res, w')" and "ok w"
    and "recs w i = Some rn" and "IsBusy rn" and "CurrentSessionID rn \<noteq> sid"
  shows "recs w' i = Some rn"
  by (rule svc.resolve_frame [OF assms])

lemma resolve_total: "ok w \<Longrightarrow> \<exists>res w'. ResolveSession S sid w = Some (res, w')"
  using svc.resolve_returns by fastforce

lemma resolve_no_idle:
  assumes "ResolveSession S sid w = Some (Inl e, w')" and "ok w" and "errors_is e ErrNoIdleRunner"
    and "\<And>w1 e1 w2. sessionFn S w1 \<noteq> (Inl e1, w2)" and "recs w' i = Some rn"
  shows "\<not> IsIdle rn"
  using svc.resolve_exhausted [OF assms(1-4)] assms(5) by blast

lemma close_unbinds:
  assumes "CloseSession S sid w = (res, w')" and "broker_inv (tableName R) (tabs w)" and "sid \<noteq> []"
  shows "(case res of
       Inr u \<Rightarrow> bound sid (recs w) \<noteq> {} \<and> bound sid (recs w') = {}
     | Inl e \<Rightarrow> bound sid (recs w) = {} \<longrightarrow> recs w' = recs w) \<and>
     (\<forall>i rn. recs w i = Some rn \<longrightarrow> CurrentSessionID rn \<noteq> sid \<longrightarrow> recs w' i = Some rn)"
proof -
  from assms(2,3) have w: "ok w" and
    uniq: "\<And>i j. i \<in> bound sid (recs w) \<Longrightarrow> j \<in> bound sid (recs w) \<Longrightarrow> i = j"
    by (auto simp: broker_inv_alt)
  have del: "bound sid (recs w') = {}" if "i \<in> bound sid (recs w)" "recs w' = (recs w)(i := None)" for i
    using that uniq by (auto simp: bound_delete)
  have frame: "recs w' j = Some rn"
    if "recs w' = recs w \<or> (\<exists>i \<in> bound sid (recs w). recs w' = (recs w)(i := None))"
      "recs w j = Some rn" "CurrentSessionID rn \<noteq> sid" for j rn
    using that by (auto simp: bound_def)
  note c = svc.close_cases [OF assms(1) w]
  show ?thesis
  proof (cases res)
    case (Inl e)
    with c frame show ?thesis by auto
  next
    case (Inr u)
    with c obtain i where i: "i \<in> bound sid (recs w)" "recs w' = (recs w)(i := None)" by auto
    from frame [OF disjI2] i have "\<forall>j rn. recs w j = Some rn \<longrightarrow> CurrentSessionID rn \<noteq> sid \<longrightarrow> recs w' j = Some rn"
      by blast
    with del [OF i] i(1) Inr show ?thesis by auto
  qed
qed

end

section \<open>Registration\<close>

context broker_store
begin

lemma find_by_id_record:
  assumes "FindByID R i w = (Inr rn, w')"
  shows "recs w i = Some rn"
proof -
  from assms obtain it where g: "GetItem (client R) (tableName R) (runner_key i) True w = (Inr (Some it), w')"
    and u: "unmarshalFn R it = Inr rn"
    by (auto simp: FindByID_def split: prod.splits sum.splits option.splits)
  from get_consistent [OF g] have "tab w (rkey i) = Some it" by simp
  with unmarshal [OF u] show ?thesis by (simp add: runner_recs_def)
qed

lemma register_outcome:
  assumes "Register R i url w = (res, w')" and w: "ok w"
  shows "case res of
      Inr u \<Rightarrow> url \<noteq> [] \<and> (\<exists>rn. recs w' i = Some rn \<and> PrivateURL rn = url) \<and>
        (registers i url (recs w) (recs w') \<or> recs w' = recs w)
    | Inl e \<Rightarrow> errors_is e ErrConflict \<longrightarrow>
        recs w' = recs w \<and> (\<exists>rn. recs w i = Some rn \<and> PrivateURL rn \<noteq> url)"
proof (cases "url = []")
  case True
  with assms show ?thesis by (auto simp: Register_def)
next
  case False
  obtain b w1 where b: "bucketFn R w = (b, w1)" by fastforce
  from bucket [OF b] have t1: "tabs w1 = tabs w" by simp
  let ?rn = "\<lparr>RunnerID = i, CurrentSessionID = [], IdleBucket = b, PrivateURL = url\<rparr>"
  show ?thesis
  proof (cases "marshalFn R ?rn")
    case (Inl e)
    with False b assms show ?thesis by (auto simp: Register_def)
  next
    case (Inr it)
    note it = marshal [OF Inr]
    obtain pr w2 where put: "PutItem (client R) (tableName R) it
        (Some (Attribute_not_exists ''runnerId'')) w1 = (pr, w2)" by fastforce
    show ?thesis
    proof (cases pr)
      case (Inr u)
      with False b \<open>marshalFn R ?rn = Inr it\<close> put assms(1) have r: "res = Inr ()" "w' = w2"
        by (auto simp: Register_def)
      from put_ok [OF put [unfolded Inr]] it
      have "set_item (tableName R) (rkey i) (Some (runner_item ?rn)) (tabs w1) = tabs w2"
        by (auto simp: put_effect_def Let_def split: if_splits)
      from this [symmetric] have "recs w2 i = Some ?rn" by simp
      with r False register_any [OF w assms(1)] show ?thesis by auto
    next
      case (Inl e)
      show ?thesis
      proof (cases "e = Conditional_check_failed")
        case True
        from put_ccf [OF put [unfolded Inl True]] t1 have t2: "tabs w2 = tabs w" by simp
        obtain fr w3 where f: "FindByID R i w2 = (fr, w3)" by fastforce
        from find_by_id_frame [OF f] t2 have t3: "tabs w3 = tabs w" by simp
        show ?thesis
        proof (cases fr)
          case (Inl fe)
          have "\<not> errors_is fe ErrConflict"
            using f Inl by (auto simp: FindByID_def split: prod.splits sum.splits option.splits)
          with False b \<open>marshalFn R ?rn = Inr it\<close> put assms(1) \<open>pr = Inl e\<close> True f Inl show ?thesis
            by (auto simp: Register_def isConditionalCheckFailed_def)
        next
          case (Inr ex)
          from find_by_id_record [OF f [unfolded Inr]] t2 have "recs w i = Some ex" by simp
          with False b \<open>marshalFn R ?rn = Inr it\<close> put assms(1) \<open>pr = Inl e\<close> True f Inr t3
          show ?thesis
            by (auto simp: Register_def isConditionalCheckFailed_def split: if_splits)
        qed
      next
        case no: False
        with False b \<open>marshalFn R ?rn = Inr it\<close> put assms(1) Inl show ?thesis
          by (auto simp: Register_def isConditionalCheckFailed_def)
      qed
    qed
  qed
qed

lemma acquire_stale_returns:
  assumes "finite F"
    and "\<And>w1 out w2. tabs w1 = tabs w \<Longrightarrow>
      Query (client R) (idle_query (tableName R) (bucket_key b)) w1 = (Inr out, w2) \<Longrightarrow>
      (\<lambda>it. RunnerID (runner_of it)) ` set (out_items out) \<subseteq> F"
  shows "\<exists>y. AcquireIdle R sid b w = Some y"
  unfolding AcquireIdle_def using assms
  by (intro acquire_loop_returns [where S = F and tb = "tabs w"]) (auto simp: image_image)

end

section \<open>Properties\<close>

text \<open>C2. A session is served by one runner.  Along any sequence of requests to the broker
  (resolve, close, register, deregister, with whatever answers and storage errors), every stored
  runner is idle or busy but not both, is stored under its own identifier, and no two runners
  are bound to one session.\<close>

theorem broker_sessions_exclusive:
  assumes "broker R tabs sc view S" and "broker_run S w w'"
    and "broker_inv (tableName R) (tabs w)"
  shows "broker_inv (tableName R) (tabs w')"
  by (rule broker.run_inv [OF assms])

theorem broker_sessions_exclusive_witness:
  "broker_inv ''bunshin-runners'' (mem_tabs demo_schema (demo_world [busy_a]))"
proof -
  have "broker_run demo_service (demo_world [idle_dead, idle_a]) (demo_world [busy_a])"
    using broker_run.next_request [OF broker_run.start broker_step.resolve [OF resolve_demo]]
    by (simp add: busy_a_def)
  with broker_sessions_exclusive [OF demo_broker, of "demo_world [idle_dead, idle_a]" "demo_world [busy_a]"]
    demo_inv_idle
  show ?thesis by simp
qed

text \<open>C4. The answer of a successful resolution: exactly one runner is bound to the session that
  the answer names, its URL is the answer's, and if there is a health check the runner has just
  passed it.  An answer that is not marked as created is for the requested session and changed
  nothing; a created one is marked as reassigned exactly when the requested session had a runner
  before (which is then no longer bound to it).\<close>

theorem resolve_session_answer:
  assumes "broker R tabs sc view S" and "ResolveSession S sid w = Some (Inr r, w')"
    and "broker_inv (tableName R) (tabs w)"
  shows "(\<exists>i rn. bound (SessionID r) (runner_recs (tableName R) (tabs w')) = {i} \<and>
        runner_recs (tableName R) (tabs w') i = Some rn \<and> PrivateURL rn = RunnerURL r) \<and>
      (\<forall>chk. checker S = Some chk \<longrightarrow> (\<exists>w0 u. chk (RunnerURL r) w0 = (Inr u, w'))) \<and>
      (\<not> Created r \<longrightarrow> SessionID r = sid \<and> \<not> Reassigned r \<and>
        runner_recs (tableName R) (tabs w') = runner_recs (tableName R) (tabs w)) \<and>
      (Created r \<longrightarrow>
        (Reassigned r \<longleftrightarrow> sid \<noteq> [] \<and> bound sid (runner_recs (tableName R) (tabs w)) \<noteq> {}) \<and>
        (sid = [] \<or> SessionID r = sid \<or> bound sid (runner_recs (tableName R) (tabs w')) = {}))"
  using broker.resolve_answer [OF assms] by blast

theorem resolve_session_answer_witness:
  "\<exists>i. bound ''s'' (runner_recs ''bunshin-runners''
     (mem_tabs demo_schema (demo_world [idle_a\<lparr>CurrentSessionID := ''s'', IdleBucket := []\<rparr>]))) = {i}"
  using resolve_session_answer [OF demo_broker resolve_demo] demo_inv_idle by auto

text \<open>C5. Whatever a resolution answers, a runner that serves another session keeps serving it:
  its record is the same afterwards.\<close>

theorem resolve_session_isolation:
  assumes "broker R tabs sc view S" and "ResolveSession S sid w = Some (res, w')"
    and "table_ok (tableName R) (tabs w)"
    and "runner_recs (tableName R) (tabs w) i = Some rn" and "IsBusy rn"
    and "CurrentSessionID rn \<noteq> sid"
  shows "runner_recs (tableName R) (tabs w') i = Some rn"
  by (rule broker.resolve_keeps_others [OF assms])

theorem resolve_session_isolation_witness:
  "runner_recs ''bunshin-runners'' (mem_tabs demo_schema (demo_world [busy_a])) ''a'' = Some busy_a"
  using resolve_session_isolation [OF demo_broker resolve_demo_none, of "''a''" busy_a] demo_ok [of "[busy_a]"]
  by (simp add: demo_recs busy_a_def idle_a_def IsBusy_def)



text \<open>C7. One acquisition is one assignment.  With any reads, stale ones included: if
  \<open>AcquireIdle\<close> returns a runner, that runner was idle and is now bound to the session, and no
  other record changed; if it reports that there is no idle runner, no record changed; any other
  error left at most one assignment behind.  And it does return even when the index keeps showing runners
  that are gone or busy: it suffices that the pages draw on finitely many runners.\<close>

theorem acquire_idle_atomic:
  assumes "broker_store R tabs sc" and "table_ok (tableName R) (tabs w)" and "sid \<noteq> []"
  shows "(\<forall>res w'. AcquireIdle R sid b w = Some (res, w') \<longrightarrow> table_ok (tableName R) (tabs w') \<and>
    (case res of
      Inr rn \<Rightarrow> assigns sid (RunnerID rn) (runner_recs (tableName R) (tabs w)) (runner_recs (tableName R) (tabs w'))
    | Inl e \<Rightarrow> runner_recs (tableName R) (tabs w') = runner_recs (tableName R) (tabs w) \<or>
        \<not> errors_is e ErrNoIdleRunner \<and>
        (\<exists>i. assigns sid i (runner_recs (tableName R) (tabs w)) (runner_recs (tableName R) (tabs w'))))) \<and>
   ((\<exists>F. finite F \<and> (\<forall>w1 out w2. tabs w1 = tabs w \<longrightarrow>
      Query (client R) (idle_query (tableName R) (bucket_key b)) w1 = (Inr out, w2) \<longrightarrow>
      (\<lambda>it. RunnerID (runner_of it)) ` set (out_items out) \<subseteq> F)) \<longrightarrow>
    (\<exists>res w'. AcquireIdle R sid b w = Some (res, w')))"
proof (intro conjI allI impI)
  fix res w' assume "AcquireIdle R sid b w = Some (res, w')"
  from broker_store.acquire_any [OF assms this]
  show "table_ok (tableName R) (tabs w')" and "case res of
      Inr rn \<Rightarrow> assigns sid (RunnerID rn) (runner_recs (tableName R) (tabs w)) (runner_recs (tableName R) (tabs w'))
    | Inl e \<Rightarrow> runner_recs (tableName R) (tabs w') = runner_recs (tableName R) (tabs w) \<or>
        \<not> errors_is e ErrNoIdleRunner \<and>
        (\<exists>i. assigns sid i (runner_recs (tableName R) (tabs w)) (runner_recs (tableName R) (tabs w')))" by blast+
next
  assume "\<exists>F. finite F \<and> (\<forall>w1 out w2. tabs w1 = tabs w \<longrightarrow>
      Query (client R) (idle_query (tableName R) (bucket_key b)) w1 = (Inr out, w2) \<longrightarrow>
      (\<lambda>it. RunnerID (runner_of it)) ` set (out_items out) \<subseteq> F)"
  then obtain F where F: "finite F" "\<And>w1 out w2. tabs w1 = tabs w \<Longrightarrow>
      Query (client R) (idle_query (tableName R) (bucket_key b)) w1 = (Inr out, w2) \<Longrightarrow>
      (\<lambda>it. RunnerID (runner_of it)) ` set (out_items out) \<subseteq> F" by blast
  from broker_store.acquire_stale_returns [OF assms(1) F(1), of w b sid] F(2)
  show "\<exists>res w'. AcquireIdle R sid b w = Some (res, w')" by fastforce
qed

text \<open>A table whose index shows a busy runner as idle for ever.\<close>

theorem acquire_idle_atomic_witness:
  "\<exists>res w'. AcquireIdle stale_repository ''t'' 0 (demo_world [busy_a]) = Some (res, w') \<and>
     table_ok ''bunshin-runners'' (mem_tabs demo_schema w')"
proof -
  have ok: "table_ok (tableName stale_repository) (mem_tabs demo_schema (demo_world [busy_a]))"
    using demo_ok [of "[busy_a]"] by (simp add: stale_repository_def busy_a_def idle_a_def)
  have t: "tableName stale_repository = ''bunshin-runners''" by (simp add: stale_repository_def)
  note p = acquire_idle_atomic [OF stale_store ok, of "''t''" 0]
  have "\<exists>res w'. AcquireIdle stale_repository ''t'' 0 (demo_world [busy_a]) = Some (res, w')"
    using p by (auto intro!: exI [of _ "{''a''}"] simp: stale_repository_def idle_a_def)
  with p t show ?thesis by fastforce
qed

text \<open>Registration: success means that the runner is stored with the given URL, which is not
  empty, newly in an idle bucket or (a repeated registration) as it was; a conflict means that
  the identifier is taken with another URL, and changes nothing.\<close>

theorem register_idempotent:
  assumes "broker_store R tabs sc" and "Register R i url w = (res, w')"
    and "table_ok (tableName R) (tabs w)"
  shows "case res of
      Inr u \<Rightarrow> url \<noteq> [] \<and>
        (\<exists>rn. runner_recs (tableName R) (tabs w') i = Some rn \<and> PrivateURL rn = url) \<and>
        (registers i url (runner_recs (tableName R) (tabs w)) (runner_recs (tableName R) (tabs w')) \<or>
         runner_recs (tableName R) (tabs w') = runner_recs (tableName R) (tabs w))
    | Inl e \<Rightarrow> errors_is e ErrConflict \<longrightarrow>
        runner_recs (tableName R) (tabs w') = runner_recs (tableName R) (tabs w) \<and>
        (\<exists>rn. runner_recs (tableName R) (tabs w) i = Some rn \<and> PrivateURL rn \<noteq> url)"
  by (rule broker_store.register_outcome [OF assms])

theorem register_idempotent_witness:
  "\<exists>rn. runner_recs ''bunshin-runners'' (mem_tabs demo_schema (demo_world [idle_dead, busy_a])) ''a'' = Some rn \<and>
     PrivateURL rn \<noteq> ''http://b''"
proof -
  have "Register demo_repository ''a'' ''http://b'' (demo_world [idle_dead, busy_a]) =
    (Inl (Sentinel ErrConflict), demo_world [idle_dead, busy_a])"
    by (simp add: busy_a_def idle_a_def idle_dead_def)
  from register_idempotent [OF demo_store this] demo_inv_busy show ?thesis
    by (simp add: broker_inv_def)
qed

text \<open>C8. Closing a session: success means that it had a runner and now has none; an error for a
  session without a runner changes nothing; the runners of other sessions and the idle ones stay.\<close>

theorem close_session_unbinds:
  assumes "broker R tabs sc view S" and "CloseSession S sid w = (res, w')"
    and "broker_inv (tableName R) (tabs w)" and "sid \<noteq> []"
  shows "(case res of
       Inr u \<Rightarrow> bound sid (runner_recs (tableName R) (tabs w)) \<noteq> {} \<and>
         bound sid (runner_recs (tableName R) (tabs w')) = {}
     | Inl e \<Rightarrow> bound sid (runner_recs (tableName R) (tabs w)) = {} \<longrightarrow>
         runner_recs (tableName R) (tabs w') = runner_recs (tableName R) (tabs w)) \<and>
     (\<forall>i rn. runner_recs (tableName R) (tabs w) i = Some rn \<longrightarrow> CurrentSessionID rn \<noteq> sid \<longrightarrow>
        runner_recs (tableName R) (tabs w') i = Some rn)"
  by (rule broker.close_unbinds [OF assms])

theorem close_session_unbinds_witness:
  "bound ''s'' (runner_recs ''bunshin-runners'' (mem_tabs demo_schema (demo_world [idle_dead]))) = {}"
  using close_session_unbinds [OF demo_broker close_demo] demo_inv_busy by simp

section \<open>A limit of the service\<close>

text \<open>A request whose context ends during the health check of the runner that it has just acquired: the
  check fails, whatever the state of the runner.\<close>

definition hasty_service :: "mem BrokerService" where
  "hasty_service = demo_service\<lparr>checker := Some (\<lambda>url w. (Inl (Foreign (Opaque_error ''canceled'')), w)),
     ctx_Err := (\<lambda>w. Some (Opaque_error ''canceled''))\<rparr>"

lemma hasty_parts [simp]:
  "repo hasty_service = dynamo_repository demo_repository" "sessionFn hasty_service w = (Inr (fresh_id w), w)"
  "checker hasty_service = Some (\<lambda>url w. (Inl (Foreign (Opaque_error ''canceled'')), w))"
  "ctx_Err hasty_service w = Some (Opaque_error ''canceled'')" "mrand_IntN hasty_service n w = (0, w)"
  by (simp_all add: hasty_service_def demo_service_def)

end
