(* ===== verification/Broker_Http_Properties.thy ===== *)
theory Broker_Http_Properties
  imports Broker_Handler Broker_Properties
begin

text \<open>
  The properties of the broker's HTTP handlers.
\<close>

section \<open>Facts\<close>

definition demo_request :: "string option \<Rightarrow> gin_context" where
  "demo_request ck = \<lparr>Param = (\<lambda>_. []), Cookie = Map.empty(runnerIDCookie := ck),
     BindJSON = None, Keys = Map.empty, status = 200, resp_header = Map.empty, resp_cookie = None,
     resp_body = No_body, aborted = False\<rparr>"

context broker
begin

text \<open>Without outages the session's runner is found.\<close>

lemma find_session_up:
  assumes up: "dynamo_up (client R) tabs sc view" and w: "ok w" and sid: "sid \<noteq> []"
    and b: "bound sid (recs w) = {i}" and rn: "recs w i = Some rn"
  shows "\<exists>w'. FindBySessionID R sid w = (Inr rn, w') \<and> tabs w' = tabs w"
proof -
  obtain res w' where f: "FindBySessionID R sid w = (res, w')" by fastforce
  obtain out w1 where q: "Query (client R) (session_query (tableName R) sid) w = (Inr out, w1)"
    using dynamo_up.query_up [OF up, of "session_query (tableName R) sid" w] by (auto simp: session_query_def)
  from b have "i \<in> bound sid (recs w)" by simp
  with rn have cur: "CurrentSessionID rn = sid" by (auto simp: bound_def)
  show ?thesis
  proof (cases res)
    case (Inl e)
    show ?thesis
    proof (cases "out_items out")
      case Nil
      with f q Inl have "errors_is e ErrNotFound" by (auto simp: FindBySessionID_def)
      with find_session_none [OF w sid f [unfolded Inl] _ rn] cur show ?thesis by simp
    next
      case (Cons it rest)
      with page_items [OF q] have "it \<in> ran (tab w)" by (simp add: session_query_def)
      with stored_at [OF w] unmarshal_stored Cons f q Inl show ?thesis
        by (auto simp: FindBySessionID_def split: sum.splits)
    qed
  next
    case (Inr rn')
    from find_session_found [OF w f [unfolded Inr]] have r: "recs w (RunnerID rn') = Some rn'" "CurrentSessionID rn' = sid" by auto
    then have "RunnerID rn' \<in> bound sid (recs w)" by (auto simp: bound_def)
    with b r(1) rn have "rn' = rn" by simp
    with Inr f find_by_session_frame [OF f] show ?thesis by simp
  qed
qed

lemma resolve_again:
  assumes up: "dynamo_up (client R) tabs sc view" and "ok w" and "sid \<noteq> []"
    and "bound sid (recs w) = {i}" and "recs w i = Some rn"
    and well: "\<And>chk w0. checker S = Some chk \<Longrightarrow> \<exists>w1. chk (PrivateURL rn) w0 = (Inr (), w1)"
  shows "\<exists>w'. ResolveSession S sid w = Some (Inr \<lparr>SessionID = sid, RunnerURL = PrivateURL rn,
      Created = False, Reassigned = False\<rparr>, w') \<and> tabs w' = tabs w"
proof -
  from find_session_up [OF assms(1-5)] obtain w1 where
    f: "repo_FindBySessionID (repo S) sid w = (Inr rn, w1)" "tabs w1 = tabs w"
    by (auto simp: composed dynamo_repository_def)
  show ?thesis
  proof (cases "checker S")
    case None
    with f assms(3) show ?thesis by (simp add: ResolveSession_def)
  next
    case (Some chk)
    from well [OF Some] obtain w2 where c: "chk (PrivateURL rn) w1 = (Inr (), w2)" by blast
    with check_tabs [OF Some c] Some f assms(3) show ?thesis by (simp add: ResolveSession_def)
  qed
qed

lemma get_resolve_ok:
  assumes "GetResolve S c w = Some (c', w')" and "status c' = 200" and "resp_cookie c = None"
    and inv: "broker_inv (tableName R) (tabs w)"
  obtains sid i rn where "client_cookie c c' = Some sid" "sid \<noteq> []" "ok w'"
    "bound sid (recs w') = {i}" "recs w' i = Some rn" "resp_header c' ''X-Runner-Url'' = Some (PrivateURL rn)"
proof -
  let ?sid = "case Cookie c runnerIDCookie of None \<Rightarrow> [] | Some v \<Rightarrow> v"
  from assms(1) obtain res where r: "ResolveSession S ?sid w = Some (res, w')"
    by (auto simp: GetResolve_def Let_def split: option.splits prod.splits sum.splits)
  show thesis
  proof (cases res)
    case (Inl e)
    with r assms(1,2) show thesis by (auto simp: GetResolve_def Let_def writeError_def split: if_splits)
  next
    case (Inr a)
    with r assms(1) have c': "c' = resolve_response a c" by (auto simp: GetResolve_def Let_def)
    from resolve_answer [OF r [unfolded Inr] inv] obtain i rn where
      b: "bound (SessionID a) (recs w') = {i}" "recs w' i = Some rn" "PrivateURL rn = RunnerURL a"
        "SessionID a \<noteq> []" and nc: "\<not> Created a \<Longrightarrow> SessionID a = ?sid" by blast
    have "client_cookie c c' = Some (SessionID a)"
    proof (cases "Created a")
      case True
      then show ?thesis by (simp add: c' client_cookie_def resolve_response_def Let_def Status_def Header_def)
    next
      case False
      with nc b(4) have "Cookie c runnerIDCookie = Some (SessionID a)" by (simp split: option.splits)
      with False assms(3) show ?thesis
        by (simp add: c' client_cookie_def resolve_response_def Let_def Status_def Header_def)
    qed
    moreover from svc.resolve_bound_subset [OF r] inv have "ok w'" by (simp add: broker_inv_alt)
    ultimately show thesis using that b c'
      by (simp add: resolve_response_def Let_def Status_def Header_def)
  qed
qed

end
section \<open>Properties\<close>



lemma post_register_cases:
  assumes "broker R tabs sc view S" and "table_ok (tableName R) (tabs w)"
    and "PostRegister url_Parse S c w = (c', w')" and "BindJSON c = Some req"
  shows "table_ok (tableName R) (tabs w') \<and> ((status c' = 201 \<and> (\<exists>p. url_Parse (req_PrivateURL req) = Inr p \<and>
            (Scheme p = ''http'' \<or> Scheme p = ''https'') \<and> Host p \<noteq> []) \<and>
          (\<exists>rn. runner_recs (tableName R) (tabs w') (req_RunnerID req) = Some rn \<and>
             PrivateURL rn = req_PrivateURL req)) \<or>
     (status c' = 400 \<and> w' = w) \<or>
     (status c' = 500 \<and> resp_body c' \<noteq> No_body))"
proof (cases "validateRunnerURL url_Parse (req_PrivateURL req)")
  case (Inl e)
  with assms(2-4) show ?thesis by (auto simp: PostRegister_def writeError_def)
next
  case (Inr u)
  then have u: "\<exists>p. url_Parse (req_PrivateURL req) = Inr p \<and>
      (Scheme p = ''http'' \<or> Scheme p = ''https'') \<and> Host p \<noteq> []"
    by (auto simp: validateRunnerURL_def split: sum.splits if_splits)
  obtain res w1 where r: "Register R (req_RunnerID req) (req_PrivateURL req) w = (res, w1)" by fastforce
  then have "RegisterRunner S (req_RunnerID req) (req_PrivateURL req) w = (res, w1)"
    by (simp add: RegisterRunner_def broker.composed [OF assms(1)])
  moreover have "table_ok (tableName R) (tabs w1)"
    using broker_store.register_any [OF broker.axioms(1) [OF assms(1), THEN broker_store_current.axioms(1)]
      assms(2) r] by auto
  ultimately show ?thesis using u Inr r assms(2-4) broker_store.register_outcome [OF broker.axioms(1) [OF assms(1),
      THEN broker_store_current.axioms(1)] r]
    by (cases res) (auto simp: PostRegister_def writeError_def Status_def)
qed

text \<open>C10. Registering over HTTP: 201 means that the URL parses with scheme http or https and a
  host, and that the runner is stored under it; 400 means that nothing was written; every
  other answer is a 500.\<close>

theorem post_register_status:
  assumes "broker R tabs sc view S" and "table_ok (tableName R) (tabs w)"
    and "PostRegister url_Parse S c w = (c', w')" and "BindJSON c = Some req"
  shows "(status c' = 201 \<and> (\<exists>p. url_Parse (req_PrivateURL req) = Inr p \<and>
            (Scheme p = ''http'' \<or> Scheme p = ''https'') \<and> Host p \<noteq> []) \<and>
          (\<exists>rn. runner_recs (tableName R) (tabs w') (req_RunnerID req) = Some rn \<and>
             PrivateURL rn = req_PrivateURL req)) \<or>
     (status c' = 400 \<and> w' = w) \<or>
     (status c' = 500 \<and> resp_body c' \<noteq> No_body)"
  using post_register_cases [OF assms] by blast

theorem post_register_status_witness:
  "\<exists>rn. runner_recs ''bunshin-runners'' (mem_tabs demo_schema (demo_world [idle_dead,
      \<lparr>RunnerID = ''b'', CurrentSessionID = [], IdleBucket = bucket_key 0, PrivateURL = ''http://b''\<rparr>]))
     ''b'' = Some rn \<and> PrivateURL rn = ''http://b''"
proof -
  let ?c = "(demo_request None)\<lparr>BindJSON := Some \<lparr>req_RunnerID = ''b'', req_PrivateURL = ''http://b''\<rparr>\<rparr>"
  have "PostRegister (\<lambda>s. Inr \<lparr>Scheme = ''http'', Host = ''b''\<rparr>) demo_service ?c (demo_world [idle_dead]) =
    (Status 201 ?c, demo_world [idle_dead, \<lparr>RunnerID = ''b'', CurrentSessionID = [],
       IdleBucket = bucket_key 0, PrivateURL = ''http://b''\<rparr>])"
    by (simp add: PostRegister_def validateRunnerURL_def RegisterRunner_def idle_dead_def)
  from post_register_status [OF demo_broker _ this] demo_ok [of "[idle_dead]"]
  show ?thesis by (simp add: idle_dead_def Status_def)
qed

end
