(* ===== verification/Broker_Liveness.thy ===== *)
theory Broker_Liveness
  imports Broker_Http_Properties
begin
text \<open>
  What the broker does for its visitors while nothing is out of order: storage is up, identifiers can be
  drawn and requests are not cancelled.  Then the only refusal is that there is no idle runner, and an idle
  runner that answers its health check is never thrown away.
\<close>

section \<open>A repository without outages\<close>

locale repository_up = repository_current repo recs invar
  for repo :: "'w Repository" and recs :: "'w \<Rightarrow> string \<Rightarrow> Runner option" and invar :: "'w \<Rightarrow> bool" +
  assumes acquire_up: "invar w \<Longrightarrow> sid \<noteq> [] \<Longrightarrow> repo_AcquireIdle repo sid b w = Some (Inl e, w') \<Longrightarrow>
      e = Sentinel ErrNoIdleRunner"
    and remove_up: "invar w \<Longrightarrow> \<exists>w'. repo_Delete repo i w = (Inr (), w')"
    and search_up: "invar w \<Longrightarrow> repo_FindBySessionID repo sid w = (Inl e, w') \<Longrightarrow> errors_is e ErrNotFound"

section \<open>The service\<close>

locale broker_service_up = broker_service_current S recs invar + repository_up "repo S" recs invar
  for S :: "'w BrokerService" and recs :: "'w \<Rightarrow> string \<Rightarrow> Runner option" and invar :: "'w \<Rightarrow> bool" +
  assumes session_up: "sessionFn S w \<noteq> (Inl e, w')"
    and not_cancelled: "ctx_Err S w = None"
begin

text \<open>A runner that answers every health check.\<close>

abbreviation well :: "Runner \<Rightarrow> bool" where
  "well rn \<equiv> (\<forall>chk w. checker S = Some chk \<longrightarrow> (\<exists>w'. chk (PrivateURL rn) w = (Inr (), w')))"

abbreviation keeps_well :: "'w \<Rightarrow> 'w \<Rightarrow> bool" where
  "keeps_well w w' \<equiv> (\<forall>i rn. recs w i = Some rn \<longrightarrow> IsIdle rn \<longrightarrow> well rn \<longrightarrow> recs w' i = Some rn)"

text \<open>A round that goes on has deleted a runner that failed its check.\<close>

lemma round_up:
  assumes w: "invar w" and sid: "sid \<noteq> []" and d: "drain_bucket S sid b w = Some (res, w')"
  obtains (empty) "res = None" "recs w' = recs w"
  | (got) c where "res = Some (Inr c)"
  | (again) w3 where "drain_bucket S sid b w3 = Some (res, w')" "invar w3" "keeps_well w w3" "idle_ids w3 \<subset> idle_ids w"
proof -
  note simps = drain_bucket.simps [of S sid b w]
  from acquire_returns [OF w sid, of b] obtain ar w1 where a: "repo_AcquireIdle (repo S) sid b w = Some (ar, w1)"
    by fastforce
  show thesis
  proof (cases ar)
    case (Inl e)
    with acquire_up [OF w sid a [unfolded Inl]] acquire_fail [OF w sid a [unfolded Inl]] a d simps empty show thesis
      by auto
  next
    case (Inr rn)
    from acquire_ok [OF w sid a [unfolded Inr]] acquire_record [OF w sid a [unfolded Inr]]
    have w1: "invar w1" and asg: "assigns sid (RunnerID rn) (recs w) (recs w1)" and rn: "recs w1 (RunnerID rn) = Some rn"
      by auto
    from asg rn obtain old where old: "recs w (RunnerID rn) = Some old" "IsIdle old"
      "rn = old\<lparr>CurrentSessionID := sid, IdleBucket := []\<rparr>" by (auto simp: assigns_def)
    show thesis
    proof (cases "checker S")
      case None
      with a Inr d simps have "res = Some (Inr \<lparr>cs_SessionID = sid, cs_Runner = rn\<rparr>)" by simp
      then show thesis by (rule got)
    next
      case chk: (Some chk)
      obtain cr w2 where c: "chk (PrivateURL rn) w1 = (cr, w2)" by fastforce
      from check_frame [OF chk c] w1 have w2: "invar w2" "recs w2 = recs w1" by auto
      from remove_up [OF w2(1), of "RunnerID rn"] obtain w3 where r: "repo_Delete (repo S) (RunnerID rn) w2 = (Inr (), w3)"
        by blast
      show thesis
      proof (cases cr)
        case (Inr u)
        with a \<open>ar = Inr rn\<close> chk c d simps have "res = Some (Inr \<lparr>cs_SessionID = sid, cs_Runner = rn\<rparr>)" by simp
        then show thesis by (rule got)
      next
        case bad: (Inl ce)
        from delete_ok [OF w2(1) r] w2(2) have w3: "invar w3" "recs w3 = (recs w1)(RunnerID rn := None)" by auto
        have ill: "\<not> well old"
        proof
          assume "well old"
          with chk obtain v where "chk (PrivateURL old) w1 = (Inr (), v)" by blast
          with c bad old(3) show False by simp
        qed
        have "recs w3 i = Some x" if x: "recs w i = Some x" "well x" for i x
        proof -
          have "i \<noteq> RunnerID rn"
          proof
            assume "i = RunnerID rn"
            with x(1) old(1) have "x = old" by simp
            with x(2) ill show False by blast
          qed
          with x(1) asg w3(2) show ?thesis by (auto simp: assigns_def)
        qed
        moreover from asg w3(2) have "idle_ids w3 \<subset> idle_ids w" by (auto simp: assigns_def split: if_splits)
        moreover have "drain_bucket S sid b w3 = Some (res, w')"
          using a Inr chk c bad not_cancelled [of w2] r d simps by simp
        ultimately show thesis using w3(1) by (intro again) auto
      qed
    qed
  qed
qed

lemma drain_up:
  assumes "drain_bucket S sid b w = Some (res, w')" and "invar w" and sid: "sid \<noteq> []"
  shows "case res of None \<Rightarrow> keeps_well w w' | Some x \<Rightarrow> (\<exists>c. x = Inr c)"
  using assms(1,2)
proof (induction "card (idle_ids w)" arbitrary: w rule: less_induct)
  case less
  from less.prems(2) sid less.prems(1) show ?case
  proof (rule round_up)
    fix w3
    assume a: "drain_bucket S sid b w3 = Some (res, w')" "invar w3" "keeps_well w w3" "idle_ids w3 \<subset> idle_ids w"
    from psubset_card_mono [OF finite_idle [OF less.prems(2)] a(4)]
    have "case res of None \<Rightarrow> keeps_well w3 w' | Some x \<Rightarrow> (\<exists>c. x = Inr c)" by (rule less.hyps [OF _ a(1,2)])
    with a(3) show ?thesis by (auto split: option.splits)
  qed auto
qed

lemma create_buckets_up:
  assumes "create_buckets S sid start bc is w = Some (Inl e, w')" and "invar w" and "sid \<noteq> []"
  shows "e = Sentinel ErrNoIdleRunner \<and> keeps_well w w'"
  using assms
proof (induction "is" arbitrary: w)
  case (Cons i "is")
  from Cons.prems(1) obtain r w1 where d: "drain_bucket S sid ((start + i) mod bc) w = Some (r, w1)"
    by (auto split: option.splits prod.splits)
  from drain_effect [OF d Cons.prems(2,3)] have "invar w1" by simp
  with drain_up [OF d Cons.prems(2,3)] Cons.IH [of w1] Cons.prems(1,3) d show ?case
    by (auto split: option.splits)
qed auto

lemma create_up:
  assumes "createSession S w = Some (Inl e, w')" and "invar w"
  shows "e = Sentinel ErrNoIdleRunner \<and> keeps_well w w'"
proof -
  obtain sr w1 where s: "sessionFn S w = (sr, w1)" by fastforce
  with session_up obtain sid where sr: "sr = Inr sid" by (cases sr) auto
  let ?bc = "repo_BucketCount (repo S)"
  obtain k w2 where k: "mrand_IntN S ?bc w1 = (k, w2)" by fastforce
  from session_frame [OF s] intN [OF k] assms(2) have w2: "invar w2" "recs w2 = recs w" by auto
  from assms(1) s sr k have "create_buckets S sid k ?bc [0..<?bc] w2 = Some (Inl e, w')"
    by (simp add: createSession_def Let_def)
  from create_buckets_up [OF this w2(1) session_nonempty [OF s [unfolded sr]]] w2(2) show ?thesis by simp
qed

text \<open>A refusal is the truth: there was no idle runner that answers its health check.\<close>

lemma refused_up:
  assumes "createSession S w = Some (Inl e, w')" and w: "invar w" and "recs w i = Some rn" and "IsIdle rn"
  shows "\<not> well rn"
proof
  assume "well rn"
  with create_up [OF assms(1,2)] assms(3,4) have e: "e = Sentinel ErrNoIdleRunner" and i: "recs w' i = Some rn" by auto
  obtain sr w1 where s: "sessionFn S w = (sr, w1)" by fastforce
  with session_up have "\<exists>sid w1. sessionFn S w = (Inr sid, w1)" by (cases sr) auto
  with create_effect_current [OF assms(1) w] e have "idle_ids w' = {}" by simp
  with i assms(4) show False by auto
qed

lemma resolve_up:
  assumes "ResolveSession S sid w = Some (Inl e, w')" and w: "invar w"
  shows "e = Sentinel ErrNoIdleRunner \<and> (\<forall>i rn. recs w i = Some rn \<longrightarrow> IsIdle rn \<longrightarrow> \<not> well rn)"
proof -
  have new: "e = Sentinel ErrNoIdleRunner \<and> (\<forall>i rn. recs w1 i = Some rn \<longrightarrow> IsIdle rn \<longrightarrow> \<not> well rn)"
    if "resolve_new S x w1 = Some (Inl e, w')" "invar w1" for x w1
  proof -
    from that(1) have "createSession S w1 = Some (Inl e, w')"
      by (auto simp: resolve_new_def split: option.splits prod.splits sum.splits)
    from create_up [OF this that(2)] refused_up [OF this that(2)] show ?thesis by blast
  qed
  show ?thesis
  proof (cases "sid = []")
    case True
    with assms(1) new [OF _ w] show ?thesis by (simp add: ResolveSession_def)
  next
    case sid: False
    obtain fr w1 where f: "repo_FindBySessionID (repo S) sid w = (fr, w1)" by fastforce
    from find_session_frame [OF w f] have w1: "invar w1" "recs w1 = recs w" by auto
    show ?thesis
    proof (cases fr)
      case (Inl x)
      with search_up [OF w f [unfolded Inl]] assms(1) f sid have "resolve_new S False w1 = Some (Inl e, w')"
        by (simp add: ResolveSession_def)
      from new [OF this w1(1)] w1(2) show ?thesis by simp
    next
      case (Inr old)
      with assms(1) f sid obtain chk where chk: "checker S = Some chk"
        by (auto simp: ResolveSession_def split: option.splits)
      obtain cr w2 where c: "chk (PrivateURL old) w1 = (cr, w2)" by fastforce
      from check_frame [OF chk c] w1 have w2: "invar w2" "recs w2 = recs w" by auto
      from remove_up [OF w2(1), of "RunnerID old"] obtain w3 where
        r: "repo_Delete (repo S) (RunnerID old) w2 = (Inr (), w3)" by blast
      from delete_ok [OF w2(1) r] w2(2) have w3: "invar w3" "recs w3 = (recs w)(RunnerID old := None)" by auto
      have d: "resolve_new S True w3 = Some (Inl e, w')"
        using assms(1) f Inr sid chk c not_cancelled [of w2] r by (auto simp: ResolveSession_def split: sum.splits)
      from find_session_found [OF w f [unfolded Inr]] sid
      have o: "recs w (RunnerID old) = Some old" "IsBusy old" by (auto simp: IsBusy_def)
      from shape [OF w o(1)] o have "\<not> IsIdle old" by auto
      with new [OF d w3(1)] w3(2) o(1) show ?thesis by (metis fun_upd_other option.inject)
    qed
  qed
qed

text \<open>Whom a new session gets: a runner that was idle.\<close>

lemma new_session_from_idle:
  assumes "ResolveSession S [] w = Some (Inr r, w')" and w: "invar w"
  shows "\<exists>i rn. recs w i = Some rn \<and> IsIdle rn \<and> PrivateURL rn = RunnerURL r"
proof -
  from assms(1) have "resolve_new S False w = Some (Inr r, w')" by (simp add: ResolveSession_def)
  from resolve_new_effect [OF this w] obtain j rn where st: "session_step (SessionID r) (recs w) (recs w')"
    and fresh: "bound (SessionID r) (recs w) = {}" and b: "bound (SessionID r) (recs w') = {j}"
    and rn: "recs w' j = Some rn" "PrivateURL rn = RunnerURL r" by auto
  from b have "j \<in> bound (SessionID r) (recs w')" by simp
  with rn(1) have cur: "CurrentSessionID rn = SessionID r" by (auto simp: bound_def)
  from fresh have nj: "j \<notin> bound (SessionID r) (recs w)" by simp
  from st have "rec_step (SessionID r) (recs w j) (recs w' j)" by (simp add: session_step_def)
  with rn(1) cur nj obtain old where "recs w j = Some old" "IsIdle old" "PrivateURL rn = PrivateURL old"
    by (auto simp: rec_step_def bound_def)
  with rn(2) show ?thesis by auto
qed

end

section \<open>The broker\<close>

text \<open>The composed broker over storage that is up.\<close>

locale broker_up = broker R tabs sc view S + dynamo_up "client R" tabs sc view
  for R :: "'w DynamoRepository" and tabs :: "'w \<Rightarrow> tables" and sc :: "string \<Rightarrow> string list"
    and view :: "'w \<Rightarrow> string \<Rightarrow> key_cond list \<Rightarrow> item list" and S :: "'w BrokerService" +
  assumes identifiers: "sessionFn S w \<noteq> (Inl e, w')"
    and waiting: "ctx_Err S w = None"
begin

lemma assign_up:
  assumes "assignSession R i sid w = (Inl e, w')"
  shows "e = Sentinel ErrConditionFailed"
proof (cases "cond_holds (Some (Attribute_exists ''idleBucket'')) (tab w (rkey i))")
  case True
  then obtain it where it: "tab w (rkey i) = Some it" "it ''idleBucket'' \<noteq> None" by auto
  let ?us = "[Set_attr ''currentSessionId'' (AS sid), Remove_attr ''idleBucket'']"
  from keyed [OF it(1)] have "update_effect sc (tableName R) (runner_key i) ?us (Some (Attribute_exists ''idleBucket'')) (tabs w) \<noteq> None"
    using it by (simp add: update_effect_def Let_def schema runner_key_def)
  from update_up [OF _ this] True obtain v where
    "UpdateItem (client R) (tableName R) (runner_key i) ?us (Some (Attribute_exists ''idleBucket'')) w = (Inr (), v)" by auto
  with assms show ?thesis by (simp add: assignSession_def)
next
  case False
  from update_up_ccf [of "Some (Attribute_exists ''idleBucket'')" w "tableName R" "runner_key i"
      "[Set_attr ''currentSessionId'' (AS sid), Remove_attr ''idleBucket'']"] False
  obtain v where "UpdateItem (client R) (tableName R) (runner_key i)
    [Set_attr ''currentSessionId'' (AS sid), Remove_attr ''idleBucket''] (Some (Attribute_exists ''idleBucket'')) w =
    (Inl Conditional_check_failed, v)" by auto
  with assms show ?thesis by (simp add: assignSession_def isConditionalCheckFailed_def)
qed

lemma try_up: "try_candidates R sid rs tried pr w = ((Some res, tried', pr'), w') \<Longrightarrow> \<exists>rn. res = Inr rn"
  by (induction rs arbitrary: tried pr w)
    (auto simp: Let_def split: if_splits prod.splits sum.splits dest: assign_up)

lemma unmarshal_page:
  "\<forall>it \<in> set its. idle_item it \<or> busy_item it \<Longrightarrow> unmarshal_all (unmarshalFn R) its = Inr (map runner_of its)"
  by (induction its) (auto simp: unmarshal_stored)

lemma query_idle_up:
  assumes "ok w"
  shows "\<exists>rns w'. queryIdleBucket R b w = (Inr rns, w')"
proof -
  obtain out w1 where q: "Query (client R) (idle_query (tableName R) b) w = (Inr out, w1)"
    using query_up [of "idle_query (tableName R) b" w] by (auto simp: idle_query_def)
  have "\<forall>it \<in> set (out_items out). idle_item it \<or> busy_item it"
    using page_items [OF q] stored_at [OF assms] by (auto simp: idle_query_def)
  with q show ?thesis by (simp add: queryIdleBucket_def unmarshal_page)
qed

lemma acquire_loop_up:
  assumes "acquire_loop R sid b tried w = Some (Inl e, w')" and "ok w"
  shows "e = Sentinel ErrNoIdleRunner"
proof -
  let ?P = "\<lambda>r (s :: string) (b :: string) (tried :: string set) w (y :: (berr + Runner) \<times> 'w). r = R \<longrightarrow> ok w \<longrightarrow> (\<forall>e. fst y = Inl e \<longrightarrow> e = Sentinel ErrNoIdleRunner)"
  have "?P R sid b tried w (Inl e, w')"
  proof (rule acquire_loop.raw_induct [where P = ?P, OF _ assms(1)])
    fix f r s b tried w y
    assume IH: "\<And>r s b tried w y. f r s b tried w = Some y \<Longrightarrow> ?P r s b tried w y"
      and eq: "(case queryIdleBucket r b w of
          (Inl err, w1) \<Rightarrow> Some (Inl err, w1)
        | (Inr runners, w1) \<Rightarrow>
            if runners = [] then Some (Inl (Sentinel ErrNoIdleRunner), w1)
            else let (shuffled, w2) = shuffleFn r runners w1 in
              case try_candidates r s shuffled tried False w2 of
                ((Some res, _, _), w3) \<Rightarrow> Some (res, w3)
              | ((None, tried', progressed), w3) \<Rightarrow>
                  if \<not> progressed then Some (Inl (Sentinel ErrNoIdleRunner), w3)
                  else f r s b tried' w3) = Some y"
    show "?P r s b tried w y"
    proof (intro impI allI)
      fix e assume r: "r = R" and w: "ok w" and e: "fst y = Inl e"
      from query_idle_up [OF w] obtain rns w1 where q: "queryIdleBucket R b w = (Inr rns, w1)" by blast
      show "e = Sentinel ErrNoIdleRunner"
      proof (cases "rns = []")
        case True
        with eq q r e show ?thesis by auto
      next
        case False
        obtain rs w2 where sh: "shuffleFn R rns w1 = (rs, w2)" by fastforce
        obtain ro tried' pr w3 where t: "try_candidates R s rs tried False w2 = ((ro, tried', pr), w3)"
          by (metis prod.exhaust)
        show ?thesis
        proof (cases ro)
          case (Some res)
          with try_up [OF t [unfolded Some]] eq q r e False sh t show ?thesis by auto
        next
          case None
          from try_None [OF t [unfolded None]] shuffle [OF sh] query_idle_frame [OF q] w have "ok w3" by simp
          with None eq q r e False sh t IH [of R s b tried' w3 y] show ?thesis by (auto split: if_splits)
        qed
      qed
    qed
  qed
  with assms(2) show ?thesis by simp
qed

lemma delete_runner_up: "\<exists>w'. Delete R i w = (Inr (), w')"
  using delete_up [of "tableName R" "runner_key i" w] by (auto simp: Delete_def)

lemma search_session_up:
  assumes "ok w" and "FindBySessionID R sid w = (Inl e, w')"
  shows "errors_is e ErrNotFound"
proof -
  obtain out w1 where q: "Query (client R) (session_query (tableName R) sid) w = (Inr out, w1)"
    using query_up [of "session_query (tableName R) sid" w] by (auto simp: session_query_def)
  show ?thesis
  proof (cases "out_items out")
    case Nil
    with q assms(2) show ?thesis by (auto simp: FindBySessionID_def)
  next
    case (Cons it rest)
    with page_items [OF q, of it] stored_at [OF assms(1), of it] have "unmarshalFn R it = Inr (runner_of it)"
      by (auto simp: session_query_def unmarshal_stored)
    with q Cons assms(2) show ?thesis by (simp add: FindBySessionID_def)
  qed
qed

end

sublocale broker_up \<subseteq> svc_up: broker_service_up S recs ok
proof unfold_locales
  fix w w' sid b e i
  show "e = Sentinel ErrNoIdleRunner" if "ok w" "repo_AcquireIdle (repo S) sid b w = Some (Inl e, w')"
    using acquire_loop_up that by (simp add: composed dynamo_repository_def AcquireIdle_def)
  show "\<exists>w'. repo_Delete (repo S) i w = (Inr (), w')"
    using delete_runner_up by (simp add: composed dynamo_repository_def)
  show "errors_is e ErrNotFound" if "ok w" "repo_FindBySessionID (repo S) sid w = (Inl e, w')"
    using search_session_up that by (simp add: composed dynamo_repository_def)
qed (use identifiers waiting in auto)

interpretation demo_up: broker_up demo_repository "mem_tabs demo_schema" demo_schema "mem_view demo_schema" demo_service
proof -
  have "dynamo_up (client demo_repository) (mem_tabs demo_schema) demo_schema (mem_view demo_schema)"
    unfolding demo_parts by (rule mem_dynamo_up)
  then show "broker_up demo_repository (mem_tabs demo_schema) demo_schema (mem_view demo_schema) demo_service"
    by (intro broker_up.intro demo_broker broker_up_axioms.intro) simp_all
qed

section \<open>The visitor's answer\<close>

context broker_up
begin

lemma get_resolve_up:
  assumes "ok w"
  shows "\<exists>c' w'. GetResolve S c w = Some (c', w') \<and>
    (status c' = 200 \<and> (\<exists>u. resp_header c' ''X-Runner-Url'' = Some u \<and>
       (Cookie c runnerIDCookie = None \<longrightarrow> (\<exists>i rn. recs w i = Some rn \<and> IsIdle rn \<and> PrivateURL rn = u))) \<or>
     c' = writeError 503 CodeNoIdleRunner ''no idle runner available'' c \<and>
       (\<forall>i rn. recs w i = Some rn \<longrightarrow> IsIdle rn \<longrightarrow> \<not> svc_up.well rn))"
proof -
  let ?sid = "case Cookie c runnerIDCookie of None \<Rightarrow> [] | Some v \<Rightarrow> v"
  from resolve_total [OF assms, of ?sid] obtain res w' where r: "ResolveSession S ?sid w = Some (res, w')" by blast
  show ?thesis
  proof (cases res)
    case (Inl e)
    from svc_up.resolve_up [OF r [unfolded Inl] assms] r Inl show ?thesis by (simp add: GetResolve_def Let_def)
  next
    case (Inr a)
    have "Cookie c runnerIDCookie = None \<longrightarrow> (\<exists>i rn. recs w i = Some rn \<and> IsIdle rn \<and> PrivateURL rn = RunnerURL a)"
    proof
      assume "Cookie c runnerIDCookie = None"
      with r Inr have "ResolveSession S [] w = Some (Inr a, w')" by simp
      from svc_up.new_session_from_idle [OF this assms] show "\<exists>i rn. recs w i = Some rn \<and> IsIdle rn \<and> PrivateURL rn = RunnerURL a" .
    qed
    with r Inr show ?thesis by (simp add: GetResolve_def resolve_response_def Let_def Status_def Header_def)
  qed
qed

end

section \<open>Properties\<close>


end
