(* ===== verification/Registration.thy ===== *)
theory Registration
  imports Broker_Liveness Runner_Lifecycle
begin
text \<open>
  The runner and the broker together: a runner (\<open>runner/register.go\<close>) whose registration goes to the
  broker's handler (\<open>broker/handler/handler.go\<close>), whose health check (\<open>broker/healthcheck/checker.go\<close>) comes back to
  the runner's routes (\<open>newHandler\<close>), and whose next visitor is sent to it.
\<close>

text \<open>Where an identity comes from: the last part of the task's ARN, never empty, and the first address
  of the task, or the host name.\<close>

lemma identity_from_task:
  assumes "resolveIdentity deps w = (Inr i, w')" and "getenv deps ''ECS_CONTAINER_METADATA_URI_V4'' \<noteq> []"
  shows "\<exists>pre ip. id_RunnerID i \<noteq> [] \<and> CHR ''/'' \<notin> set (id_RunnerID i) \<and>
    (\<exists>body. UnmarshalTask deps body = Inr \<lparr>TaskARN = pre @ CHR ''/'' # id_RunnerID i\<rparr>) \<and>
    id_PrivateURL i = ''http://'' @ ip @ '':'' @ port deps"
proof -
  let ?u = "getenv deps ''ECS_CONTAINER_METADATA_URI_V4''"
  from assms obtain body w1 task idx where t: "httpGet deps (?u @ ''/task'') w = (Inr body, w1)"
    "UnmarshalTask deps body = Inr task" "last_index (TaskARN task) (CHR ''/'') = Some idx"
    "idx \<noteq> length (TaskARN task) - 1"
    and i: "id_RunnerID i = drop (idx + 1) (TaskARN task)" "\<exists>ip. id_PrivateURL i = ''http://'' @ ip @ '':'' @ port deps"
    by (auto simp: resolveIdentity_def resolveFromECS_def Let_def split: prod.splits sum.splits option.splits if_splits)
  let ?a = "TaskARN task"
  from last_index_Some [OF t(3)] have l: "idx < length ?a" "?a ! idx = CHR ''/''" "CHR ''/'' \<notin> set (drop (Suc idx) ?a)"
    by auto
  then have "?a = take idx ?a @ CHR ''/'' # id_RunnerID i" using id_take_nth_drop [of idx ?a] i(1) by simp
  then have eq: "task = \<lparr>TaskARN = take idx ?a @ CHR ''/'' # id_RunnerID i\<rparr>" by (metis ecsTaskMeta.surjective old.unit.exhaust)
  have u: "UnmarshalTask deps body = Inr \<lparr>TaskARN = take idx ?a @ CHR ''/'' # id_RunnerID i\<rparr>"
    unfolding t(2) sum.inject by (rule eq)
  have "id_RunnerID i \<noteq> []" "CHR ''/'' \<notin> set (id_RunnerID i)" using i(1) l(1,3) t(4) by simp_all
  with u i(2) show ?thesis by blast
qed

definition blank_request :: "Broker_Handler.registerRequest option \<Rightarrow> gin_context" where
  "blank_request body = \<lparr>Param = (\<lambda>k. []), Cookie = (\<lambda>k. None), BindJSON = body, Keys = Map.empty, status = 200,
     resp_header = Map.empty, resp_cookie = None, resp_body = No_body, aborted = False\<rparr>"

text \<open>\<open>wait\<close> is what happens between two rounds: the end of the context, and any other requests to the
  broker.\<close>

definition broker_register :: "(string \<Rightarrow> string + url) \<Rightarrow> 'w BrokerService \<Rightarrow> (string \<Rightarrow> Broker_Handler.registerRequest option) \<Rightarrow>
    (Runner_Process.registerRequest \<Rightarrow> string) \<Rightarrow> ('w \<Rightarrow> ext_error option \<times> 'w) \<Rightarrow> string \<Rightarrow> Identity \<Rightarrow> 'w registerDeps" where
  "broker_register url_Parse svc decode marshal wait base i = \<lparr>rd_brokerURL = base, rd_identity = i,
     httpPost = (\<lambda>u t p w. let (c, w1) = PostRegister url_Parse svc (blank_request (decode p)) w in
       (Inr \<lparr>StatusCode = status c, ReadAll = Inr []\<rparr>, w1)),
     rd_wait = wait, rd_logf = (\<lambda>m w. w), rd_Marshal = marshal, rd_text = (\<lambda>e. [])\<rparr>"

lemma registered_runner:
  assumes "broker R tabs sc view S" and "table_ok (tableName R) (tabs w)"
    and "register (broker_register url_Parse S decode marshal wait base i) w = Some (None, w')"
    and "decode (marshal \<lparr>rq_RunnerID = id_RunnerID i, rq_PrivateURL = id_PrivateURL i\<rparr>) =
      Some \<lparr>req_RunnerID = id_RunnerID i, req_PrivateURL = id_PrivateURL i\<rparr>"
    and "\<And>v. table_ok (tableName R) (tabs v) \<Longrightarrow> table_ok (tableName R) (tabs (snd (wait v)))"
  shows "table_ok (tableName R) (tabs w') \<and> (\<exists>rn p. runner_recs (tableName R) (tabs w') (id_RunnerID i) = Some rn \<and> PrivateURL rn = id_PrivateURL i \<and>
    url_Parse (id_PrivateURL i) = Inr p \<and> (Scheme p = ''http'' \<or> Scheme p = ''https'') \<and> Host p \<noteq> [])"
proof -
  let ?d = "broker_register url_Parse S decode marshal wait base i"
  let ?q = "\<lparr>req_RunnerID = id_RunnerID i, req_PrivateURL = id_PrivateURL i\<rparr>"
  let ?K = "\<lambda>w'. table_ok (tableName R) (tabs w') \<and> (\<exists>rn p. runner_recs (tableName R) (tabs w') (id_RunnerID i) = Some rn \<and> PrivateURL rn = id_PrivateURL i \<and>
    url_Parse (id_PrivateURL i) = Inr p \<and> (Scheme p = ''http'' \<or> Scheme p = ''https'') \<and> Host p \<noteq> [])"
  let ?P = "\<lambda>d u p w y. d = ?d \<longrightarrow> decode p = Some ?q \<longrightarrow> table_ok (tableName R) (tabs w) \<longrightarrow> fst y = None \<longrightarrow> ?K (snd y)"
  have "?P d u p w y" if "register_loop d u p w = Some y" for d u p w y
  proof (rule register_loop.raw_induct [where P = ?P, OF _ that])
    fix f d u p w y
    assume IH: "\<And>d u p w y. f d u p w = Some y \<Longrightarrow> ?P d u p w y"
      and eq: "(case register_round d u p w of (Some r, w1) \<Rightarrow> Some (r, w1) | (None, w1) \<Rightarrow> f d u p w1) = Some y"
    show "?P d u p w y"
    proof (intro impI)
      assume d: "d = ?d" and p: "decode p = Some ?q" and ok: "table_ok (tableName R) (tabs w)" and y: "fst y = None"
      obtain c w1 where h: "PostRegister url_Parse S (blank_request (Some ?q)) w = (c, w1)" by fastforce
      note post = post_register_cases [OF assms(1) ok h, of ?q]
      show "?K (snd y)"
      proof (cases "status c = 201")
        case True
        then have "y = (None, w1)" using eq h p unfolding d by (auto simp: register_round_def broker_register_def)
        with post True show ?thesis by (auto simp: blank_request_def)
      next
        case False
        obtain x w2 where x: "wait w1 = (x, w2)" by fastforce
        have r: "register_round ?d u p w = (map_option Some x, w2)"
          using h p False x by (auto simp: register_round_def broker_register_def wait_again_def split: option.splits)
        have "x = None" using eq r y unfolding d by (cases x) auto
        moreover have "table_ok (tableName R) (tabs w2)" using assms(5) [of w1] post x by (simp add: blank_request_def)
        ultimately show ?thesis using eq r IH [of ?d u p w2 y] p y unfolding d by simp
      qed
    qed
  qed
  from this [OF assms(3) [unfolded register_def]] assms(2,4) show ?thesis by (simp add: broker_register_def)
qed

text \<open>C37. A registered runner is known to the broker.  When a runner's \<open>register\<close> returns without an
  error, whatever else happened at the broker between its attempts, the broker has a record of a runner with its
  identifier and its URL, and that URL is one that the broker accepts (http or https, with a host).\<close>

theorem registered_runner_is_known:
  assumes "broker R tabs sc view S" and "table_ok (tableName R) (tabs w)"
    and "register (broker_register url_Parse S decode marshal wait base i) w = Some (None, w')"
    and "decode (marshal \<lparr>rq_RunnerID = id_RunnerID i, rq_PrivateURL = id_PrivateURL i\<rparr>) =
      Some \<lparr>req_RunnerID = id_RunnerID i, req_PrivateURL = id_PrivateURL i\<rparr>"
    and "\<And>v. table_ok (tableName R) (tabs v) \<Longrightarrow> table_ok (tableName R) (tabs (snd (wait v)))"
  shows "\<exists>rn p. runner_recs (tableName R) (tabs w') (id_RunnerID i) = Some rn \<and> PrivateURL rn = id_PrivateURL i \<and>
    url_Parse (id_PrivateURL i) = Inr p \<and> (Scheme p = ''http'' \<or> Scheme p = ''https'') \<and> Host p \<noteq> []"
  using registered_runner [OF assms] by blast

definition demo_decode :: "string \<Rightarrow> Broker_Handler.registerRequest option" where
  "demo_decode p = Some \<lparr>req_RunnerID = p, req_PrivateURL = ''http://b''\<rparr>"

theorem registered_runner_is_known_witness:
  "\<exists>w' rn. register (broker_register (\<lambda>s. Inr \<lparr>Scheme = ''http'', Host = ''b''\<rparr>) demo_service demo_decode rq_RunnerID
        (\<lambda>w. (None, w)) ''http://broker'' \<lparr>id_RunnerID = ''b'', id_PrivateURL = ''http://b''\<rparr>) (demo_world [idle_dead]) =
      Some (None, w') \<and>
    runner_recs (tableName demo_repository) (mem_tabs demo_schema w') ''b'' = Some rn \<and> PrivateURL rn = ''http://b''"
proof -
  let ?up = "\<lambda>s. Inr \<lparr>Scheme = ''http'', Host = ''b''\<rparr> :: string + url"
  let ?i = "\<lparr>id_RunnerID = ''b'', id_PrivateURL = ''http://b''\<rparr>"
  let ?d = "broker_register ?up demo_service demo_decode rq_RunnerID (\<lambda>w. (None, w)) ''http://broker'' ?i"
  let ?c = "blank_request (Some \<lparr>req_RunnerID = ''b'', req_PrivateURL = ''http://b''\<rparr>)"
  let ?w = "demo_world [idle_dead, \<lparr>RunnerID = ''b'', CurrentSessionID = [], IdleBucket = bucket_key 0,
    PrivateURL = ''http://b''\<rparr>]"
  have "PostRegister ?up demo_service ?c (demo_world [idle_dead]) = (Status 201 ?c, ?w)"
    by (simp add: PostRegister_def validateRunnerURL_def RegisterRunner_def idle_dead_def blank_request_def)
  then have r: "register ?d (demo_world [idle_dead]) = Some (None, ?w)"
    unfolding register_def
    by (subst register_loop.simps) (simp add: register_round_def broker_register_def demo_decode_def Status_def)
  have ok: "table_ok (tableName demo_repository) (mem_tabs demo_schema (demo_world [idle_dead]))"
    using demo_ok [of "[idle_dead]"] by (simp add: idle_dead_def)
  have "demo_decode (rq_RunnerID \<lparr>rq_RunnerID = id_RunnerID ?i, rq_PrivateURL = id_PrivateURL ?i\<rparr>) =
      Some \<lparr>req_RunnerID = id_RunnerID ?i, req_PrivateURL = id_PrivateURL ?i\<rparr>"
    by (simp add: demo_decode_def)
  from registered_runner_is_known [OF demo_broker ok r this] obtain rn where
    "runner_recs (tableName demo_repository) (mem_tabs demo_schema ?w) (id_RunnerID ?i) = Some rn"
    "PrivateURL rn = id_PrivateURL ?i" by (metis snd_conv)
  with r show ?thesis unfolding Identity.select_convs by blast
qed

section \<open>From registration to the first visitor\<close>

text \<open>The broker's health check of a URL reaches the handler \<open>h\<close> of a runner (\<open>newHandler\<close> in
  \<open>runner/handler.go\<close>), in whatever state that runner is.\<close>

definition asks_runner :: "('q \<Rightarrow> 'w \<Rightarrow> (ext_error + int) \<times> 'w) \<Rightarrow> 'q \<Rightarrow> ('sh, 'r) runner_handler \<Rightarrow> bool" where
  "asks_runner client_Do q h \<longleftrightarrow> (\<forall>v. \<exists>ctx sm u c sm' u' v'.
     h ''GET'' ''/health'' ctx sm u = Some (c, sm', u') \<and> client_Do q v = (Inr (rc_status c), v'))"

lemma running_runner_is_healthy:
  assumes "asks_runner client_Do q (newHandler ext quote not_found not_allowed sh validator)"
    and "new_request (url @ ''/health'') = Inr q"
  shows "\<exists>v'. Check new_request client_Do url v = (Inr (), v')"
proof -
  from assms(1) obtain v' where "client_Do q v = (Inr 200, v')"
    by (fastforce simp: asks_runner_def newHandler_def handleHealth_def)
  with assms(2) show ?thesis by (simp add: Check_def)
qed


text \<open>A broker whose health check asks the only runner there is, at \<^verbatim>\<open>http://b\<close>.\<close>

definition demo_ask :: "string \<Rightarrow> mem \<Rightarrow> (ext_error + int) \<times> mem" where
  "demo_ask u w = (if u = ''http://b/health'' then Inr 200 else Inl (Opaque_error ''timeout''), w)"

definition asking_service :: "mem BrokerService" where
  "asking_service = demo_service\<lparr>checker := Some (Check Inr demo_ask)\<rparr>"

lemma asking_parts:
  "repo asking_service = repo demo_service" "checker asking_service = Some (Check Inr demo_ask)"
  "sessionFn asking_service = sessionFn demo_service" "ctx_Err asking_service = ctx_Err demo_service"
  "mrand_IntN asking_service = mrand_IntN demo_service"
  by (simp_all add: asking_service_def)

lemma Check_world: "Check Inr demo_ask u w = (r, w') \<Longrightarrow> w' = w"
  by (auto simp: Check_def demo_ask_def split: sum.splits if_splits)

lemma asking_up: "broker_up demo_repository (mem_tabs demo_schema) demo_schema (mem_view demo_schema) asking_service"
proof -
  have "broker demo_repository (mem_tabs demo_schema) demo_schema (mem_view demo_schema) asking_service"
  proof (intro broker.intro broker_axioms.intro)
    show "broker_store_current demo_repository (mem_tabs demo_schema) demo_schema (mem_view demo_schema)"
      by (rule broker.axioms(1) [OF demo_broker])
    fix w w' c url cr sr sid n k
    show "repo asking_service = dynamo_repository demo_repository" by (simp add: asking_parts)
    show "mem_tabs demo_schema w' = mem_tabs demo_schema w" if "checker asking_service = Some c" "c url w = (cr, w')"
      using that Check_world unfolding asking_parts by blast
    show "mem_tabs demo_schema w' = mem_tabs demo_schema w" if "sessionFn asking_service w = (sr, w')"
      using that unfolding asking_parts by (rule demo.session_tabs)
    show "sid \<noteq> [] \<and> bound sid (runner_recs (tableName demo_repository) (mem_tabs demo_schema w)) = {}"
      if "sessionFn asking_service w = (Inr sid, w')" using that unfolding asking_parts by (rule demo.session_new)
    show "mem_tabs demo_schema w' = mem_tabs demo_schema w \<and> (0 < n \<longrightarrow> k < n)"
      if "mrand_IntN asking_service n w = (k, w')" using that unfolding asking_parts by (rule demo.intN_tabs)
  qed
  then show ?thesis
    by (intro broker_up.intro broker_up_axioms.intro demo_up.dynamo_up_axioms) (simp_all add: asking_parts)
qed

end
