(* ===== verification/Broker_Process.thy ===== *)
theory Broker_Process
  imports Broker_Handler
begin
text \<open>
  How the broker starts, serves and ends (\<open>broker/main.go\<close>).  The environment, the AWS configuration,
  the clients, the server loop and the signals are parameters over a world \<open>'w\<close>.
\<close>

text \<open>\<open>loadAWSConfig\<close> gets the region and the static credentials, if any; \<open>broker_ListenAndServe\<close> serves the
  routes until it fails (\<open>Inl\<close>) or a signal with a name arrives (\<open>Inr\<close>), or forever (\<open>None\<close>).\<close>

record ('cfg, 'q, 'w) broker_platform =
  env :: "string \<Rightarrow> string"
  loadAWSConfig :: "string \<Rightarrow> (string \<times> string) option \<Rightarrow> 'w \<Rightarrow> (ext_error + 'cfg) \<times> 'w"
  ddb_NewFromConfig :: "'cfg \<Rightarrow> string option \<Rightarrow> 'w ddb"
  mrand :: "nat \<Rightarrow> 'w \<Rightarrow> nat \<times> 'w"
  mrand_Shuffle :: "Runner list \<Rightarrow> 'w \<Rightarrow> Runner list \<times> 'w"
  MarshalRunner :: "Runner \<Rightarrow> ext_error + item"
  UnmarshalRunner :: "item \<Rightarrow> ext_error + Runner"
  rand_ReadFull :: "nat \<Rightarrow> 'w \<Rightarrow> (ext_error + string) \<times> 'w"
  ctx_state :: "'w \<Rightarrow> ext_error option"
  http_NewRequest :: "string \<Rightarrow> ext_error + 'q"
  http_Do :: "'q \<Rightarrow> 'w \<Rightarrow> (ext_error + int) \<times> 'w"
  url_parse :: "string \<Rightarrow> string + url"
  broker_ListenAndServe :: "(route \<Rightarrow> (gin_context \<Rightarrow> 'w \<Rightarrow> (gin_context \<times> 'w) option) option) \<Rightarrow> 'w \<Rightarrow>
    ((ext_error + string) \<times> 'w) option"
  broker_Shutdown :: "int \<Rightarrow> 'w \<Rightarrow> ext_error option \<times> 'w"
  stdout_Print :: "string \<Rightarrow> 'w \<Rightarrow> 'w"

definition addr :: string where
  "addr = '':8080''"

definition broker_shutdownTimeout :: int where
  "broker_shutdownTimeout = 5"

definition NewDynamoRepository :: "('cfg, 'q, 'w) broker_platform \<Rightarrow> 'w ddb \<Rightarrow> string \<Rightarrow> 'w DynamoRepository" where
  "NewDynamoRepository P c table = \<lparr>client = c, tableName = table, bucketFn = defaultBucketFn (mrand P),
     marshalFn = MarshalRunner P, unmarshalFn = UnmarshalRunner P, shuffleFn = mrand_Shuffle P\<rparr>"

definition NewHTTPChecker :: "('cfg, 'q, 'w) broker_platform \<Rightarrow> string \<Rightarrow> 'w \<Rightarrow> (berr + unit) \<times> 'w" where
  "NewHTTPChecker P = Check (http_NewRequest P) (http_Do P)"

text \<open>An option changes the service that is being built; a nil function leaves it as it is.\<close>

type_synonym 'w service_option = "'w BrokerService \<Rightarrow> 'w BrokerService"

fun WithSessionFn :: "('w \<Rightarrow> (berr + string) \<times> 'w) option \<Rightarrow> 'w service_option" where
  "WithSessionFn None s = s"
| "WithSessionFn (Some fn) s = s\<lparr>sessionFn := fn\<rparr>"

definition WithChecker :: "(string \<Rightarrow> 'w \<Rightarrow> (berr + unit) \<times> 'w) option \<Rightarrow> 'w service_option" where
  "WithChecker c s = s\<lparr>checker := c\<rparr>"

definition NewBrokerService :: "('cfg, 'q, 'w) broker_platform \<Rightarrow> 'w Repository \<Rightarrow> 'w service_option list \<Rightarrow>
    'w BrokerService" where
  "NewBrokerService P r opts = foldl (\<lambda>s opt. opt s)
     \<lparr>repo = r, checker = None, sessionFn = defaultSessionFn (rand_ReadFull P),
      ctx_Err = ctx_state P, mrand_IntN = mrand P\<rparr> opts"

text \<open>The handler is \<open>None\<close> in a success only if \<open>NewHandler\<close> panics, which it does not (\<open>init_handler_service\<close>).\<close>

definition defaultInitHandler :: "('cfg, 'q, 'w) broker_platform \<Rightarrow> 'w \<Rightarrow> (berr + 'w Handler option) \<times> 'w" where
  "defaultInitHandler P w =
     (let region = env P ''AWS_REGION''; accessKey = env P ''AWS_ACCESS_KEY_ID'';
          secretKey = env P ''AWS_SECRET_ACCESS_KEY'' in
      if region = [] then (Inl (New_error ''missing required environment variable: AWS_REGION''), w)
      else if (accessKey = []) \<noteq> (secretKey = [])
      then (Inl (New_error ''AWS_ACCESS_KEY_ID and AWS_SECRET_ACCESS_KEY must both be set or both be empty''), w)
      else
        (case loadAWSConfig P region (if accessKey \<noteq> [] then Some (accessKey, secretKey) else None) w of
           (Inl e, w1) \<Rightarrow> (Inl (Wrapf ''load aws config'' (Foreign e)), w1)
         | (Inr cfg, w1) \<Rightarrow>
             (let endpoint = env P ''DYNAMODB_ENDPOINT'';
                  c = ddb_NewFromConfig P cfg (if endpoint \<noteq> [] then Some endpoint else None);
                  r = dynamo_repository (NewDynamoRepository P c ''bunshin-runners'') in
              (Inr (NewHandler (Some (NewBrokerService P r [WithChecker (Some (NewHTTPChecker P))]))), w1))))"

definition broker_run :: "('cfg, 'q, 'w) broker_platform \<Rightarrow> 'w \<Rightarrow> (berr option \<times> 'w) option" where
  "broker_run P w =
     (case defaultInitHandler P w of
        (Inl err, w1) \<Rightarrow> Some (Some (Wrapf ''init handler'' err), w1)
      | (Inr h, w1) \<Rightarrow>
          (let r = newRouter (url_parse P) (rand_ReadFull P) h;
               w2 = stdout_Print P (''broker listening on '' @ addr @ [CHR 0x0A]) w1 in
           case broker_ListenAndServe P r w2 of
             None \<Rightarrow> None
           | Some (Inl e, w3) \<Rightarrow> Some (Some (Foreign e), w3)
           | Some (Inr sig, w3) \<Rightarrow>
               (let (e, w4) = broker_Shutdown P broker_shutdownTimeout
                      (stdout_Print P (''received signal '' @ sig @ '', shutting down...'' @ [CHR 0x0A]) w3) in
                Some (map_option Foreign e, w4))))"

text \<open>The answer of \<open>main\<close> is the message of \<open>fatalf\<close>, if it is called.\<close>

fun berr_text :: "(ext_error \<Rightarrow> string) \<Rightarrow> (store_err \<Rightarrow> string) \<Rightarrow> berr \<Rightarrow> string" where
  "berr_text ext sent (Sentinel s) = sent s"
| "berr_text ext sent (New_error s) = s"
| "berr_text ext sent (Wrapf p e) = p @ '': '' @ berr_text ext sent e"
| "berr_text ext sent (Foreign x) = ext x"

definition broker_main :: "('cfg, 'q, 'w) broker_platform \<Rightarrow> (ext_error \<Rightarrow> string) \<Rightarrow> (store_err \<Rightarrow> string) \<Rightarrow> 'w \<Rightarrow>
    (string option \<times> 'w) option" where
  "broker_main P ext sent w =
     map_option (\<lambda>(err, w1). (map_option (\<lambda>e. ''server error: '' @ berr_text ext sent e) err, w1)) (broker_run P w)"

text \<open>The service that the process serves is the one that the properties of the broker are about: over the
  DynamoDB repository, with the health check.\<close>

lemma init_handler_service:
  assumes "defaultInitHandler P w = (Inr h, w')"
  shows "\<exists>s cfg endpoint. h = Some \<lparr>h_svc = s\<rparr> \<and>
    repo s = dynamo_repository (NewDynamoRepository P (ddb_NewFromConfig P cfg endpoint) ''bunshin-runners'') \<and>
    checker s = Some (NewHTTPChecker P) \<and> sessionFn s = defaultSessionFn (rand_ReadFull P)"
  using assms
  by (auto simp: defaultInitHandler_def NewBrokerService_def WithChecker_def Let_def
      split: prod.splits sum.splits if_splits) blast+
end
