(* ===== verification/Broker_Shared.thy ===== *)
theory Broker_Shared
  imports Broker_System
begin
text \<open>
  The broker while other requests run: any number of brokers and requests share the table, their
  writes come in between the calls of a request, and index reads may be stale.  A request is the code
  of \<open>broker/service/service.go\<close> and \<open>broker/store/dynamo.go\<close> over a client whose calls let others act
  before and after their own effect.
\<close>

section \<open>Steps of a request and of the others\<close>

text \<open>A step is confined to the sessions \<open>X\<close> if it keeps the invariant of the broker and gives no
  session outside of \<open>X\<close> a runner.\<close>

definition confined :: "string \<Rightarrow> string set \<Rightarrow> tables \<Rightarrow> tables \<Rightarrow> bool" where
  "confined T X t t' \<longleftrightarrow> (broker_inv T t \<longrightarrow> broker_inv T t' \<and>
     (\<forall>s. s \<noteq> [] \<longrightarrow> s \<notin> X \<longrightarrow> bound s (runner_recs T t') \<subseteq> bound s (runner_recs T t)))"

lemma confined_refl [simp, intro]: "confined T X t t"
  by (simp add: confined_def)

lemma confined_mono: "confined T X t t' \<Longrightarrow> X \<subseteq> Y \<Longrightarrow> confined T Y t t'"
  by (auto simp: confined_def)

lemma confined_trans: "confined T X t u \<Longrightarrow> confined T X u v \<Longrightarrow> confined T X t v"
  by (auto simp: confined_def)

lemma confined_shrink:
  assumes "table_ok T t \<Longrightarrow> table_ok T u"
    and "\<And>s. s \<noteq> [] \<Longrightarrow> bound s (runner_recs T u) \<subseteq> bound s (runner_recs T t)"
  shows "confined T X t u"
  unfolding confined_def broker_inv_def
proof (intro impI conjI allI)
  fix s i j
  assume "table_ok T t \<and> (\<forall>sid i j. sid \<noteq> [] \<longrightarrow> i \<in> bound sid (runner_recs T t) \<longrightarrow>
      j \<in> bound sid (runner_recs T t) \<longrightarrow> i = j)"
    and h: "s \<noteq> []" "i \<in> bound s (runner_recs T u)" "j \<in> bound s (runner_recs T u)"
  moreover from assms(2) [OF h(1)] h(2,3) have "i \<in> bound s (runner_recs T t)" "j \<in> bound s (runner_recs T t)"
    by auto
  ultimately show "i = j" by blast
qed (use assms in auto)

text \<open>What happens during a request: steps of the others (\<open>rely\<close>) and own steps (\<open>own\<close>), in any order.\<close>

inductive meanwhile :: "(tables \<Rightarrow> tables \<Rightarrow> bool) \<Rightarrow> (tables \<Rightarrow> tables \<Rightarrow> bool) \<Rightarrow> tables \<Rightarrow> tables \<Rightarrow> bool"
  for rely own where
  nothing: "meanwhile rely own t t"
| others_act: "meanwhile rely own t u \<Longrightarrow> rely u v \<Longrightarrow> meanwhile rely own t v"
| own_act: "meanwhile rely own t u \<Longrightarrow> own u v \<Longrightarrow> meanwhile rely own t v"

lemma meanwhile_rely: "rely t u \<Longrightarrow> meanwhile rely own t u"
  using meanwhile.others_act [OF meanwhile.nothing] .

lemma meanwhile_trans: "meanwhile rely own u v \<Longrightarrow> meanwhile rely own t u \<Longrightarrow> meanwhile rely own t v"
  by (induction rule: meanwhile.induct) (auto intro: meanwhile.intros)

lemma meanwhile_mono:
  "meanwhile rely own t u \<Longrightarrow> (\<And>u v. own u v \<Longrightarrow> own' u v) \<Longrightarrow> meanwhile rely own' t u"
  by (induction rule: meanwhile.induct) (auto intro: meanwhile.intros)

text \<open>One own write between steps of the others.\<close>

lemma meanwhile_write: "rely t u \<Longrightarrow> own u v \<Longrightarrow> rely v x \<Longrightarrow> meanwhile rely own t x"
  by (meson meanwhile.intros)

lemma meanwhile_confined:
  assumes "meanwhile rely own t u" and "\<And>u v. rely u v \<Longrightarrow> confined T X u v"
    and "\<And>u v. own u v \<Longrightarrow> confined T Y u v"
  shows "confined T (X \<union> Y) t u"
  using assms(1)
proof (induction rule: meanwhile.induct)
  case (others_act t u v)
  then show ?case using assms(2) confined_mono [of T X u v "X \<union> Y"] confined_trans by blast
next
  case (own_act t u v)
  then show ?case using assms(3) confined_mono [of T Y u v "X \<union> Y"] confined_trans by blast
qed simp

section \<open>A client that is shared\<close>

text \<open>
  A call that took effect did so at some moment between steps of the others; one that failed on its
  condition changed nothing; any other failure leaves it open.  Reads and queries promise nothing
  about their answers.
\<close>

locale shared_dynamo =
  fixes C :: "'w ddb" and tabs :: "'w \<Rightarrow> tables" and sc :: "string \<Rightarrow> string list"
    and rely :: "tables \<Rightarrow> tables \<Rightarrow> bool"
  assumes rely_refl: "rely t t"
    and rely_trans: "rely t u \<Longrightarrow> rely u v \<Longrightarrow> rely t v"
    and put_shared: "PutItem C T it c w = (r, w') \<Longrightarrow> rely (tabs w) (tabs w') \<and> r \<noteq> Inr () \<or>
      (\<exists>t u. rely (tabs w) t \<and> put_effect sc T it c t = Some u \<and> rely u (tabs w') \<and>
        r \<noteq> Inl Conditional_check_failed)"
    and delete_shared: "DeleteItem C T ky w = (r, w') \<Longrightarrow> rely (tabs w) (tabs w') \<and> r \<noteq> Inr () \<or>
      (\<exists>t. rely (tabs w) t \<and> rely (set_item T (key_of (sc T) ky) None t) (tabs w'))"
    and update_shared: "UpdateItem C T ky us c w = (r, w') \<Longrightarrow> rely (tabs w) (tabs w') \<and> r \<noteq> Inr () \<or>
      (\<exists>t u. rely (tabs w) t \<and> update_effect sc T ky us c t = Some u \<and> rely u (tabs w') \<and>
        r \<noteq> Inl Conditional_check_failed)"
    and get_shared: "GetItem C T ky cr w = (gr, w') \<Longrightarrow> rely (tabs w) (tabs w')"
    and query_shared: "Query C q w = (qr, w') \<Longrightarrow> rely (tabs w) (tabs w')"

text \<open>A client that nobody else uses is one whose others do nothing.\<close>

sublocale dynamo \<subseteq> shared: shared_dynamo C tabs sc "(=)"
proof (unfold_locales, goal_cases)
  case (3 T it c w r w')
  then show ?case
    by (cases "r = Inl Conditional_check_failed"; cases r) (auto dest: put_ok put_ccf put_fail)
next
  case (4 T ky w r w')
  then show ?case by (cases r) (auto dest: delete_ok delete_fail)
next
  case (5 T ky us c w r w')
  then show ?case
    by (cases "r = Inl Conditional_check_failed"; cases r) (auto dest: update_ok update_ccf update_fail)
qed (auto dest: get_frame query_frame)

section \<open>The three writes of the broker\<close>

lemma write_assign:
  assumes "broker_inv T t" and "bound sid (runner_recs T t) = {}" and "sid \<noteq> []" and "tab_assigns T sid i t u"
  shows "confined T {sid} t u \<and> bound sid (runner_recs T u) = {i}"
proof -
  from assms(1) have t: "table_ok T t" by (simp add: broker_inv_def)
  from tab_assigns_runners [OF t assms(3,4)] have u: "table_ok T u"
    and a: "assigns sid i (runner_recs T t) (runner_recs T u)" by auto
  have b: "bound sid (runner_recs T u) = {i}" using assigns_bound [OF a] assms(2) by simp
  have o: "bound s (runner_recs T u) \<subseteq> bound s (runner_recs T t)" if "s \<noteq> sid" for s
    using session_step_bound [OF assigns_step [OF a] that] .
  have "i' = j'" if "s \<noteq> []" "i' \<in> bound s (runner_recs T u)" "j' \<in> bound s (runner_recs T u)" for s i' j'
  proof (cases "s = sid")
    case True
    with b that show ?thesis by simp
  next
    case False
    with o [OF False] that assms(1) show ?thesis unfolding broker_inv_def by blast
  qed
  with u o b show ?thesis unfolding confined_def broker_inv_def by blast
qed

lemma write_remove:
  "confined T Y t (set_item T (rkey i) None t) \<and>
   bound sid (runner_recs T (set_item T (rkey i) None t)) = bound sid (runner_recs T t) - {i}"
  by (auto simp: confined_def broker_inv_def bound_delete table_ok_del)

lemma write_register:
  assumes sc: "sc T = [''runnerId'']" and "b \<in> set idle_buckets"
    and "put_effect sc T (runner_item \<lparr>RunnerID = i, CurrentSessionID = [], IdleBucket = b, PrivateURL = url\<rparr>)
      (Some (Attribute_not_exists ''runnerId'')) t = Some u"
  shows "confined T Y t u"
proof -
  let ?it = "runner_item \<lparr>RunnerID = i, CurrentSessionID = [], IdleBucket = b, PrivateURL = url\<rparr>"
  have u: "u = set_item T (rkey i) (Some ?it) t"
    using assms(3) by (auto simp: put_effect_def Let_def sc runner_item_def split: if_splits)
  have idle: "idle_item ?it"
    using assms(2) by (auto simp: idle_item_def runner_item_def omitempty_def dest: idle_bucket_nonempty)
  show ?thesis
  proof (rule confined_shrink)
    show "table_ok T u" if "table_ok T t" using table_ok_set [OF that disjI1 [OF idle]] u by simp
    show "bound s (runner_recs T u) \<subseteq> bound s (runner_recs T t)" if "s \<noteq> []" for s
      using that by (auto simp: u bound_def split: if_splits)
  qed
qed

section \<open>The broker over a shared table\<close>

text \<open>
  \<open>X\<close> are the sessions that the others may create.  The identifiers that this broker draws are new:
  not empty, not among those, and without a runner.
\<close>

locale broker_shared = shared_dynamo "client R" tabs sc rely
  for R :: "'w DynamoRepository" and tabs :: "'w \<Rightarrow> tables" and sc :: "string \<Rightarrow> string list"
    and rely :: "tables \<Rightarrow> tables \<Rightarrow> bool" +
  fixes S :: "'w BrokerService" and X :: "string set"
  assumes schema: "sc (tableName R) = [''runnerId'']"
    and marshal: "marshalFn R rn = Inr it \<Longrightarrow> it = runner_item rn"
    and bucket: "bucketFn R w = (b, w') \<Longrightarrow> b \<in> set idle_buckets \<and> rely (tabs w) (tabs w')"
    and shuffle: "shuffleFn R rs w = (rs', w') \<Longrightarrow> rely (tabs w) (tabs w')"
    and composed: "repo S = dynamo_repository R"
    and check: "checker S = Some c \<Longrightarrow> c url w = (cr, w') \<Longrightarrow> rely (tabs w) (tabs w')"
    and session: "sessionFn S w = (sr, w') \<Longrightarrow> rely (tabs w) (tabs w')"
    and session_new: "sessionFn S w = (Inr sid, w') \<Longrightarrow>
      sid \<noteq> [] \<and> sid \<notin> X \<and> bound sid (runner_recs (tableName R) (tabs w')) = {}"
    and intN: "mrand_IntN S n w = (k, w') \<Longrightarrow> rely (tabs w) (tabs w')"
    and others: "rely t u \<Longrightarrow> confined (tableName R) X t u"
begin

abbreviation T :: string where
  "T \<equiv> tableName R"

abbreviation inv :: "'w \<Rightarrow> bool" where
  "inv w \<equiv> broker_inv T (tabs w)"

abbreviation holds :: "string \<Rightarrow> 'w \<Rightarrow> string set" where
  "holds sid w \<equiv> bound sid (runner_recs T (tabs w))"

text \<open>The request works for session \<open>sid\<close>: its own steps give runners to no other.\<close>

abbreviation during :: "string \<Rightarrow> 'w \<Rightarrow> 'w \<Rightarrow> bool" where
  "during sid w w' \<equiv> meanwhile rely (confined T {sid}) (tabs w) (tabs w')"

lemma during_trans: "during sid w w1 \<Longrightarrow> during sid w1 w2 \<Longrightarrow> during sid w w2"
  by (rule meanwhile_trans)

lemma rely_meanwhile: "rely t u \<Longrightarrow> meanwhile rely own t u"
  by (rule meanwhile_rely)

lemma during_inv: "during sid w w' \<Longrightarrow> inv w \<Longrightarrow> inv w'"
  using meanwhile_confined [OF _ others] unfolding confined_def by blast

lemma rely_holds:
  "rely t u \<Longrightarrow> broker_inv T t \<Longrightarrow> sid \<noteq> [] \<Longrightarrow> sid \<notin> X \<Longrightarrow>
   broker_inv T u \<and> bound sid (runner_recs T u) \<subseteq> bound sid (runner_recs T t)"
  using others unfolding confined_def by blast

lemma key_runner [simp]: "key_of (sc T) (runner_key i) = rkey i"
  by (simp add: schema runner_key_def)

lemma key_runner_item [simp]: "key_of (sc T) (runner_item rn) = rkey (RunnerID rn)"
  by (simp add: schema runner_item_def)

section \<open>The store\<close>

lemma assign_during:
  assumes "assignSession R i sid w = (r, w')" and w: "inv w" and sid: "sid \<noteq> []" "sid \<notin> X" and none: "holds sid w = {}"
  shows "during sid w w' \<and> holds sid w' \<subseteq> {i} \<and>
    (\<forall>e. r = Inl e \<longrightarrow> \<not> errors_is e ErrNoIdleRunner \<and> (errors_is e ErrConditionFailed \<longrightarrow> holds sid w' = {}))"
proof -
  obtain ur where u: "UpdateItem (client R) T (runner_key i)
      [Set_attr ''currentSessionId'' (AS sid), Remove_attr ''idleBucket'']
      (Some (Attribute_exists ''idleBucket'')) w = (ur, w')"
    and r: "\<And>e. r = Inl e \<Longrightarrow> \<exists>x. ur = Inl x \<and>
      e = (if x = Conditional_check_failed then Sentinel ErrConditionFailed else Wrapf ''update item'' (Foreign x))"
    using assms(1) by (auto simp: assignSession_def isConditionalCheckFailed_def split: prod.splits sum.splits if_splits)
  from update_shared [OF u] show ?thesis
  proof (elim disjE conjE exE)
    assume "rely (tabs w) (tabs w')"
    with rely_holds [OF this w sid] none r rely_meanwhile show ?thesis by (auto split: if_splits)
  next
    fix t v
    assume c: "rely (tabs w) t" "update_effect sc T (runner_key i)
        [Set_attr ''currentSessionId'' (AS sid), Remove_attr ''idleBucket'']
        (Some (Attribute_exists ''idleBucket'')) t = Some v" "rely v (tabs w')"
      "ur \<noteq> Inl Conditional_check_failed"
    from c(2) have a: "tab_assigns T sid i t v"
      by (auto simp: update_effect_def tab_assigns_def assign_item_def Let_def split: if_splits option.splits)
    from rely_holds [OF c(1) w sid] none have t: "broker_inv T t" "bound sid (runner_recs T t) = {}" by auto
    note b = write_assign [OF t sid(1) a]
    from b t(1) have "broker_inv T v" by (simp add: confined_def)
    from rely_holds [OF c(3) this sid] b have h: "holds sid w' \<subseteq> {i}" by auto
    have "during sid w w'" using meanwhile_write [of rely "tabs w" t "confined T {sid}" v "tabs w'"] c b by blast
    moreover have "\<not> errors_is e ErrNoIdleRunner \<and> \<not> errors_is e ErrConditionFailed" if "r = Inl e" for e
      using r [OF that] c(4) by auto
    ultimately show ?thesis using h by blast
  qed
qed

lemma try_during:
  "try_candidates R sid rs tried pr w = ((res, tried', pr'), w') \<Longrightarrow> inv w \<Longrightarrow> sid \<noteq> [] \<Longrightarrow> sid \<notin> X \<Longrightarrow>
   holds sid w = {} \<Longrightarrow> during sid w w' \<and>
   (case res of
      None \<Rightarrow> holds sid w' = {}
    | Some (Inr rn) \<Rightarrow> holds sid w' \<subseteq> {RunnerID rn}
    | Some (Inl e) \<Rightarrow> \<not> errors_is e ErrNoIdleRunner \<and> (\<exists>i. holds sid w' \<subseteq> {i}))"
proof (induction rs arbitrary: tried pr w)
  case Nil
  then show ?case by (auto intro: meanwhile.nothing)
next
  case (Cons rn rs)
  show ?case
  proof (cases "RunnerID rn \<in> tried")
    case True
    with Cons.prems(1) have "try_candidates R sid rs tried pr w = ((res, tried', pr'), w')" by simp
    from Cons.IH [OF this Cons.prems(2-)] show ?thesis .
  next
    case new: False
    obtain ar w1 where a: "assignSession R (RunnerID rn) sid w = (ar, w1)" by fastforce
    note d = assign_during [OF a Cons.prems(2-)]
    show ?thesis
    proof (cases "\<exists>e. ar = Inl e \<and> errors_is e ErrConditionFailed")
      case True
      with d have h: "holds sid w1 = {}" by blast
      from True new a Cons.prems(1)
      have "try_candidates R sid rs (insert (RunnerID rn) tried) True w1 = ((res, tried', pr'), w')"
        by (auto simp: Let_def)
      from Cons.IH [OF this _ Cons.prems(3,4) h] d during_inv [of sid w w1] Cons.prems(2)
        during_trans [of sid w w1 w'] show ?thesis by blast
    next
      case False
      with new a Cons.prems(1) d show ?thesis by (cases ar) (force simp: Let_def)+
    qed
  qed
qed

text \<open>The search for an idle runner.\<close>

abbreviation acquired :: "string \<Rightarrow> 'w \<Rightarrow> (berr + Runner) \<Rightarrow> 'w \<Rightarrow> bool" where
  "acquired sid w res w' \<equiv> during sid w w' \<and>
     (case res of
        Inr rn \<Rightarrow> holds sid w' \<subseteq> {RunnerID rn}
      | Inl e \<Rightarrow> (\<exists>i. holds sid w' \<subseteq> {i}) \<and> (errors_is e ErrNoIdleRunner \<longrightarrow> holds sid w' = {}))"

lemma query_idle_during: "queryIdleBucket R b w = (r, w') \<Longrightarrow> rely (tabs w) (tabs w')"
  by (auto simp: queryIdleBucket_def split: prod.splits sum.splits dest: query_shared)

lemma acquire_during:
  assumes "acquire_loop R sid b tried w = Some (res, w')" and "inv w" and "sid \<noteq> []" and "sid \<notin> X"
    and "holds sid w = {}"
  shows "acquired sid w res w'"
proof -
  let ?P = "\<lambda>r s b tried w (res, w'). r = R \<longrightarrow> s = sid \<longrightarrow> inv w \<longrightarrow> holds sid w = {} \<longrightarrow> acquired sid w res w'"
  have "?P R sid b tried w (res, w')"
  proof (rule acquire_loop.raw_induct [where P = ?P, OF _ assms(1)])
    fix f r s b tried w y
    assume IH: "\<And>r s b tried w y. f r s b tried w = Some y \<Longrightarrow> ?P r s b tried w y"
      and eq: "(case queryIdleBucket r b w of
          (Inl err, w1) \<Rightarrow> Some (Inl err, w1)
        | (Inr runners, w1) \<Rightarrow>
            if runners = [] then Some (Inl (Sentinel ErrNoIdleRunner), w1)
            else let (shuffled, w2) = shuffleFn r runners w1 in
              case try_candidates r s shuffled tried False w2 of
                ((Some res, _, _), w3) \<Rightarrow> Some (res, w3)
              | ((None, tried', progressed), w3) \<Rightarrow>
                  if \<not> progressed then Some (Inl (Sentinel ErrNoIdleRunner), w3)
                  else f r s b tried' w3) = Some y"
    obtain res w' where y: "y = (res, w')" by fastforce
    show "?P r s b tried w y"
      unfolding y prod.case
    proof (intro impI)
      assume RS: "r = R" "s = sid" and w: "inv w" and none: "holds sid w = {}"
      obtain qr w1 where q: "queryIdleBucket R b w = (qr, w1)" by fastforce
      note l1 = query_idle_during [OF q]
      from rely_holds [OF l1 w assms(3,4)] none have w1: "inv w1" "holds sid w1 = {}" by auto
      have d1: "during sid w w1" using l1 by (rule rely_meanwhile)
      show "acquired sid w res w'"
      proof (cases qr)
        case (Inl e)
        then show ?thesis using eq q d1 w1 unfolding RS y by auto
      next
        case (Inr rns)
        obtain sh w2 where sh: "shuffleFn R rns w1 = (sh, w2)" by fastforce
        obtain tr tried' pr' w3 where t: "try_candidates R sid sh tried False w2 = ((tr, tried', pr'), w3)"
          by (metis surj_pair)
        note l2 = shuffle [OF sh]
        from rely_holds [OF l2 w1(1) assms(3,4)] w1(2) have w2: "inv w2" "holds sid w2 = {}" by auto
        have d2: "during sid w w2" using d1 rely_meanwhile [OF l2] by (rule during_trans)
        note tc = try_during [OF t w2(1) assms(3,4) w2(2)]
        have d3: "during sid w w3" using during_trans [OF d2] tc by blast
        show ?thesis
        proof (cases "rns = []")
          case True
          then show ?thesis using eq q Inr d1 w1 unfolding RS y by auto
        next
          case False
          show ?thesis
          proof (cases tr)
            case (Some res1)
            then show ?thesis using eq q Inr sh t False d3 tc unfolding RS y by (cases res1) auto
          next
            case None
            show ?thesis
            proof (cases pr')
              case True
              then have "f R sid b tried' w3 = Some (res, w')" using eq q Inr sh t False None unfolding RS y by simp
              from IH [OF this] during_inv [OF d3 w] tc None have "acquired sid w3 res w'" by simp
              with during_trans [OF d3] show ?thesis by blast
            next
              case no: False
              then show ?thesis using eq q Inr sh t False None d3 tc unfolding RS y by auto
            qed
          qed
        qed
      qed
    qed
  qed
  with assms(2,5) show ?thesis by simp
qed

lemma delete_during:
  assumes "Delete R i w = (r, w')"
  shows "meanwhile rely (confined T {}) (tabs w) (tabs w') \<and>
    (sid \<noteq> [] \<longrightarrow> sid \<notin> X \<longrightarrow> inv w \<longrightarrow> holds sid w' \<subseteq> holds sid w \<and> (r = Inr () \<longrightarrow> holds sid w' \<subseteq> holds sid w - {i}))
    \<and> (\<forall>e. r = Inl e \<longrightarrow> \<not> errors_is e ErrNoIdleRunner)"
proof -
  obtain dr where d: "DeleteItem (client R) T (runner_key i) w = (dr, w')"
    and r: "r = Inr () \<longrightarrow> dr = Inr ()" "\<forall>e. r = Inl e \<longrightarrow> \<not> errors_is e ErrNoIdleRunner"
    using assms by (auto simp: Delete_def split: prod.splits sum.splits)
  from delete_shared [OF d] show ?thesis
  proof (elim disjE conjE exE)
    assume l: "rely (tabs w) (tabs w')" "dr \<noteq> Inr ()"
    with r rely_meanwhile [OF l(1)] rely_holds [OF l(1)] show ?thesis by blast
  next
    fix t
    assume c: "rely (tabs w) t" "rely (set_item T (key_of (sc T) (runner_key i)) None t) (tabs w')"
    let ?u = "set_item T (rkey i) None t"
    from c(2) have c2: "rely ?u (tabs w')" by simp
    have own: "confined T {} t ?u" using write_remove by blast
    have h: "holds sid w' \<subseteq> holds sid w - {i}" if s: "sid \<noteq> []" "sid \<notin> X" "inv w"
    proof -
      from rely_holds [OF c(1) s(3,1,2)] have t: "broker_inv T t" "bound sid (runner_recs T t) \<subseteq> holds sid w" by auto
      from own t(1) have "broker_inv T ?u" by (simp add: confined_def)
      from rely_holds [OF c2 this s(1,2)] write_remove [of T "{}" t i sid] t(2) show ?thesis by blast
    qed
    have "meanwhile rely (confined T {}) (tabs w) (tabs w')"
      using meanwhile_write [of rely "tabs w" t "confined T {}" ?u "tabs w'"] c(1) own c2 by blast
    with h r(2) show ?thesis by blast
  qed
qed

lemma during_any: "meanwhile rely (confined T {}) t u \<Longrightarrow> meanwhile rely (confined T {sid}) t u"
  by (erule meanwhile_mono) (auto intro: confined_mono)
end
end
