(* ===== verification/Broker_Concurrency.thy ===== *)
theory Broker_Concurrency
  imports Broker_Shared
begin
text \<open>
  The requests of the broker while others run, and an instance: a table that others write to
  before every call.
\<close>

context broker_shared
begin

lemma repo_ops [simp]:
  "repo_AcquireIdle (repo S) = AcquireIdle R" "repo_Delete (repo S) = Delete R"
  "repo_FindBySessionID (repo S) = FindBySessionID R" "repo_Register (repo S) = Register R"
  by (simp_all add: composed dynamo_repository_def)

abbreviation drained :: "string \<Rightarrow> 'w \<Rightarrow> (berr + CreateSessionResult) option \<Rightarrow> 'w \<Rightarrow> bool" where
  "drained sid w res w' \<equiv> during sid w w' \<and>
     (case res of
        None \<Rightarrow> holds sid w' = {}
      | Some (Inl e) \<Rightarrow> (\<exists>i. holds sid w' \<subseteq> {i})
      | Some (Inr c) \<Rightarrow> cs_SessionID c = sid \<and> holds sid w' \<subseteq> {RunnerID (cs_Runner c)})"

text \<open>After an acquisition: the runner is healthy, or it is deleted and the session is free again.\<close>

lemma settle_during:
  assumes w1: "inv w1" "holds sid w1 \<subseteq> {RunnerID runner}" and sid: "sid \<noteq> []" "sid \<notin> X"
    and body: "(case checker S of
             None \<Rightarrow> Some (Some (Inr \<lparr>cs_SessionID = sid, cs_Runner = runner\<rparr>), w1)
           | Some check \<Rightarrow>
               (case check (PrivateURL runner) w1 of
                  (Inr _, w2) \<Rightarrow> Some (Some (Inr \<lparr>cs_SessionID = sid, cs_Runner = runner\<rparr>), w2)
                | (Inl checkErr, w2) \<Rightarrow>
                    (case ctx_Err S w2 of
                       Some e \<Rightarrow> Some (Some (Inl (Foreign e)), w2)
                     | None \<Rightarrow>
                         (case repo_Delete (repo S) (RunnerID runner) w2 of
                            (Inl err, w3) \<Rightarrow>
                              Some (Some (Inl (Wrapf (''delete unhealthy runner '' @ RunnerID runner) err)), w3)
                          | (Inr _, w3) \<Rightarrow> loop S sid b w3)))) = x"
  obtains (stop) res w' where "x = Some (Some res, w')" "drained sid w1 (Some res) w'"
  | (again) w3 where "x = loop S sid b w3" "during sid w1 w3" "holds sid w3 = {}"
proof (cases "checker S")
  case None
  with body w1 stop [of "Inr \<lparr>cs_SessionID = sid, cs_Runner = runner\<rparr>" w1] show thesis
    by (auto intro: meanwhile.nothing)
next
  case (Some chk)
  obtain cr w2 where c: "chk (PrivateURL runner) w1 = (cr, w2)" by fastforce
  note l = check [OF Some c]
  from rely_holds [OF l w1(1) sid] w1(2) have w2: "inv w2" "holds sid w2 \<subseteq> {RunnerID runner}" by auto
  have d2: "during sid w1 w2" using l by (rule rely_meanwhile)
  show thesis
  proof (cases cr)
    case (Inr u)
    with Some c body w2 d2 stop [of "Inr \<lparr>cs_SessionID = sid, cs_Runner = runner\<rparr>" w2] show thesis by simp
  next
    case (Inl ce)
    show thesis
    proof (cases "ctx_Err S w2")
      case (Some e)
      with \<open>checker S = Some chk\<close> c Inl body w2 d2 stop [of "Inl (Foreign e)" w2] show thesis by auto
    next
      case None
      obtain dr w3 where del: "Delete R (RunnerID runner) w2 = (dr, w3)" by fastforce
      from delete_during [OF del, of sid] sid w2
      have k: "meanwhile rely (confined T {}) (tabs w2) (tabs w3)" "holds sid w3 \<subseteq> {RunnerID runner}"
        "dr = Inr () \<Longrightarrow> holds sid w3 = {}" by auto
      have d3: "during sid w1 w3" using during_trans [OF d2 during_any [OF k(1)]] .
      show thesis
      proof (cases dr)
        case (Inr u)
        with \<open>checker S = Some chk\<close> c Inl None body del d3 k(3) again [of w3] show thesis by simp
      next
        case e: (Inl e)
        with \<open>checker S = Some chk\<close> c Inl None body del d3 k(2)
          stop [of "Inl (Wrapf (''delete unhealthy runner '' @ RunnerID runner) e)" w3]
        show thesis by auto
      qed
    qed
  qed
qed

lemma drain_during:
  assumes "drain_bucket S sid b w = Some (res, w')" and "inv w" and sid: "sid \<noteq> []" "sid \<notin> X"
    and "holds sid w = {}"
  shows "drained sid w res w'"
proof -
  let ?P = "\<lambda>s i b w (res, w'). s = S \<longrightarrow> i = sid \<longrightarrow> inv w \<longrightarrow> holds sid w = {} \<longrightarrow> drained sid w res w'"
  have "?P S sid b w (res, w')"
  proof (rule drain_bucket.raw_induct [where P = ?P, OF _ assms(1)])
    fix f s i b w y
    assume IH: "\<And>s i b w y. f s i b w = Some y \<Longrightarrow> ?P s i b w y"
      and eq: "(case repo_AcquireIdle (repo s) i b w of
        None \<Rightarrow> None
      | Some (Inl err, w1) \<Rightarrow>
          if errors_is err ErrNoIdleRunner then Some (None, w1) else Some (Some (Inl err), w1)
      | Some (Inr runner, w1) \<Rightarrow>
          (case checker s of
             None \<Rightarrow> Some (Some (Inr \<lparr>cs_SessionID = i, cs_Runner = runner\<rparr>), w1)
           | Some check \<Rightarrow>
               (case check (PrivateURL runner) w1 of
                  (Inr _, w2) \<Rightarrow> Some (Some (Inr \<lparr>cs_SessionID = i, cs_Runner = runner\<rparr>), w2)
                | (Inl checkErr, w2) \<Rightarrow>
                    (case ctx_Err s w2 of
                       Some e \<Rightarrow> Some (Some (Inl (Foreign e)), w2)
                     | None \<Rightarrow>
                         (case repo_Delete (repo s) (RunnerID runner) w2 of
                            (Inl err, w3) \<Rightarrow>
                              Some (Some (Inl (Wrapf (''delete unhealthy runner '' @ RunnerID runner) err)), w3)
                          | (Inr _, w3) \<Rightarrow> f s i b w3))))) = Some y"
    obtain res w' where y: "y = (res, w')" by fastforce
    show "?P s i b w y"
      unfolding y prod.case
    proof (intro impI)
      assume SI: "s = S" "i = sid" and w: "inv w" and none: "holds sid w = {}"
      obtain ar w1 where a: "AcquireIdle R sid b w = Some (ar, w1)"
        using eq unfolding SI repo_ops by (cases "AcquireIdle R sid b w") auto
      note acq = acquire_during [OF a [unfolded AcquireIdle_def] w sid none]
      have d1: "during sid w w1" using acq by blast
      show "drained sid w res w'"
      proof (cases ar)
        case (Inl e)
        show ?thesis
        proof (cases "errors_is e ErrNoIdleRunner")
          case True
          then have "res = None" "w' = w1" using eq a Inl unfolding SI y repo_ops by auto
          then show ?thesis using acq Inl True by simp
        next
          case False
          then have "res = Some (Inl e)" "w' = w1" using eq a Inl unfolding SI y repo_ops by auto
          then show ?thesis using acq Inl by simp
        qed
      next
        case (Inr runner)
        have w1: "inv w1" "holds sid w1 \<subseteq> {RunnerID runner}" using acq Inr during_inv [OF d1 w] by auto
        from eq a Inr have body: "(case checker S of
             None \<Rightarrow> Some (Some (Inr \<lparr>cs_SessionID = sid, cs_Runner = runner\<rparr>), w1)
           | Some check \<Rightarrow>
               (case check (PrivateURL runner) w1 of
                  (Inr _, w2) \<Rightarrow> Some (Some (Inr \<lparr>cs_SessionID = sid, cs_Runner = runner\<rparr>), w2)
                | (Inl checkErr, w2) \<Rightarrow>
                    (case ctx_Err S w2 of
                       Some e \<Rightarrow> Some (Some (Inl (Foreign e)), w2)
                     | None \<Rightarrow>
                         (case repo_Delete (repo S) (RunnerID runner) w2 of
                            (Inl err, w3) \<Rightarrow>
                              Some (Some (Inl (Wrapf (''delete unhealthy runner '' @ RunnerID runner) err)), w3)
                          | (Inr _, w3) \<Rightarrow> f S sid b w3)))) = Some (res, w')"
          unfolding SI y by (simp only: repo_ops option.case prod.case sum.case)
        show ?thesis
        proof (rule settle_during [where loop = f, OF w1 sid body])
          fix r v
          assume stop: "Some (res, w') = Some (Some r, v)" "drained sid w1 (Some r) v"
          then have e: "res = Some r" "w' = v" by auto
          from stop(2) have "during sid w v" using during_trans [OF d1] by blast
          with stop(2) show ?thesis unfolding e by simp
        next
          fix w3
          assume again: "Some (res, w') = f S sid b w3" "during sid w1 w3" "holds sid w3 = {}"
          from IH [OF again(1) [symmetric]] again(2,3) during_inv [OF again(2) w1(1)]
          have "drained sid w3 res w'" by simp
          with during_trans [OF during_trans [OF d1 again(2)], of w'] show ?thesis by blast
        qed
      qed
    qed
  qed
  with assms(2,5) show ?thesis by simp
qed

lemma create_buckets_during:
  "create_buckets S sid start bc is w = Some (res, w') \<Longrightarrow> inv w \<Longrightarrow> sid \<noteq> [] \<Longrightarrow> sid \<notin> X \<Longrightarrow>
   holds sid w = {} \<Longrightarrow> drained sid w (Some res) w'"
proof (induction "is" arbitrary: w)
  case Nil
  then show ?case by (auto intro: meanwhile.nothing)
next
  case (Cons i "is")
  obtain r w1 where d: "drain_bucket S sid ((start + i) mod bc) w = Some (r, w1)"
    using Cons.prems(1) by (cases "drain_bucket S sid ((start + i) mod bc) w") auto
  note post = drain_during [OF d Cons.prems(2-)]
  show ?case
  proof (cases r)
    case (Some res1)
    with Cons.prems(1) d have "res1 = res" "w1 = w'" by auto
    show ?thesis using post unfolding Some \<open>res1 = res\<close> \<open>w1 = w'\<close> by simp
  next
    case None
    have d1: "during sid w w1" using post by blast
    from None Cons.prems(1) d have "create_buckets S sid start bc is w1 = Some (res, w')" by simp
    from Cons.IH [OF this during_inv [OF d1 Cons.prems(2)] Cons.prems(3,4)] post None
    have "drained sid w1 (Some res) w'" by simp
    with during_trans [OF d1, of w'] show ?thesis by blast
  qed
qed

text \<open>A new session: it belongs to no other request and ends up with at most one runner.\<close>

abbreviation mine :: "string set \<Rightarrow> 'w \<Rightarrow> 'w \<Rightarrow> bool" where
  "mine Y w w' \<equiv> Y \<inter> X = {} \<and> meanwhile rely (confined T Y) (tabs w) (tabs w')"

lemma create_during:
  assumes "createSession S w = Some (res, w')" and w: "inv w"
  shows "\<exists>Y. mine Y w w' \<and> (case res of
      Inl e \<Rightarrow> \<exists>s. Y \<subseteq> {s}
    | Inr c \<Rightarrow> Y = {cs_SessionID c} \<and> bound (cs_SessionID c) (runner_recs T (tabs w')) \<subseteq> {RunnerID (cs_Runner c)})"
proof -
  obtain sr w1 where s: "sessionFn S w = (sr, w1)" by fastforce
  note l1 = session [OF s]
  show ?thesis
  proof (cases sr)
    case (Inl e)
    then have "res = Inl e" "w' = w1" using assms(1) s by (auto simp: createSession_def)
    then show ?thesis using rely_meanwhile [OF l1, of "confined T {}"] by (intro exI [of _ "{}"]) simp
  next
    case (Inr sid)
    note new = session_new [OF s [unfolded Inr]]
    obtain start w2 where i: "mrand_IntN S (repo_BucketCount (repo S)) w1 = (start, w2)" by fastforce
    note l2 = intN [OF i]
    from others [OF l1] w have w1: "inv w1" by (simp add: confined_def)
    from rely_holds [OF l2 w1] new have w2: "inv w2" "holds sid w2 = {}" by auto
    have "create_buckets S sid start (repo_BucketCount (repo S)) [0..<repo_BucketCount (repo S)] w2 = Some (res, w')"
      using assms(1) s Inr i by (simp add: createSession_def Let_def)
    from create_buckets_during [OF this w2(1) _ _ w2(2)] new have post: "drained sid w2 (Some res) w'" by blast
    have "during sid w w2" using during_trans [OF rely_meanwhile [OF l1] rely_meanwhile [OF l2]] .
    with post have "during sid w w'" using during_trans by blast
    with post new show ?thesis by (intro exI [of _ "{sid}"]) (auto split: sum.splits)
  qed
qed

lemma resolve_new_during:
  assumes "resolve_new S b w = Some (res, w')" and "inv w"
  shows "\<exists>Y. mine Y w w' \<and> (\<exists>s. Y \<subseteq> {s}) \<and>
    (\<forall>r. res = Inr r \<longrightarrow> Created r \<and> Y = {SessionID r} \<and> (\<exists>i. bound (SessionID r) (runner_recs T (tabs w')) \<subseteq> {i}))"
proof -
  obtain cr where c: "createSession S w = Some (cr, w')"
    using assms(1) by (auto simp: resolve_new_def split: option.splits prod.splits sum.splits)
  from create_during [OF c assms(2)] obtain Y where Y: "mine Y w w'"
    "case cr of Inl e \<Rightarrow> \<exists>s. Y \<subseteq> {s}
     | Inr c \<Rightarrow> Y = {cs_SessionID c} \<and> bound (cs_SessionID c) (runner_recs T (tabs w')) \<subseteq> {RunnerID (cs_Runner c)}"
    by blast
  show ?thesis
    by (rule exI [of _ Y]) (use Y c assms(1) in \<open>cases cr; fastforce simp: resolve_new_def\<close>)
qed

lemma mine_after:
  assumes "meanwhile rely (confined T {}) (tabs w) (tabs w1)" and "mine Y w1 w'"
  shows "mine Y w w'"
proof -
  have "meanwhile rely (confined T Y) (tabs w) (tabs w1)"
    by (rule meanwhile_mono [OF assms(1)]) (auto intro: confined_mono)
  then show ?thesis using assms(2) meanwhile_trans by blast
qed

lemma find_session_during: "FindBySessionID R sid w = (r, w') \<Longrightarrow> rely (tabs w) (tabs w')"
  by (auto simp: FindBySessionID_def split: prod.splits sum.splits list.splits dest: query_shared)

lemma find_id_during: "FindByID R i w = (r, w') \<Longrightarrow> rely (tabs w) (tabs w')"
  by (auto simp: FindByID_def split: prod.splits sum.splits option.splits dest: get_shared)

lemma quiet_inv: "meanwhile rely (confined T {}) (tabs w) (tabs w') \<Longrightarrow> inv w \<Longrightarrow> inv w'"
  using meanwhile_confined [OF _ others, where Y = "{}"] unfolding confined_def by blast

text \<open>The start of a resolution, up to the creation of a new session.\<close>

lemma resolve_during:
  assumes "ResolveSession S sid w = Some (res, w')" and w: "inv w"
  shows "\<exists>Y. mine Y w w' \<and> (\<exists>s. Y \<subseteq> {s}) \<and>
    (\<forall>r. res = Inr r \<longrightarrow> Created r \<longrightarrow> Y = {SessionID r} \<and> (\<exists>i. bound (SessionID r) (runner_recs T (tabs w')) \<subseteq> {i}))"
proof -
  let ?quiet = "\<lambda>v. meanwhile rely (confined T {}) (tabs w) (tabs v)"
  have early: ?thesis if "?quiet w'" "\<And>r. res = Inr r \<Longrightarrow> \<not> Created r"
    by (rule exI [of _ "{}"]) (use that in auto)
  have new: ?thesis if q: "?quiet v" and r: "resolve_new S b v = Some (res, w')" for v b
    using resolve_new_during [OF r quiet_inv [OF q w]] mine_after [OF q] by metis
  show ?thesis
  proof (cases "sid = []")
    case True
    with assms(1) have "resolve_new S False w = Some (res, w')" by (simp add: ResolveSession_def)
    from new [OF meanwhile.nothing this] show ?thesis .
  next
    case False
    obtain fr w1 where f: "FindBySessionID R sid w = (fr, w1)" by fastforce
    have q1: "?quiet w1" using find_session_during [OF f] by (rule rely_meanwhile)
    show ?thesis
    proof (cases fr)
      case (Inl e)
      then show ?thesis using assms(1) f False new [OF q1, of False] early q1
        by (auto simp: ResolveSession_def split: if_splits)
    next
      case (Inr rn)
      show ?thesis
      proof (cases "checker S")
        case None
        then show ?thesis using assms(1) f False Inr early q1 by (auto simp: ResolveSession_def)
      next
        case (Some chk)
        obtain cr w2 where c: "chk (PrivateURL rn) w1 = (cr, w2)" by fastforce
        have q2: "?quiet w2" using meanwhile_trans [OF rely_meanwhile [OF check [OF Some c]] q1] .
        show ?thesis
        proof (cases "\<exists>u. cr = Inr u \<or> ctx_Err S w2 \<noteq> None")
          case True
          then show ?thesis using assms(1) f False Inr Some c early q2
            by (cases cr) (auto simp: ResolveSession_def)
        next
          case no: False
          then obtain ce where ce: "cr = Inl ce" "ctx_Err S w2 = None" by (cases cr) auto
          obtain dr w3 where d: "Delete R (RunnerID rn) w2 = (dr, w3)" by fastforce
          have q3: "?quiet w3" using meanwhile_trans [OF conjunct1 [OF delete_during [OF d]] q2] .
          show ?thesis
          proof (cases dr)
            case (Inl e)
            then show ?thesis using assms(1) f False \<open>fr = Inr rn\<close> Some c ce d early q3
              by (auto simp: ResolveSession_def)
          next
            case (Inr u)
            then have "resolve_new S True w3 = Some (res, w')"
              using assms(1) f False \<open>fr = Inr rn\<close> Some c ce d by (simp add: ResolveSession_def)
            from new [OF q3 this] show ?thesis .
          qed
        qed
      qed
    qed
  qed
qed

lemma close_during:
  assumes "CloseSession S sid w = (res, w')"
  shows "meanwhile rely (confined T {}) (tabs w) (tabs w')"
proof -
  obtain fr w1 where f: "FindBySessionID R sid w = (fr, w1)" by fastforce
  have q: "meanwhile rely (confined T {}) (tabs w) (tabs w1)"
    using find_session_during [OF f] by (rule rely_meanwhile)
  show ?thesis
  proof (cases fr)
    case (Inl e)
    with assms f q show ?thesis by (simp add: CloseSession_def)
  next
    case (Inr rn)
    with assms f have d: "Delete R (RunnerID rn) w1 = (res, w')" by (simp add: CloseSession_def)
    show ?thesis using meanwhile_trans [OF conjunct1 [OF delete_during [OF d]] q] .
  qed
qed

lemma register_during:
  assumes "Register R i url w = (res, w')"
  shows "meanwhile rely (confined T {}) (tabs w) (tabs w')"
proof (cases "url = []")
  case True
  with assms show ?thesis by (auto simp: Register_def intro: meanwhile.nothing)
next
  case False
  let ?M = "meanwhile rely (confined T {})"
  let ?rn = "\<lambda>b. \<lparr>RunnerID = i, CurrentSessionID = [], IdleBucket = b, PrivateURL = url\<rparr>"
  obtain b w1 where b: "bucketFn R w = (b, w1)" by fastforce
  from bucket [OF b] have b': "b \<in> set idle_buckets" and q1: "?M (tabs w) (tabs w1)"
    by (auto intro: rely_meanwhile)
  show ?thesis
  proof (cases "marshalFn R (?rn b)")
    case (Inl e)
    with assms False b q1 show ?thesis by (simp add: Register_def)
  next
    case (Inr it)
    note it = marshal [OF Inr]
    obtain pr w2 where p: "PutItem (client R) T it (Some (Attribute_not_exists ''runnerId'')) w1 = (pr, w2)" by fastforce
    have m: "?M (tabs w1) (tabs w2)"
      using put_shared [OF p] write_register [where sc = sc and T = T and Y = "{}" and i = i and url = url, OF schema b'] unfolding it
      using rely_meanwhile meanwhile_write [of rely _ _ "confined T {}"] by metis
    have q2: "?M (tabs w) (tabs w2)" using meanwhile_trans [OF m q1] .
    obtain fr w3 where f: "FindByID R i w2 = (fr, w3)" by fastforce
    have q3: "?M (tabs w) (tabs w3)" using meanwhile_trans [OF rely_meanwhile [OF find_id_during [OF f]] q2] .
    have "w' = w2 \<or> w' = w3"
      using assms False b Inr p f
      by (auto simp: Register_def Let_def split: sum.splits if_splits)
    with q2 q3 show ?thesis by auto
  qed
qed

text \<open>Every request.\<close>

lemma request_during:
  assumes "broker_step S w w'" and "inv w"
  shows "\<exists>Y. mine Y w w' \<and> (\<exists>s. Y \<subseteq> {s})"
  using assms(1)
proof (cases rule: broker_step.cases)
  case (resolve sid res)
  from resolve_during [OF this assms(2)] show ?thesis by blast
next
  case (close sid cres)
  from close_during [OF this] show ?thesis by (intro exI [of _ "{}"]) simp
next
  case (register i url rres)
  from register_during [OF register [unfolded RegisterRunner_def repo_ops]] show ?thesis
    by (intro exI [of _ "{}"]) simp
next
  case (deregister i dres)
  from delete_during [OF deregister [unfolded DeregisterRunner_def repo_ops]] show ?thesis
    by (intro exI [of _ "{}"]) simp
qed

end
end
