(* ===== verification/Broker_Interference.thy ===== *)
theory Broker_Interference
  imports Broker_Concurrency
begin
text \<open>
  A table that others write to: before every call of a request one of their actions takes place, and
  queries still show the table before it.  The promise of \<open>broker_shared\<close> holds, and with it the
  property of concurrent requests.
\<close>

section \<open>A table with interference\<close>

datatype other_act = Other_put string string | Other_assign string string | Other_remove string

record busy_mem = mem +
  acts :: "other_act list"

text \<open>The others draw identifiers that start with \<^verbatim>\<open>o\<close>, and give a session a runner only while it has none.\<close>

definition other_sessions :: "string set" where
  "other_sessions = {s. \<exists>t. s = CHR ''o'' # t}"

abbreviation runners_table :: string where
  "runners_table \<equiv> ''bunshin-runners''"

fun other_writes :: "other_act \<Rightarrow> 'a mem_scheme \<Rightarrow> 'a mem_scheme" where
  "other_writes (Other_put i url) w = snd (mem_put demo_schema runners_table
     (runner_item \<lparr>RunnerID = i, CurrentSessionID = [], IdleBucket = bucket_key 0, PrivateURL = url\<rparr>)
     (Some (Attribute_not_exists ''runnerId'')) w)"
| "other_writes (Other_assign s i) w =
     (if take 1 s = ''o'' \<and> list_all (\<lambda>it. str_attr it ''currentSessionId'' \<noteq> s) (mem_items w runners_table)
      then snd (mem_update demo_schema runners_table (runner_key i)
             [Set_attr ''currentSessionId'' (AS s), Remove_attr ''idleBucket'']
             (Some (Attribute_exists ''idleBucket'')) w)
      else w)"
| "other_writes (Other_remove i) w = snd (mem_delete demo_schema runners_table (runner_key i) w)"

definition disturb :: "busy_mem \<Rightarrow> busy_mem" where
  "disturb w = (case acts w of [] \<Rightarrow> w | a # as \<Rightarrow> other_writes a (w\<lparr>acts := as\<rparr>))"

definition busy_client :: "busy_mem ddb" where
  "busy_client = \<lparr>PutItem = (\<lambda>T it c w. mem_put demo_schema T it c (disturb w)),
     GetItem = (\<lambda>T ky cr w. mem_get demo_schema T ky cr (disturb w)),
     DeleteItem = (\<lambda>T ky w. mem_delete demo_schema T ky (disturb w)),
     UpdateItem = (\<lambda>T ky us c w. mem_update demo_schema T ky us c (disturb w)),
     Query = (\<lambda>q w. (fst (mem_query demo_schema q w), disturb w)),
     TransactWriteItems = (\<lambda>ts w. mem_transact demo_schema ts (disturb w))\<rparr>"

abbreviation busy_tabs :: "busy_mem \<Rightarrow> tables" where
  "busy_tabs \<equiv> mem_tabs demo_schema"

abbreviation others_may :: "tables \<Rightarrow> tables \<Rightarrow> bool" where
  "others_may \<equiv> confined runners_table other_sessions"

lemma schema_runners: "demo_schema T = [''runnerId'']"
  by (simp add: demo_schema_def)

lemma key_demo [simp]: "key_of (demo_schema T) (runner_key i) = rkey i"
  by (simp add: runner_key_def schema_runners)

lemma mem_put_effect:
  "put_effect sc T it c (mem_tabs sc w) = (case mem_put sc T it c w of (Inr _, v) \<Rightarrow> Some (mem_tabs sc v) | _ \<Rightarrow> None)"
  by (simp add: mem_put_def put_effect_def Let_def)

lemma mem_put_cases:
  "mem_put sc T it c w = (r, v) \<Longrightarrow> v = w \<and> r = Inl Conditional_check_failed \<or>
   r = Inr () \<and> put_effect sc T it c (mem_tabs sc w) = Some (mem_tabs sc v)"
  by (auto simp: mem_put_def put_effect_def Let_def split: if_splits)

lemma mem_update_cases:
  "mem_update sc T ky us c w = (r, v) \<Longrightarrow> v = w \<and> r \<noteq> Inr () \<or>
   r = Inr () \<and> update_effect sc T ky us c (mem_tabs sc w) = Some (mem_tabs sc v)"
  using mem_new_item_effect [of c sc w T ky us]
  by (auto simp: mem_update_def split: if_splits option.splits)

lemma other_writes_confined: "others_may (mem_tabs demo_schema w) (mem_tabs demo_schema (other_writes a w))"
proof (cases a)
  case (Other_put i url)
  let ?it = "runner_item \<lparr>RunnerID = i, CurrentSessionID = [], IdleBucket = bucket_key 0, PrivateURL = url\<rparr>"
  obtain r v where p: "mem_put demo_schema runners_table ?it (Some (Attribute_not_exists ''runnerId'')) w = (r, v)"
    by fastforce
  have b: "bucket_key 0 \<in> set idle_buckets" by (simp add: idle_buckets_def bucketCount_def)
  from mem_put_cases [OF p] write_register [of demo_schema runners_table, OF schema_runners b] p Other_put show ?thesis by auto
next
  case (Other_assign s i)
  show ?thesis
  proof (cases "take 1 s = ''o'' \<and> list_all (\<lambda>it. str_attr it ''currentSessionId'' \<noteq> s) (mem_items w runners_table)")
    case False
    then show ?thesis using Other_assign by auto
  next
    case True
    then obtain s' where s: "s = CHR ''o'' # s'" by (cases s) auto
    obtain r v where u: "mem_update demo_schema runners_table (runner_key i)
        [Set_attr ''currentSessionId'' (AS s), Remove_attr ''idleBucket'']
        (Some (Attribute_exists ''idleBucket'')) w = (r, v)" by fastforce
    have free: "bound s (runner_recs runners_table (mem_tabs demo_schema w)) = {}"
      using True by (auto simp: bound_def runner_recs_def runner_of_def mem_tabs_def list_all_iff dest!: mem_find_Some)
    show ?thesis
    proof (cases "r = Inr ()")
      case False
      then show ?thesis using mem_update_cases [OF u] Other_assign True u by auto
    next
      case r: True
      with mem_update_cases [OF u] have e: "update_effect demo_schema runners_table (runner_key i)
          [Set_attr ''currentSessionId'' (AS s), Remove_attr ''idleBucket''] (Some (Attribute_exists ''idleBucket''))
          (mem_tabs demo_schema w) = Some (mem_tabs demo_schema v)" by auto
      then have a: "tab_assigns runners_table s i (mem_tabs demo_schema w) (mem_tabs demo_schema v)"
        by (auto simp: update_effect_def tab_assigns_def assign_item_def Let_def
            split: if_splits option.splits)
      have "others_may (mem_tabs demo_schema w) (mem_tabs demo_schema v)"
      proof (cases "broker_inv runners_table (mem_tabs demo_schema w)")
        case True
        from write_assign [OF True free _ a] s have "confined runners_table {s} (mem_tabs demo_schema w) (mem_tabs demo_schema v)"
          by simp
        then show ?thesis by (rule confined_mono) (simp add: other_sessions_def s)
      qed (simp add: confined_def)
      then show ?thesis using Other_assign True u by simp
    qed
  qed
next
  case (Other_remove i)
  then show ?thesis using write_remove [of runners_table other_sessions "mem_tabs demo_schema w" i]
    by (simp add: mem_delete_def)
qed

lemma tabs_acts [simp]: "mem_tabs sc (w\<lparr>acts := as\<rparr>) = mem_tabs sc w"
  by (intro ext) (simp add: mem_tabs_def)

lemma disturb_confined: "others_may (busy_tabs w) (busy_tabs (disturb w))"
proof (cases "acts w")
  case (Cons a as)
  then show ?thesis using other_writes_confined [of "w\<lparr>acts := as\<rparr>" a] by (simp add: disturb_def)
qed (simp add: disturb_def)

lemma busy_shared: "shared_dynamo busy_client busy_tabs demo_schema others_may"
proof (unfold_locales, goal_cases)
  case (2 t u v)
  then show ?case by (rule confined_trans)
next
  case (3 T it c w r w')
  then have "mem_put demo_schema T it c (disturb w) = (r, w')" by (simp add: busy_client_def)
  from mem_put_cases [OF this] disturb_confined [of w] show ?case by fastforce
next
  case (4 T ky w r w')
  then have w': "busy_tabs w' = set_item T (key_of (demo_schema T) ky) None (busy_tabs (disturb w))"
    by (auto simp: busy_client_def mem_delete_def)
  show ?case unfolding w' using disturb_confined [of w] by blast
next
  case (5 T ky us c w r w')
  then have "mem_update demo_schema T ky us c (disturb w) = (r, w')" by (simp add: busy_client_def)
  from mem_update_cases [OF this] disturb_confined [of w] show ?case by fastforce
qed (use disturb_confined in \<open>auto simp: busy_client_def mem_get_def\<close>)

section \<open>The broker over it\<close>

definition busy_repository :: "busy_mem DynamoRepository" where
  "busy_repository =
     \<lparr>client = busy_client, tableName = runners_table, bucketFn = defaultBucketFn (\<lambda>n w. (0, w)),
      marshalFn = (\<lambda>rn. Inr (runner_item rn)), unmarshalFn = (\<lambda>it. Inr (runner_of it)),
      shuffleFn = (\<lambda>rs w. (rs, w))\<rparr>"

definition busy_fresh :: "busy_mem \<Rightarrow> string" where
  "busy_fresh w = replicate (Suc (sum_list (map (\<lambda>it. length (str_attr it ''currentSessionId''))
     (mem_items w runners_table)))) CHR ''s''"

definition busy_service :: "busy_mem BrokerService" where
  "busy_service =
     \<lparr>repo = dynamo_repository busy_repository,
      checker = Some (\<lambda>url w. if url = ''http://dead'' then (Inl (Foreign (Opaque_error ''timeout'')), w)
                              else (Inr (), w)),
      sessionFn = (\<lambda>w. (Inr (busy_fresh w), w)), ctx_Err = (\<lambda>w. None), mrand_IntN = (\<lambda>n w. (0, w))\<rparr>"

lemma busy_fresh_unused: "bound (busy_fresh w) (runner_recs runners_table (busy_tabs w)) = {}"
proof -
  have "length (str_attr it ''currentSessionId'') < length (busy_fresh w)"
    if "it \<in> set (mem_items w runners_table)" for it
    using member_le_sum_list [of "length (str_attr it ''currentSessionId'')"] that
    by (auto simp: busy_fresh_def le_imp_less_Suc)
  then show ?thesis
    by (fastforce simp: bound_def runner_recs_def mem_tabs_def runner_of_def dest: mem_find_Some)
qed

lemma busy_fresh_mine: "busy_fresh w \<noteq> [] \<and> busy_fresh w \<notin> other_sessions"
  by (simp add: busy_fresh_def other_sessions_def)

interpretation busy: broker_shared busy_repository busy_tabs demo_schema others_may busy_service other_sessions
proof (intro broker_shared.intro broker_shared_axioms.intro)
  show "shared_dynamo (client busy_repository) busy_tabs demo_schema others_may"
    using busy_shared by (simp add: busy_repository_def)
  show "sid \<noteq> [] \<and> sid \<notin> other_sessions \<and> bound sid (runner_recs (tableName busy_repository) (busy_tabs w')) = {}"
    if "sessionFn busy_service w = (Inr sid, w')" for w sid w'
    using that busy_fresh_unused busy_fresh_mine by (auto simp: busy_service_def busy_repository_def)
qed (auto simp: busy_repository_def busy_service_def defaultBucketFn_def idle_buckets_def bucketCount_def schema_runners
    split: if_splits)

section \<open>Concurrent requests\<close>

text \<open>C3. Sessions stay exclusive while requests run concurrently.  Let the others (any number of requests
  of any number of brokers) write to the table between the calls of a request, keeping the invariant and
  giving runners only to their own sessions \<open>X\<close>, and let index reads show anything.  Then a request, whatever it
  answers, (1) leaves a table in which every runner is idle or busy, under its own identifier, and no two
  runners serve one session; (2) writes, in between, only steps of the same kind, confined to at most
  one session, which is not in \<open>X\<close>: it is a well-behaved other for all the others.\<close>

theorem sessions_exclusive_concurrently:
  assumes "broker_shared R tabs sc rely S X" and "broker_step S w w'" and "broker_inv (tableName R) (tabs w)"
  shows "broker_inv (tableName R) (tabs w') \<and>
    (\<exists>Y s. Y \<subseteq> {s} \<and> Y \<inter> X = {} \<and> meanwhile rely (confined (tableName R) Y) (tabs w) (tabs w'))"
proof -
  from broker_shared.request_during [OF assms] obtain Y s where
    Y: "Y \<inter> X = {}" "meanwhile rely (confined (tableName R) Y) (tabs w) (tabs w')" "Y \<subseteq> {s}" by blast
  from meanwhile_confined [OF Y(2) broker_shared.others [OF assms(1)], where Y = Y] assms(3)
  have "broker_inv (tableName R) (tabs w')" unfolding confined_def by blast
  with Y show ?thesis by blast
qed


lemma busy_parts [simp]:
  "client busy_repository = busy_client" "tableName busy_repository = runners_table"
  "unmarshalFn busy_repository = (\<lambda>it. Inr (runner_of it))" "shuffleFn busy_repository rs w = (rs, w)"
  "repo busy_service = dynamo_repository busy_repository"
  "sessionFn busy_service w = (Inr (busy_fresh w), w)" "mrand_IntN busy_service n w = (0, w)"
  by (simp_all add: busy_repository_def busy_service_def)

definition busy_world :: "item list \<Rightarrow> other_act list \<Rightarrow> busy_mem" where
  "busy_world its as = \<lparr>mem_items = (\<lambda>T. if T = runners_table then its else []), acts = as\<rparr>"

lemma busy_world_parts [simp]:
  "mem_items (busy_world its as) runners_table = its" "acts (busy_world its as) = as"
  "acts_update (\<lambda>_. as') (busy_world its as) = busy_world its as'"
  "mem_with runners_table its' (busy_world its as) = busy_world its' as"
  by (auto simp: busy_world_def mem_with_def)

text \<open>Two idle runners; another request takes the first one right after this one has read the index.\<close>

abbreviation item_a :: item where
  "item_a \<equiv> [''runnerId'' \<mapsto> AS ''a'', ''idleBucket'' \<mapsto> AS (bucket_key 0), ''privateUrl'' \<mapsto> AS ''http://a'']"

abbreviation item_b :: item where
  "item_b \<equiv> [''runnerId'' \<mapsto> AS ''b'', ''idleBucket'' \<mapsto> AS (bucket_key 0), ''privateUrl'' \<mapsto> AS ''http://b'']"

abbreviation taken_a :: item where
  "taken_a \<equiv> [''runnerId'' \<mapsto> AS ''a'', ''privateUrl'' \<mapsto> AS ''http://a'', ''currentSessionId'' \<mapsto> AS ''o1'']"

abbreviation taken_b :: item where
  "taken_b \<equiv> [''runnerId'' \<mapsto> AS ''b'', ''privateUrl'' \<mapsto> AS ''http://b'', ''currentSessionId'' \<mapsto> AS ''s'']"

lemmas busy_eval = busy_client_def mem_query_def idle_query_def mem_view_def schema_runners
  disturb_def mem_update_def mem_tabs_def mem_find_def runner_key_def str_attr_def
  mem_new_item_def runner_of_def mem_store_def Let_def

lemma busy_query:
  "queryIdleBucket busy_repository (bucket_key 0) (busy_world [item_a, item_b] [Other_assign ''o1'' ''a'']) =
   (Inr [runner_of item_a, runner_of item_b], busy_world [item_b, taken_a] [])"
  by (simp add: queryIdleBucket_def busy_eval)

lemma busy_lost:
  "assignSession busy_repository ''a'' ''s'' (busy_world [item_b, taken_a] []) =
   (Inl (Sentinel ErrConditionFailed), busy_world [item_b, taken_a] [])"
  by (simp add: assignSession_def busy_eval isConditionalCheckFailed_def)

lemma busy_won:
  "assignSession busy_repository ''b'' ''s'' (busy_world [item_b, taken_a] []) = (Inr (), busy_world [taken_a, taken_b] [])"
  by (simp add: assignSession_def busy_eval)

lemma busy_acquire:
  "AcquireIdle busy_repository ''s'' 0 (busy_world [item_a, item_b] [Other_assign ''o1'' ''a'']) =
   Some (Inr ((runner_of item_b)\<lparr>CurrentSessionID := ''s'', IdleBucket := []\<rparr>), busy_world [taken_a, taken_b] [])"
proof -
  have ids: "RunnerID (runner_of item_a) = ''a''" "RunnerID (runner_of item_b) = ''b''"
    by (simp_all add: runner_of_def str_attr_def)
  show ?thesis
    unfolding AcquireIdle_def
    by (subst acquire_loop.simps) (simp add: busy_query ids busy_lost busy_won Let_def)
qed

lemma busy_resolve:
  "ResolveSession busy_service [] (busy_world [item_a, item_b] [Other_assign ''o1'' ''a'']) =
   Some (Inr \<lparr>SessionID = ''s'', RunnerURL = ''http://b'', Created = True, Reassigned = False\<rparr>,
     busy_world [taken_a, taken_b] [])"
proof -
  have url: "PrivateURL (runner_of item_b) = ''http://b''" by (simp add: runner_of_def str_attr_def)
  have fresh: "busy_fresh (busy_world [item_a, item_b] [Other_assign ''o1'' ''a'']) = ''s''"
    by (simp add: busy_fresh_def str_attr_def)
  have "drain_bucket busy_service ''s'' 0 (busy_world [item_a, item_b] [Other_assign ''o1'' ''a'']) =
      Some (Some (Inr \<lparr>cs_SessionID = ''s'', cs_Runner = (runner_of item_b)\<lparr>CurrentSessionID := ''s'', IdleBucket := []\<rparr>\<rparr>),
        busy_world [taken_a, taken_b] [])"
    by (subst drain_bucket.simps)
      (simp add: dynamo_repository_def busy_acquire url busy_service_def)
  then show ?thesis
    by (simp add: ResolveSession_def resolve_new_def createSession_def fresh dynamo_repository_def bucketCount_def
        upt_rec url Let_def)
qed

theorem sessions_exclusive_concurrently_witness:
  "broker_inv runners_table (busy_tabs (busy_world [taken_a, taken_b] []))"
proof -
  have idle: "idle_item item_a" "idle_item item_b"
    by (auto simp: idle_item_def idle_buckets_def bucketCount_def)
  have "broker_inv runners_table (busy_tabs (busy_world [item_a, item_b] [Other_assign ''o1'' ''a'']))"
    using idle
    by (auto simp: broker_inv_def table_ok_def mem_tabs_def mem_find_def schema_runners bound_def runner_recs_def
        runner_of_def str_attr_def split: if_splits)
  with sessions_exclusive_concurrently [OF busy.broker_shared_axioms broker_step.resolve [OF busy_resolve]]
  show ?thesis by simp
qed
end
