(* ===== verification/Poll_Store.thy ===== *)
theory Poll_Store
  imports Go_Strings Dynamo_Contract
begin

text \<open>
  The poll store of the presenter (\<open>presenter/internal/poll\<close>): one META record per poll with
  its options, the number of choices a visitor has and a counter per option, and one record per
  vote under the sort key \<^verbatim>\<open>visitor#choice\<close>.
\<close>

section \<open>Data\<close>

datatype poll_err =
    ErrMaxChoicesExceeded | ErrDuplicateVote | ErrVoteNotFound | ErrPollNotFound | ErrInvalidChoice

type_synonym perr = "poll_err go_error"

record metaRecord =
  PollID :: string
  ConnID :: string
  Options :: "string list"
  MaxChoices :: int
  Votes :: "string \<Rightarrow> int option"
  TTL :: int

record PollState =
  ps_PollID :: string
  ps_Options :: "string list"
  ps_MaxChoices :: int
  ps_Votes :: "string \<Rightarrow> int option"
  ps_MyChoices :: "string list"

text \<open>
  The store object.  \<open>now_Unix\<close> is \<^verbatim>\<open>nowFn().Unix()\<close>; \<open>unmarshalMeta\<close> is the SDK's
  \<^verbatim>\<open>attributevalue.UnmarshalMap\<close> into a \<open>metaRecord\<close>.
\<close>

record 'w Store =
  client :: "'w ddb"
  tableName :: string
  now_Unix :: "'w \<Rightarrow> int \<times> 'w"
  marshalMapFn :: "metaRecord \<Rightarrow> ext_error + item"
  unmarshalMeta :: "item \<Rightarrow> ext_error + metaRecord"

definition metaSK :: string where
  "metaSK = ''META''"

text \<open>24 hours, in seconds.\<close>

definition ttlDuration :: int where
  "ttlDuration = 24 * 60 * 60"

definition isConditionalCheckFailed :: "'s go_error \<Rightarrow> bool" where
  "isConditionalCheckFailed err \<longleftrightarrow> errors_as err = Some Conditional_check_failed"

definition transactionCanceledReasons :: "'s go_error \<Rightarrow> string list" where
  "transactionCanceledReasons err =
     (case errors_as err of
        Some (Transaction_canceled rs) \<Rightarrow> map (\<lambda>r. case r of None \<Rightarrow> [] | Some c \<Rightarrow> c) rs
      | _ \<Rightarrow> [])"

definition poll_key :: "string \<Rightarrow> string \<Rightarrow> item" where
  "poll_key pollID sk = [''pollId'' \<mapsto> AS pollID, ''connectionId'' \<mapsto> AS sk]"

definition vote_sk :: "string \<Rightarrow> string \<Rightarrow> string" where
  "vote_sk visitorID choice = visitorID @ ''#'' @ choice"

section \<open>Reading\<close>

definition getMeta :: "'w Store \<Rightarrow> string \<Rightarrow> 'w \<Rightarrow> (perr + metaRecord) \<times> 'w" where
  "getMeta s pollID w =
     (case GetItem (client s) (tableName s) (poll_key pollID metaSK) False w of
        (Inl e, w1) \<Rightarrow> (Inl (Wrapf ''get meta'' (Foreign e)), w1)
      | (Inr None, w1) \<Rightarrow> (Inl (Sentinel ErrPollNotFound), w1)
      | (Inr (Some it), w1) \<Rightarrow>
          (case unmarshalMeta s it of
             Inl e \<Rightarrow> (Inl (Wrapf ''unmarshal meta'' (Foreign e)), w1)
           | Inr rec \<Rightarrow> (Inr rec, w1)))"

text \<open>The loop over the items: items without a string sort key or without a \<^verbatim>\<open>#\<close> in it are
  skipped.\<close>

fun choices_of_items :: "item list \<Rightarrow> string list" where
  "choices_of_items [] = []"
| "choices_of_items (it # its) =
     (case it ''connectionId'' of
        Some (AS sk) \<Rightarrow>
          (case split_n2 sk (CHR ''#'') of
             [a, b] \<Rightarrow> b # choices_of_items its
           | _ \<Rightarrow> choices_of_items its)
      | _ \<Rightarrow> choices_of_items its)"

definition choices_query :: "string \<Rightarrow> string \<Rightarrow> string \<Rightarrow> query_input" where
  "choices_query T pollID visitorID =
     \<lparr>q_table = T, q_index = None,
      q_conds = [Key_eq ''pollId'' (AS pollID), Key_begins_with ''connectionId'' (visitorID @ ''#'')],
      q_limit = None, q_start = None, q_count = False\<rparr>"

definition getMyChoices :: "'w Store \<Rightarrow> string \<Rightarrow> string \<Rightarrow> 'w \<Rightarrow> (perr + string list) \<times> 'w" where
  "getMyChoices s pollID visitorID w =
     (if visitorID = [] then (Inr [], w)
      else case Query (client s) (choices_query (tableName s) pollID visitorID) w of
             (Inl e, w1) \<Rightarrow> (Inl (Wrapf ''query my choices'' (Foreign e)), w1)
           | (Inr out, w1) \<Rightarrow> (Inr (choices_of_items (out_items out)), w1))"

section \<open>Opening a poll\<close>

text \<open>The initial counters.\<close>

fun init_votes :: "string list \<Rightarrow> string \<Rightarrow> int option" where
  "init_votes [] = Map.empty"
| "init_votes (opt # opts) = (init_votes opts)(opt \<mapsto> 0)"

text \<open>The conditional write that \<open>Get\<close> starts with; \<open>options = None\<close> is a nil slice.\<close>

definition put_meta :: "'w Store \<Rightarrow> string \<Rightarrow> string list \<Rightarrow> int \<Rightarrow> 'w \<Rightarrow> (perr + unit) \<times> 'w" where
  "put_meta s pollID opts maxChoices w =
     (let (now, w1) = now_Unix s w in
      case marshalMapFn s \<lparr>PollID = pollID, ConnID = metaSK, Options = opts, MaxChoices = maxChoices,
                            Votes = init_votes opts, TTL = now + ttlDuration\<rparr> of
        Inl e \<Rightarrow> (Inl (Wrapf ''marshal meta'' (Foreign e)), w1)
      | Inr it \<Rightarrow>
          (case PutItem (client s) (tableName s) it (Some (Attribute_not_exists ''pollId'')) w1 of
             (Inr _, w2) \<Rightarrow> (Inr (), w2)
           | (Inl e, w2) \<Rightarrow>
               if \<not> isConditionalCheckFailed (Foreign e :: perr)
               then (Inl (Wrapf ''put meta'' (Foreign e)), w2) else (Inr (), w2)))"

definition Get :: "'w Store \<Rightarrow> string \<Rightarrow> string \<Rightarrow> string list option \<Rightarrow> int \<Rightarrow> bool \<Rightarrow> 'w \<Rightarrow>
    (perr + PollState) \<times> 'w" where
  "Get s pollID visitorID options maxChoices isPresenter w =
     (case (case options of
              Some opts \<Rightarrow> if isPresenter then put_meta s pollID opts maxChoices w else (Inr (), w)
            | None \<Rightarrow> (Inr (), w)) of
        (Inl err, w1) \<Rightarrow> (Inl err, w1)
      | (Inr _, w1) \<Rightarrow>
          (case getMeta s pollID w1 of
             (Inl err, w2) \<Rightarrow> (Inl err, w2)
           | (Inr meta, w2) \<Rightarrow>
               (case getMyChoices s pollID visitorID w2 of
                  (Inl err, w3) \<Rightarrow> (Inl err, w3)
                | (Inr myChoices, w3) \<Rightarrow>
                    (Inr \<lparr>ps_PollID = PollID meta, ps_Options = Options meta,
                          ps_MaxChoices = MaxChoices meta, ps_Votes = Votes meta,
                          ps_MyChoices = myChoices\<rparr>, w3))))"

section \<open>Voting\<close>

definition vote_items :: "'w Store \<Rightarrow> string \<Rightarrow> string \<Rightarrow> string \<Rightarrow> int \<Rightarrow> transact_item list" where
  "vote_items s pollID visitorID choice ttl =
     [T_put (tableName s)
        ((poll_key pollID (vote_sk visitorID choice))(''ttl'' \<mapsto> AN ttl))
        (Some (Attribute_not_exists ''connectionId'')),
      T_update (tableName s) (poll_key pollID metaSK) [Path_plus ''votes'' choice 0 1] None]"

text \<open>The checks of \<open>Vote\<close>, up to the transaction.\<close>

definition vote_check :: "'w Store \<Rightarrow> string \<Rightarrow> string \<Rightarrow> string \<Rightarrow> 'w \<Rightarrow> (perr + unit) \<times> 'w" where
  "vote_check s pollID visitorID choice w =
     (case getMeta s pollID w of
        (Inl err, w1) \<Rightarrow> (Inl err, w1)
      | (Inr meta, w1) \<Rightarrow>
          if choice \<notin> set (Options meta) then (Inl (Sentinel ErrInvalidChoice), w1)
          else
            (case getMyChoices s pollID visitorID w1 of
               (Inl err, w2) \<Rightarrow> (Inl err, w2)
             | (Inr myChoices, w2) \<Rightarrow>
                 if int (length myChoices) \<ge> MaxChoices meta
                 then (Inl (Sentinel ErrMaxChoicesExceeded), w2) else (Inr (), w2)))"

definition vote_commit :: "'w Store \<Rightarrow> string \<Rightarrow> string \<Rightarrow> string \<Rightarrow> 'w \<Rightarrow> (perr + unit) \<times> 'w" where
  "vote_commit s pollID visitorID choice w =
     (let (now, w1) = now_Unix s w in
      case TransactWriteItems (client s) (vote_items s pollID visitorID choice (now + ttlDuration)) w1 of
        (Inr _, w2) \<Rightarrow> (Inr (), w2)
      | (Inl e, w2) \<Rightarrow>
          (let reasons = transactionCanceledReasons (Foreign e :: perr) in
           if length reasons > 0 \<and> reasons ! 0 = ''ConditionalCheckFailed''
           then (Inl (Sentinel ErrDuplicateVote), w2)
           else (Inl (Wrapf ''transact vote'' (Foreign e)), w2)))"

definition Vote :: "'w Store \<Rightarrow> string \<Rightarrow> string \<Rightarrow> string \<Rightarrow> 'w \<Rightarrow> (perr + unit) \<times> 'w" where
  "Vote s pollID visitorID choice w =
     (case vote_check s pollID visitorID choice w of
        (Inl err, w1) \<Rightarrow> (Inl err, w1)
      | (Inr _, w1) \<Rightarrow> vote_commit s pollID visitorID choice w1)"

definition unvote_items :: "'w Store \<Rightarrow> string \<Rightarrow> string \<Rightarrow> string \<Rightarrow> transact_item list" where
  "unvote_items s pollID visitorID choice =
     [T_delete (tableName s) (poll_key pollID (vote_sk visitorID choice))
        (Some (Attribute_exists ''connectionId'')),
      T_update (tableName s) (poll_key pollID metaSK) [Path_minus ''votes'' choice 0 1] None]"

definition Unvote :: "'w Store \<Rightarrow> string \<Rightarrow> string \<Rightarrow> string \<Rightarrow> 'w \<Rightarrow> (perr + unit) \<times> 'w" where
  "Unvote s pollID visitorID choice w =
     (case TransactWriteItems (client s) (unvote_items s pollID visitorID choice) w of
        (Inr _, w1) \<Rightarrow> (Inr (), w1)
      | (Inl e, w1) \<Rightarrow>
          (let reasons = transactionCanceledReasons (Foreign e :: perr) in
           if length reasons > 0 \<and> reasons ! 0 = ''ConditionalCheckFailed''
           then (Inl (Sentinel ErrVoteNotFound), w1)
           else (Inl (Wrapf ''transact unvote'' (Foreign e)), w1)))"

text \<open>The variable \<^verbatim>\<open>from\<close> is a keyword here.\<close>

definition switch_items ::
  "'w Store \<Rightarrow> string \<Rightarrow> string \<Rightarrow> string \<Rightarrow> string \<Rightarrow> int \<Rightarrow> transact_item list" where
  "switch_items s pollID visitorID from_c to_c ttl =
     [T_delete (tableName s) (poll_key pollID (vote_sk visitorID from_c))
        (Some (Attribute_exists ''connectionId'')),
      T_put (tableName s)
        ((poll_key pollID (vote_sk visitorID to_c))(''ttl'' \<mapsto> AN ttl))
        (Some (Attribute_not_exists ''connectionId'')),
      T_update (tableName s) (poll_key pollID metaSK)
        [Path_minus ''votes'' from_c 0 1, Path_plus ''votes'' to_c 0 1] None]"

definition Switch :: "'w Store \<Rightarrow> string \<Rightarrow> string \<Rightarrow> string \<Rightarrow> string \<Rightarrow> 'w \<Rightarrow> (perr + unit) \<times> 'w" where
  "Switch s pollID visitorID from_c to_c w =
     (case getMeta s pollID w of
        (Inl err, w1) \<Rightarrow> (Inl err, w1)
      | (Inr meta, w1) \<Rightarrow>
          if from_c \<notin> set (Options meta) \<or> to_c \<notin> set (Options meta)
          then (Inl (Sentinel ErrInvalidChoice), w1)
          else
            let (now, w2) = now_Unix s w1 in
            case TransactWriteItems (client s)
                   (switch_items s pollID visitorID from_c to_c (now + ttlDuration)) w2 of
              (Inr _, w3) \<Rightarrow> (Inr (), w3)
            | (Inl e, w3) \<Rightarrow>
                (let reasons = transactionCanceledReasons (Foreign e :: perr) in
                 if length reasons \<ge> 2 \<and> reasons ! 0 = ''ConditionalCheckFailed''
                 then (Inl (Sentinel ErrVoteNotFound), w3)
                 else if length reasons \<ge> 2 \<and> reasons ! 1 = ''ConditionalCheckFailed''
                 then (Inl (Sentinel ErrDuplicateVote), w3)
                 else (Inl (Wrapf ''transact switch'' (Foreign e)), w3)))"

end
