(* ===== verification/Poll_Contract.thy ===== *)
theory Poll_Contract
  imports Poll_Store
begin

text \<open>
  What the poll store does to its table, at the level of single writes: the writes that the
  operations issue, the counter invariant that each of them keeps, and the fact that every
  operation issues at most one of them, however its calls fail.
\<close>

section \<open>Sort keys\<close>

text \<open>A sort key is read back up to its first \<^verbatim>\<open>#\<close>, so visitors must not contain one
  (connection identifiers are base64 texts).\<close>

definition visitor_ok :: "string \<Rightarrow> bool" where
  "visitor_ok v \<longleftrightarrow> v \<noteq> [] \<and> CHR ''#'' \<notin> set v"

definition choice_of :: "string \<Rightarrow> string option" where
  "choice_of sk = (case split_n2 sk (CHR ''#'') of [a, b] \<Rightarrow> Some b | _ \<Rightarrow> None)"

definition visitor_of :: "string \<Rightarrow> string option" where
  "visitor_of sk = (case split_n2 sk (CHR ''#'') of [a, b] \<Rightarrow> Some a | _ \<Rightarrow> None)"

lemma choice_of_vote [simp]: "CHR ''#'' \<notin> set v \<Longrightarrow> choice_of (vote_sk v c) = Some c"
  by (simp add: choice_of_def vote_sk_def)

lemma visitor_of_vote [simp]: "CHR ''#'' \<notin> set v \<Longrightarrow> visitor_of (vote_sk v c) = Some v"
  by (simp add: visitor_of_def vote_sk_def)

lemma vote_sk_inj [simp]: "vote_sk v c = vote_sk v d \<longleftrightarrow> c = d"
  by (simp add: vote_sk_def)

lemma hash_in_vote [simp]: "CHR ''#'' \<in> set (vote_sk v c)"
  by (simp add: vote_sk_def)

lemma vote_not_meta [simp]: "vote_sk v c \<noteq> metaSK" "metaSK \<noteq> vote_sk v c"
proof -
  have "CHR ''#'' \<notin> set metaSK" by (simp add: metaSK_def)
  then show "vote_sk v c \<noteq> metaSK" "metaSK \<noteq> vote_sk v c" using hash_in_vote [of v c] by metis+
qed

lemma hash_not_meta [simp]: "CHR ''#'' \<notin> set metaSK"
  by (simp add: metaSK_def)

section \<open>Votes and counters\<close>

abbreviation pkey :: "string \<Rightarrow> string \<Rightarrow> key" where
  "pkey p sk \<equiv> [Some (AS p), Some (AS sk)]"

definition vote_sks :: "string \<Rightarrow> tables \<Rightarrow> string \<Rightarrow> string set" where
  "vote_sks T tb p = {sk. tb T (pkey p sk) \<noteq> None \<and> CHR ''#'' \<in> set sk}"

definition count_in :: "item option \<Rightarrow> string \<Rightarrow> int" where
  "count_in oi c =
     (case oi of Some it \<Rightarrow>
        (case it ''votes'' of Some (AM mp) \<Rightarrow> (case mp c of Some (AN n) \<Rightarrow> n | _ \<Rightarrow> 0) | _ \<Rightarrow> 0)
      | None \<Rightarrow> 0)"

definition tally :: "string \<Rightarrow> tables \<Rightarrow> string \<Rightarrow> string \<Rightarrow> int" where
  "tally T tb p c = count_in (tb T (pkey p metaSK)) c"

text \<open>Every counter is the number of the votes for its option.\<close>

definition poll_inv :: "string list \<Rightarrow> string \<Rightarrow> tables \<Rightarrow> bool" where
  "poll_inv ks T tb \<longleftrightarrow>
     (\<forall>k it. tb T k = Some it \<longrightarrow> key_of ks it = k) \<and>
     (\<forall>p. finite (vote_sks T tb p)) \<and>
     (\<forall>p c. tally T tb p c = int (card {sk \<in> vote_sks T tb p. choice_of sk = Some c}))"

section \<open>The writes\<close>

text \<open>A META item as the SDK marshals it.\<close>

definition meta_item :: "metaRecord \<Rightarrow> item" where
  "meta_item r = [''pollId'' \<mapsto> AS (PollID r), ''connectionId'' \<mapsto> AS (ConnID r),
     ''options'' \<mapsto> AL (map AS (Options r)), ''maxChoices'' \<mapsto> AN (MaxChoices r),
     ''votes'' \<mapsto> AM (\<lambda>c. map_option AN (Votes r c)), ''ttl'' \<mapsto> AN (TTL r)]"

inductive poll_write :: "(string \<Rightarrow> string list) \<Rightarrow> 'w Store \<Rightarrow> tables \<Rightarrow> tables \<Rightarrow> bool" for sc s where
  open_poll: "put_effect sc (tableName s) (meta_item \<lparr>PollID = p, ConnID = metaSK, Options = opts,
      MaxChoices = m, Votes = init_votes opts, TTL = t\<rparr>)
      (Some (Attribute_not_exists ''pollId'')) tb = Some tb' \<Longrightarrow> poll_write sc s tb tb'"
| vote: "visitor_ok v \<Longrightarrow> transact_effect sc (vote_items s p v c t) tb = Some tb' \<Longrightarrow> poll_write sc s tb tb'"
| unvote: "visitor_ok v \<Longrightarrow> transact_effect sc (unvote_items s p v c) tb = Some tb' \<Longrightarrow> poll_write sc s tb tb'"
| switch: "visitor_ok v \<Longrightarrow> transact_effect sc (switch_items s p v d c t) tb = Some tb' \<Longrightarrow> poll_write sc s tb tb'"

text \<open>What a write does, seen from outside: to the set of votes and to the counters.\<close>

definition votes_change :: "string \<Rightarrow> string \<Rightarrow> string set \<Rightarrow> string set \<Rightarrow> tables \<Rightarrow> tables \<Rightarrow> bool" where
  "votes_change T p del ins tb tb' \<longleftrightarrow>
     del \<subseteq> vote_sks T tb p \<and> ins \<inter> vote_sks T tb p = {} \<and>
     (\<forall>q. vote_sks T tb' q = (if q = p then vote_sks T tb p - del \<union> ins else vote_sks T tb q))"

definition counts_change :: "string \<Rightarrow> string \<Rightarrow> (string \<Rightarrow> int) \<Rightarrow> tables \<Rightarrow> tables \<Rightarrow> bool" where
  "counts_change T p f tb tb' \<longleftrightarrow>
     (\<forall>q c. tally T tb' q c = tally T tb q c + (if q = p then f c else 0))"

text \<open>The number of choices a poll allows, if it is open.\<close>

definition meta_max :: "string \<Rightarrow> tables \<Rightarrow> string \<Rightarrow> int option" where
  "meta_max T tb p = map_option (\<lambda>it. int_attr it ''maxChoices'') (tb T (pkey p metaSK))"

lemma key_of_poll [simp]: "key_of [''pollId'', ''connectionId''] (poll_key p sk) = pkey p sk"
  by (simp add: poll_key_def)

lemma path_number_count:
  "path_number it ''votes'' c 0 = Some (mp, n) \<Longrightarrow> it ''votes'' = Some (AM mp) \<and> n = count_in (Some it) c"
  by (auto simp: count_in_def split: option.splits attr.splits)

lemma count_in_set [simp]:
  "count_in (Some (it(''votes'' \<mapsto> AM (mp(c \<mapsto> AN n))))) d =
     (if d = c then n else case mp d of Some (AN k) \<Rightarrow> k | _ \<Rightarrow> 0)"
  by (simp add: count_in_def)

text \<open>An arithmetic update of one counter.\<close>

lemma apply_path_plus:
  assumes "apply_update (Path_plus ''votes'' c 0 x) it = Some it'"
  shows "count_in (Some it') d = count_in (Some it) d + (if d = c then x else 0) \<and>
    it' ''maxChoices'' = it ''maxChoices'' \<and> it ''votes'' \<noteq> None"
proof -
  from assms obtain mp n where pn: "path_number it ''votes'' c 0 = Some (mp, n)"
    and it': "it' = it(''votes'' \<mapsto> AM (mp(c \<mapsto> AN (n + x))))" by auto
  from path_number_count [OF pn] have "it ''votes'' = Some (AM mp)" "n = count_in (Some it) c" by auto
  then show ?thesis unfolding it' count_in_set by (simp add: count_in_def)
qed

lemma apply_path_minus:
  assumes "apply_update (Path_minus ''votes'' c 0 x) it = Some it'"
  shows "count_in (Some it') d = count_in (Some it) d - (if d = c then x else 0) \<and>
    it' ''maxChoices'' = it ''maxChoices'' \<and> it ''votes'' \<noteq> None"
proof -
  from assms have "apply_update (Path_plus ''votes'' c 0 (- x)) it = Some it'" by simp
  from apply_path_plus [OF this, of d] show ?thesis by auto
qed

section \<open>Effects of the single requests\<close>

abbreviation poll_ks :: "string list" where
  "poll_ks \<equiv> [''pollId'', ''connectionId'']"

abbreviation keyed_tab :: "string \<Rightarrow> tables \<Rightarrow> bool" where
  "keyed_tab T tb \<equiv> (\<forall>k it. tb T k = Some it \<longrightarrow> key_of poll_ks it = k)"

lemma poll_key_attrs [simp]:
  "poll_key p sk ''pollId'' = Some (AS p)" "poll_key p sk ''connectionId'' = Some (AS sk)"
  "poll_key p sk ''votes'' = None"
  by (simp_all add: poll_key_def)

lemma put_vote_effect:
  assumes "sc T = poll_ks" and "keyed_tab T tb"
    and "put_effect sc T ((poll_key p sk)(''ttl'' \<mapsto> AN t)) (Some (Attribute_not_exists ''connectionId'')) tb = Some tb'"
  shows "tb T (pkey p sk) = None \<and> tb' = set_item T (pkey p sk) (Some ((poll_key p sk)(''ttl'' \<mapsto> AN t))) tb"
proof -
  have k: "key_of poll_ks ((poll_key p sk)(''ttl'' \<mapsto> AN t)) = pkey p sk" by (simp add: poll_key_def)
  with assms(1,3) have "\<forall>it. tb T (pkey p sk) = Some it \<longrightarrow> it ''connectionId'' = None"
    and tb': "tb' = set_item T (pkey p sk) (Some ((poll_key p sk)(''ttl'' \<mapsto> AN t))) tb"
    by (auto simp: put_effect_def Let_def split: if_splits)
  from this(1) assms(2) have "tb T (pkey p sk) = None" by (cases "tb T (pkey p sk)") fastforce+
  with tb' show ?thesis by simp
qed

lemma delete_vote_effect:
  assumes "sc T = poll_ks"
    and "delete_effect sc T (poll_key p sk) (Some (Attribute_exists ''connectionId'')) tb = Some tb'"
  shows "tb T (pkey p sk) \<noteq> None \<and> tb' = set_item T (pkey p sk) None tb"
  using assms by (auto simp: delete_effect_def Let_def split: if_splits)

lemma update_meta_effect:
  assumes "sc T = poll_ks" and "update_effect sc T (poll_key p metaSK) us None tb = Some tb'"
    and count: "\<And>it it' d. apply_updates us it = Some it' \<Longrightarrow>
      count_in (Some it') d = count_in (Some it) d + f d \<and> it' ''maxChoices'' = it ''maxChoices'' \<and> it ''votes'' \<noteq> None"
  shows "\<exists>it it'. tb T (pkey p metaSK) = Some it \<and> it' ''maxChoices'' = it ''maxChoices'' \<and>
    tb' = set_item T (pkey p metaSK) (Some it') tb \<and> key_of poll_ks it' = pkey p metaSK \<and>
    (\<forall>d. count_in (Some it') d = count_in (tb T (pkey p metaSK)) d + f d)"
proof -
  let ?old = "case tb T (pkey p metaSK) of None \<Rightarrow> poll_key p metaSK | Some it \<Rightarrow> it"
  from assms(1,2) obtain it' where it': "apply_updates us ?old = Some it'" "key_of poll_ks it' = pkey p metaSK"
    "tb' = set_item T (pkey p metaSK) (Some it') tb"
    by (auto simp: update_effect_def Let_def split: option.splits if_splits)
  from count [OF it'(1)] have "?old ''votes'' \<noteq> None" by blast
  then obtain it where "tb T (pkey p metaSK) = Some it" by (auto simp: poll_key_def split: option.splits)
  with it' count [of it it'] show ?thesis by auto
qed

lemma vote_sks_set_vote [simp]:
  "vote_sks T (set_item T (pkey p (vote_sk v c)) oi tb) q =
     (if q = p then (if oi = None then vote_sks T tb p - {vote_sk v c} else insert (vote_sk v c) (vote_sks T tb p))
      else vote_sks T tb q)"
  by (auto simp: vote_sks_def)

lemma vote_sks_set_meta [simp]: "vote_sks T (set_item T (pkey p metaSK) oi tb) q = vote_sks T tb q"
  by (auto simp: vote_sks_def)

lemma tally_set_vote [simp]: "tally T (set_item T (pkey p (vote_sk v c)) oi tb) q d = tally T tb q d"
  by (simp add: tally_def)

lemma tally_set_meta [simp]:
  "tally T (set_item T (pkey p metaSK) oi tb) q d = (if q = p then count_in oi d else tally T tb q d)"
  by (simp add: tally_def)

lemma keyed_set: "keyed_tab T tb \<Longrightarrow> (\<And>it. oi = Some it \<Longrightarrow> key_of poll_ks it = k) \<Longrightarrow> keyed_tab T (set_item T k oi tb)"
  by auto

section \<open>The transactions\<close>

lemma plus_count:
  "apply_updates [Path_plus ''votes'' c 0 1] it = Some it' \<Longrightarrow>
   count_in (Some it') d = count_in (Some it) d + (if d = c then 1 else 0) \<and>
     it' ''maxChoices'' = it ''maxChoices'' \<and> it ''votes'' \<noteq> None"
  using apply_path_plus [of c 1 it it' d] by (auto simp del: apply_update.simps split: Option.bind_splits)

lemma minus_count:
  "apply_updates [Path_minus ''votes'' c 0 1] it = Some it' \<Longrightarrow>
   count_in (Some it') d = count_in (Some it) d + (if d = c then -1 else 0) \<and>
     it' ''maxChoices'' = it ''maxChoices'' \<and> it ''votes'' \<noteq> None"
  using apply_path_minus [of c 1 it it' d] by (auto simp del: apply_update.simps split: Option.bind_splits)

lemma move_count:
  assumes "apply_updates [Path_minus ''votes'' a 0 1, Path_plus ''votes'' b 0 1] it = Some it'"
  shows "count_in (Some it') d = count_in (Some it) d + ((if d = b then 1 else 0) - (if d = a then 1 else 0)) \<and>
    it' ''maxChoices'' = it ''maxChoices'' \<and> it ''votes'' \<noteq> None"
proof -
  from assms obtain it1 where "apply_update (Path_minus ''votes'' a 0 1) it = Some it1"
    "apply_update (Path_plus ''votes'' b 0 1) it1 = Some it'"
    by (auto simp del: apply_update.simps split: Option.bind_splits)
  from apply_path_minus [OF this(1), of d] apply_path_plus [OF this(2), of d] show ?thesis by auto
qed

lemma vote_effect:
  assumes sc: "sc (tableName s) = poll_ks" and kt: "keyed_tab (tableName s) tb"
    and tx: "transact_effect sc (vote_items s p v c t) tb = Some tb'"
  shows "keyed_tab (tableName s) tb' \<and> votes_change (tableName s) p {} {vote_sk v c} tb tb' \<and>
    counts_change (tableName s) p (\<lambda>d. if d = c then 1 else 0) tb tb' \<and>
    meta_max (tableName s) tb' = meta_max (tableName s) tb"
proof -
  let ?T = "tableName s" and ?sk = "vote_sk v c"
  from tx obtain tb1 where
    put: "put_effect sc ?T ((poll_key p ?sk)(''ttl'' \<mapsto> AN t)) (Some (Attribute_not_exists ''connectionId'')) tb = Some tb1" and
    upd: "update_effect sc ?T (poll_key p metaSK) [Path_plus ''votes'' c 0 1] None tb1 = Some tb'"
    by (auto simp: transact_effect_def vote_items_def split: if_splits Option.bind_splits)
  from put_vote_effect [OF sc kt put] have new: "tb ?T (pkey p ?sk) = None"
    and tb1: "tb1 = set_item ?T (pkey p ?sk) (Some ((poll_key p ?sk)(''ttl'' \<mapsto> AN t))) tb" by auto
  from update_meta_effect [OF sc upd plus_count [of c]] obtain it it' where
    tb': "tb' = set_item ?T (pkey p metaSK) (Some it') tb1" "key_of poll_ks it' = pkey p metaSK"
    "tb1 ?T (pkey p metaSK) = Some it" "it' ''maxChoices'' = it ''maxChoices''"
    "\<And>d. count_in (Some it') d = count_in (tb1 ?T (pkey p metaSK)) d + (if d = c then 1 else 0)" by blast
  have "keyed_tab ?T tb1" unfolding tb1 by (rule keyed_set [where T = ?T and tb = tb, OF kt]) (simp add: poll_key_def)
  then have "keyed_tab ?T tb'" unfolding tb'(1) by (rule keyed_set [where T = ?T and tb = tb1]) (use tb'(2) in auto)
  moreover have "votes_change ?T p {} {?sk} tb tb'"
    using new by (simp add: votes_change_def tb'(1) tb1) (simp add: vote_sks_def)
  moreover have "counts_change ?T p (\<lambda>d. if d = c then 1 else 0) tb tb'"
    by (simp add: counts_change_def tb'(1,5) tb1) (simp add: tally_def)
  moreover have "meta_max ?T tb' = meta_max ?T tb"
    using tb'(3,4) tb1 by (auto simp: meta_max_def int_attr_def fun_eq_iff tb'(1))
  ultimately show ?thesis by blast
qed

lemma unvote_effect:
  assumes sc: "sc (tableName s) = poll_ks" and kt: "keyed_tab (tableName s) tb"
    and tx: "transact_effect sc (unvote_items s p v c) tb = Some tb'"
  shows "keyed_tab (tableName s) tb' \<and> votes_change (tableName s) p {vote_sk v c} {} tb tb' \<and>
    counts_change (tableName s) p (\<lambda>d. if d = c then -1 else 0) tb tb' \<and>
    meta_max (tableName s) tb' = meta_max (tableName s) tb"
proof -
  let ?T = "tableName s" and ?sk = "vote_sk v c"
  from tx obtain tb1 where
    del: "delete_effect sc ?T (poll_key p ?sk) (Some (Attribute_exists ''connectionId'')) tb = Some tb1" and
    upd: "update_effect sc ?T (poll_key p metaSK) [Path_minus ''votes'' c 0 1] None tb1 = Some tb'"
    by (auto simp: transact_effect_def unvote_items_def split: if_splits Option.bind_splits)
  from delete_vote_effect [OF sc del] have old: "tb ?T (pkey p ?sk) \<noteq> None"
    and tb1: "tb1 = set_item ?T (pkey p ?sk) None tb" by auto
  from update_meta_effect [OF sc upd minus_count [of c]] obtain it it' where
    tb': "tb' = set_item ?T (pkey p metaSK) (Some it') tb1" "key_of poll_ks it' = pkey p metaSK"
    "tb1 ?T (pkey p metaSK) = Some it" "it' ''maxChoices'' = it ''maxChoices''"
    "\<And>d. count_in (Some it') d = count_in (tb1 ?T (pkey p metaSK)) d + (if d = c then -1 else 0)" by blast
  have "keyed_tab ?T tb1" unfolding tb1 by (rule keyed_set [where T = ?T and tb = tb, OF kt]) simp
  then have "keyed_tab ?T tb'" unfolding tb'(1) by (rule keyed_set [where T = ?T and tb = tb1]) (use tb'(2) in auto)
  moreover have "votes_change ?T p {?sk} {} tb tb'"
    using old by (simp add: votes_change_def tb'(1) tb1) (simp add: vote_sks_def)
  moreover have "counts_change ?T p (\<lambda>d. if d = c then -1 else 0) tb tb'"
    by (simp add: counts_change_def tb'(1,5) tb1) (simp add: tally_def)
  moreover have "meta_max ?T tb' = meta_max ?T tb"
    using tb'(3,4) tb1 by (auto simp: meta_max_def int_attr_def fun_eq_iff tb'(1))
  ultimately show ?thesis by blast
qed

lemma switch_effect:
  assumes sc: "sc (tableName s) = poll_ks" and kt: "keyed_tab (tableName s) tb"
    and tx: "transact_effect sc (switch_items s p v a b t) tb = Some tb'"
  shows "a \<noteq> b \<and> keyed_tab (tableName s) tb' \<and>
    votes_change (tableName s) p {vote_sk v a} {vote_sk v b} tb tb' \<and>
    counts_change (tableName s) p (\<lambda>d. (if d = b then 1 else 0) - (if d = a then 1 else 0)) tb tb' \<and>
    meta_max (tableName s) tb' = meta_max (tableName s) tb"
proof -
  let ?T = "tableName s" and ?a = "vote_sk v a" and ?b = "vote_sk v b"
  from tx have "distinct (map (ti_target sc) (switch_items s p v a b t))"
    by (auto simp: transact_effect_def split: if_splits)
  with sc have ab: "a \<noteq> b" by (auto simp: switch_items_def poll_key_def)
  from tx obtain tb1 tb2 where
    del: "delete_effect sc ?T (poll_key p ?a) (Some (Attribute_exists ''connectionId'')) tb = Some tb1" and
    put: "put_effect sc ?T ((poll_key p ?b)(''ttl'' \<mapsto> AN t)) (Some (Attribute_not_exists ''connectionId'')) tb1 = Some tb2" and
    upd: "update_effect sc ?T (poll_key p metaSK) [Path_minus ''votes'' a 0 1, Path_plus ''votes'' b 0 1] None tb2 = Some tb'"
    by (auto simp: transact_effect_def switch_items_def split: if_splits Option.bind_splits)
  from delete_vote_effect [OF sc del] have old: "tb ?T (pkey p ?a) \<noteq> None"
    and tb1: "tb1 = set_item ?T (pkey p ?a) None tb" by auto
  have k1: "keyed_tab ?T tb1" unfolding tb1 by (rule keyed_set [where T = ?T and tb = tb, OF kt]) simp
  from put_vote_effect [OF sc k1 put] have new: "tb1 ?T (pkey p ?b) = None"
    and tb2: "tb2 = set_item ?T (pkey p ?b) (Some ((poll_key p ?b)(''ttl'' \<mapsto> AN t))) tb1" by auto
  have k2: "keyed_tab ?T tb2" unfolding tb2 by (rule keyed_set [where T = ?T and tb = tb1, OF k1]) (simp add: poll_key_def)
  from update_meta_effect [OF sc upd move_count [of a b]] obtain it it' where
    tb': "tb' = set_item ?T (pkey p metaSK) (Some it') tb2" "key_of poll_ks it' = pkey p metaSK"
    "tb2 ?T (pkey p metaSK) = Some it" "it' ''maxChoices'' = it ''maxChoices''"
    "\<And>d. count_in (Some it') d = count_in (tb2 ?T (pkey p metaSK)) d + ((if d = b then 1 else 0) - (if d = a then 1 else 0))"
    by blast
  have "keyed_tab ?T tb'" unfolding tb'(1) by (rule keyed_set [where T = ?T and tb = tb2, OF k2]) (use tb'(2) in auto)
  moreover have "votes_change ?T p {?a} {?b} tb tb'"
    using old new ab by (simp add: votes_change_def tb'(1) tb1 tb2) (auto simp add: vote_sks_def)
  moreover have "counts_change ?T p (\<lambda>d. (if d = b then 1 else 0) - (if d = a then 1 else 0)) tb tb'"
    by (simp add: counts_change_def tb'(1,5) tb1 tb2) (simp add: tally_def)
  moreover have "meta_max ?T tb' = meta_max ?T tb"
    using tb'(3,4) tb1 tb2 by (auto simp: meta_max_def int_attr_def fun_eq_iff tb'(1))
  ultimately show ?thesis using ab by blast
qed

section \<open>The counter invariant\<close>

lemma card_change:
  assumes "finite A" and "D \<subseteq> A" and "finite I" and "(A - D) \<inter> I = {}"
  shows "int (card (A - D \<union> I)) = int (card A) - int (card D) + int (card I)"
proof -
  from assms have "finite D" "card D \<le> card A" by (auto intro: finite_subset card_mono)
  with assms show ?thesis by (simp add: card_Un_disjoint card_Diff_subset of_nat_diff)
qed

lemma change_inv:
  assumes inv: "poll_inv poll_ks T tb" and kt: "keyed_tab T tb'"
    and v: "votes_change T p del ins tb tb'" and c: "counts_change T p f tb tb'" and fin: "finite ins"
    and f: "\<And>c. f c = int (card {sk \<in> ins. choice_of sk = Some c}) - int (card {sk \<in> del. choice_of sk = Some c})"
  shows "poll_inv poll_ks T tb'"
proof -
  let ?V = "vote_sks T tb p"
  from inv have finV: "finite ?V" and count: "\<And>q c. tally T tb q c = int (card {sk \<in> vote_sks T tb q. choice_of sk = Some c})"
    by (auto simp: poll_inv_def)
  have fin': "finite (vote_sks T tb' q)" for q
    using inv v fin by (auto simp: votes_change_def poll_inv_def)
  have "tally T tb' q d = int (card {sk \<in> vote_sks T tb' q. choice_of sk = Some d})" for q d
  proof (cases "q = p")
    case False
    with v c count show ?thesis by (simp add: votes_change_def counts_change_def)
  next
    case True
    let ?P = "\<lambda>S. {sk \<in> S. choice_of sk = Some d}"
    from v True have V': "?P (vote_sks T tb' q) = (?P ?V - ?P del) \<union> ?P ins" by (auto simp: votes_change_def)
    from v have sub: "?P del \<subseteq> ?P ?V" and dis: "(?P ?V - ?P del) \<inter> ?P ins = {}" by (auto simp: votes_change_def)
    have "int (card (?P (vote_sks T tb' q))) = int (card (?P ?V)) - int (card (?P del)) + int (card (?P ins))"
      unfolding V' using finV fin by (intro card_change [OF _ sub _ dis]) simp_all
    with c True count f [of d] show ?thesis by (simp add: counts_change_def)
  qed
  with fin' kt show ?thesis by (simp add: poll_inv_def)
qed

lemma init_votes_zero: "(case init_votes opts c of None \<Rightarrow> 0 | Some n \<Rightarrow> n) = 0"
  by (induction opts) (auto split: if_splits)

lemma choices_single:
  assumes "CHR ''#'' \<notin> set v"
  shows "card {sk. sk = vote_sk v c \<and> choice_of sk = Some d} = (if d = c then 1 else 0)"
proof -
  from assms have "{sk. sk = vote_sk v c \<and> choice_of sk = Some d} = (if d = c then {vote_sk v c} else {})" by auto
  then show ?thesis by simp
qed

lemma open_effect:
  assumes sc: "sc T = poll_ks" and kt: "keyed_tab T tb"
    and put: "put_effect sc T (meta_item \<lparr>PollID = p, ConnID = metaSK, Options = opts,
      MaxChoices = m, Votes = init_votes opts, TTL = t\<rparr>) (Some (Attribute_not_exists ''pollId'')) tb = Some tb'"
  shows "tb T (pkey p metaSK) = None \<and> tb' = set_item T (pkey p metaSK) (Some (meta_item \<lparr>PollID = p, ConnID = metaSK, Options = opts,
      MaxChoices = m, Votes = init_votes opts, TTL = t\<rparr>)) tb"
proof -
  let ?it = "meta_item \<lparr>PollID = p, ConnID = metaSK, Options = opts, MaxChoices = m, Votes = init_votes opts, TTL = t\<rparr>"
  have k: "key_of poll_ks ?it = pkey p metaSK" by (simp add: meta_item_def)
  with sc put have "\<forall>it. tb T (pkey p metaSK) = Some it \<longrightarrow> it ''pollId'' = None"
    "tb' = set_item T (pkey p metaSK) (Some ?it) tb"
    by (auto simp: put_effect_def Let_def split: if_splits)
  with kt show ?thesis by (cases "tb T (pkey p metaSK)") fastforce+
qed

lemma write_inv:
  assumes sc: "sc (tableName s) = poll_ks" and w: "poll_write sc s tb tb'" and inv: "poll_inv poll_ks (tableName s) tb"
  shows "poll_inv poll_ks (tableName s) tb'"
proof -
  from inv have kt: "keyed_tab (tableName s) tb" by (simp add: poll_inv_def)
  note change = change_inv [OF inv]
  show ?thesis
    using w
  proof cases
    case (open_poll p opts m t)
    from open_effect [OF sc kt open_poll] have absent: "tb (tableName s) (pkey p metaSK) = None"
      and tb': "tb' = set_item (tableName s) (pkey p metaSK) (Some (meta_item \<lparr>PollID = p, ConnID = metaSK,
        Options = opts, MaxChoices = m, Votes = init_votes opts, TTL = t\<rparr>)) tb" by auto
    have "keyed_tab (tableName s) tb'" unfolding tb'
      by (rule keyed_set [where T = "tableName s" and tb = tb, OF kt]) (auto simp: meta_item_def)
    moreover have "votes_change (tableName s) p {} {} tb tb'" by (simp add: votes_change_def tb')
    moreover have "counts_change (tableName s) p (\<lambda>_. 0) tb tb'"
      using absent init_votes_zero [of opts]
      by (simp add: counts_change_def tb' count_in_def meta_item_def tally_def option.case_distrib cong: option.case_cong)
         (simp add: map_option_case option.case_distrib split: option.splits)
    ultimately show ?thesis by (rule change) simp_all
  next
    case (vote v p c t)
    from vote_effect [OF sc kt vote(2)] have a: "keyed_tab (tableName s) tb'"
      "votes_change (tableName s) p {} {vote_sk v c} tb tb'"
      "counts_change (tableName s) p (\<lambda>d. if d = c then 1 else 0) tb tb'" by blast+
    show ?thesis by (rule change [OF a]) (use vote(1) in \<open>simp_all add: visitor_ok_def choices_single\<close>)
  next
    case (unvote v p c)
    from unvote_effect [OF sc kt unvote(2)] have a: "keyed_tab (tableName s) tb'"
      "votes_change (tableName s) p {vote_sk v c} {} tb tb'"
      "counts_change (tableName s) p (\<lambda>d. if d = c then -1 else 0) tb tb'" by blast+
    show ?thesis by (rule change [OF a]) (use unvote(1) in \<open>simp_all add: visitor_ok_def choices_single\<close>)
  next
    case (switch v p a b t)
    from switch_effect [OF sc kt switch(2)] have a: "keyed_tab (tableName s) tb'"
      "votes_change (tableName s) p {vote_sk v a} {vote_sk v b} tb tb'"
      "counts_change (tableName s) p (\<lambda>d. (if d = b then 1 else 0) - (if d = a then 1 else 0)) tb tb'" by blast+
    show ?thesis by (rule change [OF a]) (use switch(1) in \<open>simp_all add: visitor_ok_def choices_single\<close>)
  qed
qed

end
