(* ===== verification/Poll_Operations.thy ===== *)
theory Poll_Operations
  imports Poll_Contract
begin

text \<open>
  The operations of the poll store over any client that meets the DynamoDB contract: each is
  one of the writes of \<open>poll_write\<close> or none; and with current reads, what the checks of a vote
  establish.
\<close>

section \<open>The store over a client\<close>

text \<open>The members of the store object beside the client: the SDK's marshalling follows the
  struct tags of \<open>metaRecord\<close>, the clock leaves the tables alone.\<close>

fun str_list :: "attr list \<Rightarrow> string list" where
  "str_list [] = []"
| "str_list (AS s # as) = s # str_list as"
| "str_list (_ # as) = str_list as"

lemma str_list_map [simp]: "str_list (map AS ss) = ss"
  by (induction ss) auto

definition meta_of :: "item \<Rightarrow> metaRecord" where
  "meta_of it = \<lparr>PollID = str_attr it ''pollId'', ConnID = str_attr it ''connectionId'',
     Options = (case it ''options'' of Some (AL as) \<Rightarrow> str_list as | _ \<Rightarrow> []),
     MaxChoices = int_attr it ''maxChoices'',
     Votes = (case it ''votes'' of Some (AM mp) \<Rightarrow> (\<lambda>c. case mp c of Some (AN n) \<Rightarrow> Some n | _ \<Rightarrow> None) | _ \<Rightarrow> Map.empty),
     TTL = int_attr it ''ttl''\<rparr>"

lemma meta_of_item [simp]: "meta_of (meta_item r) = r"
  by (cases r) (auto simp: meta_of_def meta_item_def str_attr_def int_attr_def fun_eq_iff split: option.split)

locale poll_store = dynamo "client s" tabs sc
  for s :: "'w Store" and tabs :: "'w \<Rightarrow> tables" and sc :: "string \<Rightarrow> string list" +
  assumes schema: "sc (tableName s) = poll_ks"
    and marshal: "marshalMapFn s r = Inr it \<Longrightarrow> it = meta_item r"
    and unmarshal: "unmarshalMeta s it = Inr r \<Longrightarrow> r = meta_of it"
    and now_tabs: "now_Unix s w = (t, w') \<Longrightarrow> tabs w' = tabs w"
begin

abbreviation wrote :: "'w \<Rightarrow> 'w \<Rightarrow> bool" where
  "wrote w w' \<equiv> tabs w' = tabs w \<or> poll_write sc s (tabs w) (tabs w')"

lemma get_meta_frame: "getMeta s p w = (r, w') \<Longrightarrow> tabs w' = tabs w"
  by (auto simp: getMeta_def split: prod.splits sum.splits option.splits dest: get_frame)

lemma choices_frame: "getMyChoices s p v w = (r, w') \<Longrightarrow> tabs w' = tabs w"
  by (auto simp: getMyChoices_def split: prod.splits sum.splits if_splits dest: query_frame)

lemma vote_check_frame:
  assumes "vote_check s p v c w = (r, w')"
  shows "tabs w' = tabs w"
proof -
  obtain mr w1 where m: "getMeta s p w = (mr, w1)" by fastforce
  obtain cr w2 where c: "getMyChoices s p v w1 = (cr, w2)" by fastforce
  from get_meta_frame [OF m] choices_frame [OF c] assms m c show ?thesis
    by (auto simp: vote_check_def split: sum.splits if_splits)
qed

text \<open>A transaction: it took effect, or nothing changed, or its fate is unknown and no sentinel
  error is reported.\<close>

lemma transact_outcome:
  assumes "TransactWriteItems (client s) ts w = (r, w')"
  obtains (ok) u where "r = Inr u" "transact_effect sc ts (tabs w) = Some (tabs w')"
  | (canceled) rs where "r = Inl (Transaction_canceled rs)" "tabs w' = tabs w"
  | (failed) e where "r = Inl e" "\<And>rs. e \<noteq> Transaction_canceled rs"
      "tabs w' = tabs w \<or> transact_effect sc ts (tabs w) = Some (tabs w')"
proof (cases r)
  case (Inr u)
  with ok transact_ok assms show thesis by blast
next
  case (Inl e)
  show thesis
  proof (cases "\<exists>rs. e = Transaction_canceled rs")
    case True
    with Inl assms canceled transact_cancel show thesis by blast
  next
    case False
    with Inl assms failed transact_fail show thesis by blast
  qed
qed

lemma reasons_other: "(\<And>rs. e \<noteq> Transaction_canceled rs) \<Longrightarrow> transactionCanceledReasons (Foreign e :: perr) = []"
  by (auto simp: transactionCanceledReasons_def split: ext_error.splits)

lemma vote_commit_outcome:
  assumes "vote_commit s p v c w = (r, w')"
  obtains (ok) u t where "r = Inr u" "transact_effect sc (vote_items s p v c t) (tabs w) = Some (tabs w')"
  | (refused) "r = Inl (Sentinel ErrDuplicateVote)" "tabs w' = tabs w"
  | (failed) e t where "r = Inl (Wrapf ''transact vote'' (Foreign e))"
      "tabs w' = tabs w \<or> transact_effect sc (vote_items s p v c t) (tabs w) = Some (tabs w')"
proof -
  obtain now w1 where n: "now_Unix s w = (now, w1)" by fastforce
  note t1 = now_tabs [OF n]
  obtain tr w2 where x: "TransactWriteItems (client s) (vote_items s p v c (now + ttlDuration)) w1 = (tr, w2)" by fastforce
  from x show thesis
  proof (cases rule: transact_outcome)
    case (ok u)
    with assms n x t1 that(1) [of "()"] show thesis by (simp add: vote_commit_def)
  next
    case (canceled rs)
    with assms n x t1 that(2) that(3) [of "Transaction_canceled rs" 0] show thesis
      by (simp add: vote_commit_def Let_def split: if_splits)
  next
    case (failed e)
    with assms n x t1 that(3) [of e "now + ttlDuration"] reasons_other [of e] show thesis
      by (auto simp: vote_commit_def Let_def)
  qed
qed

lemma Vote_outcome:
  assumes "Vote s p v c w = (r, w')"
  obtains (ok) u t w1 where "r = Inr u" "vote_check s p v c w = (Inr (), w1)"
      "transact_effect sc (vote_items s p v c t) (tabs w) = Some (tabs w')"
  | (error) e where "r = Inl e" "tabs w' = tabs w"
  | (failed) e t w1 where "r = Inl (Wrapf ''transact vote'' (Foreign e))" "vote_check s p v c w = (Inr (), w1)"
      "transact_effect sc (vote_items s p v c t) (tabs w) = Some (tabs w')"
proof -
  obtain cr w1 where c: "vote_check s p v c w = (cr, w1)" by fastforce
  note t1 = vote_check_frame [OF c]
  show thesis
  proof (cases cr)
    case (Inl e)
    with assms c t1 error [of e] show thesis by (auto simp: Vote_def)
  next
    case (Inr u)
    with assms c have "vote_commit s p v c w1 = (r, w')" by (simp add: Vote_def)
    then show thesis by (cases rule: vote_commit_outcome) (use t1 c Inr that in auto)
  qed
qed

lemma Unvote_outcome:
  assumes "Unvote s p v c w = (r, w')"
  obtains (ok) u where "r = Inr u" "transact_effect sc (unvote_items s p v c) (tabs w) = Some (tabs w')"
  | (error) e where "r = Inl e" "tabs w' = tabs w"
  | (failed) e where "r = Inl (Wrapf ''transact unvote'' (Foreign e))"
      "transact_effect sc (unvote_items s p v c) (tabs w) = Some (tabs w')"
proof -
  obtain tr w2 where x: "TransactWriteItems (client s) (unvote_items s p v c) w = (tr, w2)" by fastforce
  from x show thesis
  proof (cases rule: transact_outcome)
    case (ok u)
    with assms x that(1) [of "()"] show thesis by (simp add: Unvote_def)
  next
    case (canceled rs)
    with assms x show thesis by (auto simp: Unvote_def Let_def split: if_splits intro: that(2))
  next
    case (failed e)
    with assms x that(2,3) reasons_other [of e] show thesis by (auto simp: Unvote_def Let_def)
  qed
qed

lemma Switch_outcome:
  assumes "Switch s p v a b w = (r, w')"
  obtains (ok) u t where "r = Inr u" "transact_effect sc (switch_items s p v a b t) (tabs w) = Some (tabs w')"
  | (error) e where "r = Inl e" "tabs w' = tabs w"
  | (failed) e t where "r = Inl (Wrapf ''transact switch'' (Foreign e))"
      "transact_effect sc (switch_items s p v a b t) (tabs w) = Some (tabs w')"
proof -
  obtain mr w1 where m: "getMeta s p w = (mr, w1)" by fastforce
  note t1 = get_meta_frame [OF m]
  show thesis
  proof (cases "\<exists>meta. mr = Inr meta \<and> a \<in> set (Options meta) \<and> b \<in> set (Options meta)")
    case False
    with assms m t1 that(2) show thesis by (auto simp: Switch_def split: sum.splits if_splits)
  next
    case True
    then obtain meta where mr: "mr = Inr meta" "a \<in> set (Options meta)" "b \<in> set (Options meta)" by blast
    obtain now w2 where n: "now_Unix s w1 = (now, w2)" by fastforce
    note t2 = now_tabs [OF n]
    obtain tr w3 where x: "TransactWriteItems (client s) (switch_items s p v a b (now + ttlDuration)) w2 = (tr, w3)"
      by fastforce
    from x show thesis
    proof (cases rule: transact_outcome)
      case (ok u)
      with assms m mr n x t1 t2 that(1) [of "()"] show thesis by (simp add: Switch_def)
    next
      case (canceled rs)
      with assms m mr n x t1 t2 show thesis
        by (auto simp: Switch_def Let_def split: if_splits intro: that(2))
    next
      case (failed e)
      with assms m mr n x t1 t2 that(2,3) reasons_other [of e] show thesis by (auto simp: Switch_def Let_def)
    qed
  qed
qed

abbreviation opened :: "string \<Rightarrow> 'w \<Rightarrow> 'w \<Rightarrow> bool" where
  "opened p w w' \<equiv> tabs w' = tabs w \<or> (\<exists>opts m t. put_effect sc (tableName s)
     (meta_item \<lparr>PollID = p, ConnID = metaSK, Options = opts, MaxChoices = m, Votes = init_votes opts, TTL = t\<rparr>)
     (Some (Attribute_not_exists ''pollId'')) (tabs w) = Some (tabs w'))"

lemma put_meta_outcome:
  assumes "put_meta s p opts m w = (r, w')"
  shows "opened p w w'"
proof -
  obtain now w1 where n: "now_Unix s w = (now, w1)" by fastforce
  note t1 = now_tabs [OF n]
  let ?r = "\<lparr>PollID = p, ConnID = metaSK, Options = opts, MaxChoices = m, Votes = init_votes opts, TTL = now + ttlDuration\<rparr>"
  show ?thesis
  proof (cases "marshalMapFn s ?r")
    case (Inl e)
    with assms n t1 show ?thesis by (auto simp: put_meta_def)
  next
    case (Inr it)
    note it = marshal [OF Inr]
    obtain pr w2 where x: "PutItem (client s) (tableName s) it (Some (Attribute_not_exists ''pollId'')) w1 = (pr, w2)"
      by fastforce
    with assms n Inr have "w' = w2" by (auto simp: put_meta_def split: sum.splits if_splits)
    with put_cases [OF x] t1 have "tabs w' = tabs w \<or>
        put_effect sc (tableName s) it (Some (Attribute_not_exists ''pollId'')) (tabs w) = Some (tabs w')" by simp
    with it show ?thesis by metis
  qed
qed

lemma Get_outcome:
  assumes "Get s p v opts m pres w = (r, w')"
  shows "opened p w w'"
proof -
  obtain pr w1 where put: "(case opts of Some opts \<Rightarrow> if pres then put_meta s p opts m w else (Inr (), w)
      | None \<Rightarrow> (Inr (), w)) = (pr, w1)" by fastforce
  have w1: "opened p w w1"
    using put by (auto split: option.splits if_splits dest: put_meta_outcome)
  obtain mr w2 where m: "getMeta s p w1 = (mr, w2)" by fastforce
  obtain cr w3 where c: "getMyChoices s p v w2 = (cr, w3)" by fastforce
  from assms put m c have "w' \<in> {w1, w2, w3}" by (auto simp: Get_def split: sum.splits)
  with w1 get_meta_frame [OF m] choices_frame [OF c] show ?thesis by auto
qed

text \<open>Every operation is one write of \<open>poll_write\<close> or none.\<close>

lemma Get_wrote: "Get s p v opts m pres w = (r, w') \<Longrightarrow> wrote w w'"
  by (drule Get_outcome) (blast intro: open_poll)

lemma Vote_wrote: "Vote s p v c w = (r, w') \<Longrightarrow> visitor_ok v \<Longrightarrow> wrote w w'"
  by (erule Vote_outcome) (auto intro: poll_write.vote)

lemma Unvote_wrote: "Unvote s p v c w = (r, w') \<Longrightarrow> visitor_ok v \<Longrightarrow> wrote w w'"
  by (erule Unvote_outcome) (auto intro: poll_write.unvote)

lemma Switch_wrote: "Switch s p v a b w = (r, w') \<Longrightarrow> visitor_ok v \<Longrightarrow> wrote w w'"
  by (erule Switch_outcome) (auto intro: poll_write.switch)

end

section \<open>The choices of a visitor\<close>

definition my_votes :: "string \<Rightarrow> tables \<Rightarrow> string \<Rightarrow> string \<Rightarrow> string set" where
  "my_votes T tb p v = {c. vote_sk v c \<in> vote_sks T tb p}"

lemma vote_sk_eq: "CHR ''#'' \<notin> set v \<Longrightarrow> CHR ''#'' \<notin> set u \<Longrightarrow> vote_sk v c = vote_sk u d \<longleftrightarrow> v = u \<and> c = d"
  by (metis visitor_of_vote option.inject vote_sk_inj)

lemma finite_my_votes: "poll_inv poll_ks T tb \<Longrightarrow> finite (my_votes T tb p v)"
proof -
  assume "poll_inv poll_ks T tb"
  then have "finite (vote_sks T tb p)" by (simp add: poll_inv_def)
  moreover have "vote_sk v ` my_votes T tb p v \<subseteq> vote_sks T tb p" by (auto simp: my_votes_def)
  ultimately have "finite (vote_sk v ` my_votes T tb p v)" by (rule rev_finite_subset)
  then show ?thesis by (rule finite_imageD) (simp add: inj_on_def)
qed

lemma my_votes_change:
  "votes_change T p del ins tb tb' \<Longrightarrow> my_votes T tb' q v =
     (if q = p then my_votes T tb p v - {c. vote_sk v c \<in> del} \<union> {c. vote_sk v c \<in> ins} else my_votes T tb q v)"
  by (auto simp: my_votes_def votes_change_def)

text \<open>A poll that is not open has no votes.\<close>

lemma no_meta_no_votes:
  assumes "poll_inv poll_ks T tb" and "meta_max T tb p = None" and "CHR ''#'' \<notin> set v"
  shows "my_votes T tb p v = {}"
proof -
  have "c \<notin> my_votes T tb p v" for c
  proof
    assume "c \<in> my_votes T tb p v"
    with assms(3) have "vote_sk v c \<in> {sk \<in> vote_sks T tb p. choice_of sk = Some c}" by (simp add: my_votes_def)
    moreover from assms(1) have "finite {sk \<in> vote_sks T tb p. choice_of sk = Some c}" by (simp add: poll_inv_def)
    ultimately have "0 < card {sk \<in> vote_sks T tb p. choice_of sk = Some c}" by (auto simp: card_gt_0_iff)
    moreover from assms(2) have "tally T tb p c = 0" by (simp add: meta_max_def tally_def count_in_def)
    moreover from assms(1) have "tally T tb p c = int (card {sk \<in> vote_sks T tb p. choice_of sk = Some c})"
      unfolding poll_inv_def by blast
    ultimately show False by simp
  qed
  then show ?thesis by blast
qed

lemma choices_of_votes:
  assumes "CHR ''#'' \<notin> set v" and "\<forall>it \<in> set its. \<exists>c. it ''connectionId'' = Some (AS (vote_sk v c))"
  shows "map (\<lambda>c. Some (AS (vote_sk v c))) (choices_of_items its) = map (\<lambda>it. it ''connectionId'') its"
  using assms(2)
proof (induction its)
  case (Cons it its)
  then obtain c where "it ''connectionId'' = Some (AS (vote_sk v c))" by auto
  with Cons assms(1) show ?case by (simp add: vote_sk_def)
qed simp

section \<open>Current reads\<close>

text \<open>Reads are current, and the votes of one visitor fit on one page (the code reads no
  further page).\<close>

locale poll_store_current = poll_store s tabs sc + dynamo_current "client s" tabs sc view
  for s :: "'w Store" and tabs :: "'w \<Rightarrow> tables" and sc :: "string \<Rightarrow> string list"
    and view :: "'w \<Rightarrow> string \<Rightarrow> key_cond list \<Rightarrow> item list" +
  assumes one_page: "Query (client s) (choices_query (tableName s) p v) w = (Inr out, w') \<Longrightarrow> out_last out = None"
begin

abbreviation inv :: "'w \<Rightarrow> bool" where
  "inv w \<equiv> poll_inv poll_ks (tableName s) (tabs w)"

abbreviation mine :: "'w \<Rightarrow> string \<Rightarrow> string \<Rightarrow> string set" where
  "mine w \<equiv> my_votes (tableName s) (tabs w)"

abbreviation meta :: "'w \<Rightarrow> string \<Rightarrow> item option" where
  "meta w p \<equiv> tabs w (tableName s) (pkey p metaSK)"

lemma get_meta_current:
  assumes "getMeta s p w = (Inr m, w')"
  shows "\<exists>it. meta w p = Some it \<and> m = meta_of it"
proof -
  from assms obtain it where g: "GetItem (client s) (tableName s) (poll_key p metaSK) False w = (Inr (Some it), w')"
    and u: "unmarshalMeta s it = Inr m"
    by (auto simp: getMeta_def split: prod.splits sum.splits option.splits)
  from get_current [OF g] have "meta w p = Some it" by (simp add: schema)
  with unmarshal [OF u] show ?thesis by blast
qed

lemma my_choices_current:
  assumes q: "getMyChoices s p v w = (Inr cs, w')" and v: "visitor_ok v" and w: "inv w"
  shows "set cs = mine w p v \<and> distinct cs"
proof -
  let ?q = "choices_query (tableName s) p v"
  let ?vw = "view w (tableName s) (q_conds ?q)"
  from q v obtain out where out: "Query (client s) ?q w = (Inr out, w')" "cs = choices_of_items (out_items out)"
    by (auto simp: getMyChoices_def visitor_ok_def split: prod.splits sum.splits)
  from query_page [OF out(1)] one_page [OF out(1)] have items: "out_items out = ?vw"
    by (auto simp: is_page_def choices_query_def)
  have vw: "it \<in> set ?vw \<longleftrightarrow> (\<exists>c. tabs w (tableName s) (pkey p (vote_sk v c)) = Some it \<and>
      it ''connectionId'' = Some (AS (vote_sk v c)))" for it
  proof -
    have k: "it ''pollId'' = Some (AS p) \<and> it ''connectionId'' = Some (AS sk)"
      if "tabs w (tableName s) (pkey p sk) = Some it" for sk
      using keyed [OF that] by (simp add: schema)
    have k': "tabs w (tableName s) (pkey p sk) = Some it"
      if "it \<in> ran (tabs w (tableName s))" "it ''pollId'' = Some (AS p)" "it ''connectionId'' = Some (AS sk)" for sk
    proof -
      from that(1) obtain k where "tabs w (tableName s) k = Some it" by (auto simp: ran_def)
      with keyed [OF this] that(2,3) show ?thesis by (simp add: schema)
    qed
    have "it \<in> set ?vw \<longleftrightarrow> it \<in> ran (tabs w (tableName s)) \<and> it ''pollId'' = Some (AS p) \<and>
        (\<exists>c. it ''connectionId'' = Some (AS (vote_sk v c)))"
      by (simp add: view_set choices_query_def vote_sk_def)
    also have "\<dots> \<longleftrightarrow> (\<exists>c. tabs w (tableName s) (pkey p (vote_sk v c)) = Some it \<and>
      it ''connectionId'' = Some (AS (vote_sk v c)))"
      using k k' by (blast intro: ranI)
    finally show ?thesis .
  qed
  with v have m: "map (\<lambda>c. Some (AS (vote_sk v c))) cs = map (\<lambda>it. it ''connectionId'') ?vw"
    unfolding out(2) items by (intro choices_of_votes) (auto simp: visitor_ok_def)
  let ?f = "\<lambda>c. Some (AS (vote_sk v c))" and ?g = "\<lambda>it :: item. it ''connectionId''"
  from arg_cong [OF m, of set] have im: "?f ` set cs = ?g ` set ?vw" by simp
  have "c \<in> set cs \<longleftrightarrow> c \<in> mine w p v" for c
  proof -
    have "c \<in> set cs \<longleftrightarrow> ?f c \<in> ?f ` set cs" by (simp add: image_iff)
    also have "\<dots> \<longleftrightarrow> c \<in> mine w p v" unfolding im
    proof
      assume "?f c \<in> ?g ` set ?vw"
      then obtain it where it: "?f c = ?g it" "it \<in> set ?vw" by (rule imageE)
      from it(2) obtain d where "tabs w (tableName s) (pkey p (vote_sk v d)) = Some it" "?g it = ?f d"
        unfolding vw by blast
      with it(1) show "c \<in> mine w p v" by (simp add: my_votes_def vote_sks_def)
    next
      assume "c \<in> mine w p v"
      then obtain it where it: "tabs w (tableName s) (pkey p (vote_sk v c)) = Some it"
        by (auto simp: my_votes_def vote_sks_def)
      with keyed [OF it] have g: "?g it = ?f c" by (simp add: schema)
      with it vw have "it \<in> set ?vw" by blast
      with g show "?f c \<in> ?g ` set ?vw" by (intro image_eqI [of _ _ it]) simp_all
    qed
    finally show ?thesis .
  qed
  moreover have "distinct (map (\<lambda>it. it ''connectionId'') ?vw)"
  proof -
    have "inj_on (\<lambda>it. it ''connectionId'') (set ?vw)"
    proof (rule inj_onI)
      fix x y assume xy: "x \<in> set ?vw" "y \<in> set ?vw" "x ''connectionId'' = y ''connectionId''"
      from xy(1) obtain d where x: "tabs w (tableName s) (pkey p (vote_sk v d)) = Some x" "?g x = ?f d"
        unfolding vw by blast
      from xy(2) obtain e where y: "tabs w (tableName s) (pkey p (vote_sk v e)) = Some y" "?g y = ?f e"
        unfolding vw by blast
      from xy(3) x(2) y(2) have "d = e" by simp
      with x(1) y(1) show "x = y" by simp
    qed
    moreover have "distinct ?vw" using view_distinct by (simp add: distinct_map)
    ultimately show ?thesis by (simp add: distinct_map)
  qed
  then have "distinct cs" unfolding m [symmetric] by (simp add: distinct_map)
  ultimately show ?thesis by blast
qed

lemma vote_check_current:
  assumes "vote_check s p v c w = (Inr u, w')" and v: "visitor_ok v" and w: "inv w"
  shows "\<exists>it. meta w p = Some it \<and> c \<in> set (Options (meta_of it)) \<and>
    int (card (mine w p v)) < MaxChoices (meta_of it)"
proof -
  obtain mr w1 where m: "getMeta s p w = (mr, w1)" by fastforce
  obtain cr w2 where q: "getMyChoices s p v w1 = (cr, w2)" by fastforce
  from assms(1) m q obtain mt cs where r: "mr = Inr mt" "c \<in> set (Options mt)" "cr = Inr cs"
    "int (length cs) < MaxChoices mt"
    by (auto simp: vote_check_def split: sum.splits if_splits)
  from get_meta_frame [OF m] have t: "tabs w1 = tabs w" .
  from my_choices_current [OF q [unfolded r(3)] v] w t have "card (mine w p v) = length cs"
    by (metis distinct_card)
  with r get_meta_current [OF m [unfolded r(1)]] show ?thesis by auto
qed

end

section \<open>Requests one after the other\<close>

text \<open>A completed operation, whatever it answered.\<close>

inductive poll_step :: "'w Store \<Rightarrow> 'w \<Rightarrow> 'w \<Rightarrow> bool" for s where
  get: "Get s p v opts m pres w = (gr, w') \<Longrightarrow> poll_step s w w'"
| vote: "visitor_ok v \<Longrightarrow> Vote s p v c w = (vr, w') \<Longrightarrow> poll_step s w w'"
| unvote: "visitor_ok v \<Longrightarrow> Unvote s p v c w = (ur, w') \<Longrightarrow> poll_step s w w'"
| switch: "visitor_ok v \<Longrightarrow> Switch s p v a b w = (sr, w') \<Longrightarrow> poll_step s w w'"

text \<open>No visitor has more choices than the poll allows.\<close>

definition poll_bound :: "string \<Rightarrow> tables \<Rightarrow> bool" where
  "poll_bound T tb \<longleftrightarrow> (\<forall>p v m. visitor_ok v \<longrightarrow> meta_max T tb p = Some m \<longrightarrow>
     int (card (my_votes T tb p v)) \<le> max 0 m)"

lemma poll_boundI:
  assumes "poll_bound T tb"
    and "\<And>q u m. visitor_ok u \<Longrightarrow> meta_max T tb' q = Some m \<Longrightarrow>
      meta_max T tb q = Some m \<and> card (my_votes T tb' q u) \<le> card (my_votes T tb q u) \<or>
      int (card (my_votes T tb' q u)) \<le> max 0 m"
  shows "poll_bound T tb'"
  unfolding poll_bound_def
proof (intro allI impI)
  fix q u m assume a: "visitor_ok u" "meta_max T tb' q = Some m"
  from assms(2) [OF a] show "int (card (my_votes T tb' q u)) \<le> max 0 m"
  proof
    assume b: "meta_max T tb q = Some m \<and> card (my_votes T tb' q u) \<le> card (my_votes T tb q u)"
    with assms(1) a(1) have "int (card (my_votes T tb q u)) \<le> max 0 m" by (simp add: poll_bound_def)
    with b show ?thesis by linarith
  qed
qed

lemma vote_sk_single:
  "visitor_ok u \<Longrightarrow> visitor_ok v \<Longrightarrow> {c. vote_sk u c = vote_sk v d} = (if u = v then {d} else {})"
  using vote_sk_eq [of u v] by (auto simp: visitor_ok_def)

context poll_store
begin

lemma write_keyed: "poll_inv poll_ks T tb \<Longrightarrow> keyed_tab T tb"
  by (simp add: poll_inv_def)

lemma open_bound:
  assumes inv: "poll_inv poll_ks (tableName s) tb" and b: "poll_bound (tableName s) tb"
    and put: "put_effect sc (tableName s) (meta_item \<lparr>PollID = p, ConnID = metaSK, Options = opts,
      MaxChoices = m, Votes = init_votes opts, TTL = t\<rparr>) (Some (Attribute_not_exists ''pollId'')) tb = Some tb'"
  shows "poll_bound (tableName s) tb'"
proof (rule poll_boundI [OF b])
  fix q u n
  assume u: "visitor_ok u" and n: "meta_max (tableName s) tb' q = Some n"
  from open_effect [OF schema write_keyed [OF inv] put]
  have none: "meta_max (tableName s) tb p = None" and my: "my_votes (tableName s) tb' q u = my_votes (tableName s) tb q u"
    and other: "q \<noteq> p \<Longrightarrow> meta_max (tableName s) tb' q = meta_max (tableName s) tb q"
    by (auto simp: meta_max_def my_votes_def)
  show "meta_max (tableName s) tb q = Some n \<and> card (my_votes (tableName s) tb' q u) \<le> card (my_votes (tableName s) tb q u) \<or>
      int (card (my_votes (tableName s) tb' q u)) \<le> max 0 n"
  proof (cases "q = p")
    case True
    with no_meta_no_votes [OF inv none] u my show ?thesis by (simp add: visitor_ok_def)
  next
    case False
    with other n my show ?thesis by simp
  qed
qed

lemma unvote_bound:
  assumes inv: "poll_inv poll_ks (tableName s) tb" and b: "poll_bound (tableName s) tb"
    and tx: "transact_effect sc (unvote_items s p v c) tb = Some tb'"
  shows "poll_bound (tableName s) tb'"
proof -
  from unvote_effect [OF schema write_keyed [OF inv] tx] have
    ch: "votes_change (tableName s) p {vote_sk v c} {} tb tb'" and mx: "meta_max (tableName s) tb' = meta_max (tableName s) tb"
    by blast+
  have "my_votes (tableName s) tb' q u \<subseteq> my_votes (tableName s) tb q u" for q u
    by (auto simp: my_votes_change [OF ch] split: if_splits)
  with finite_my_votes [OF inv] have "card (my_votes (tableName s) tb' q u) \<le> card (my_votes (tableName s) tb q u)" for q u
    by (simp add: card_mono)
  with mx show ?thesis by (intro poll_boundI [OF b]) simp
qed

lemma switch_bound:
  assumes inv: "poll_inv poll_ks (tableName s) tb" and b: "poll_bound (tableName s) tb" and v: "visitor_ok v"
    and tx: "transact_effect sc (switch_items s p v a d t) tb = Some tb'"
  shows "poll_bound (tableName s) tb'"
proof -
  from switch_effect [OF schema write_keyed [OF inv] tx] have ad: "a \<noteq> d"
    and ch: "votes_change (tableName s) p {vote_sk v a} {vote_sk v d} tb tb'"
    and mx: "meta_max (tableName s) tb' = meta_max (tableName s) tb" by blast+
  from ch have a: "a \<in> my_votes (tableName s) tb p v" by (auto simp: votes_change_def my_votes_def)
  have "card (my_votes (tableName s) tb' q u) \<le> card (my_votes (tableName s) tb q u)" if u: "visitor_ok u" for q u
  proof (cases "q = p \<and> u = v")
    case True
    let ?M = "my_votes (tableName s) tb p v"
    have "my_votes (tableName s) tb' q u = insert d (?M - {a})"
      using True by (auto simp: my_votes_change [OF ch] vote_sk_single [OF v v])
    moreover have "Suc (card (?M - {a})) = card ?M"
      by (rule card_Suc_Diff1 [OF finite_my_votes [OF inv] a])
    then have "card (insert d (?M - {a})) \<le> card ?M"
      using finite_my_votes [OF inv, of p v] by (simp add: card_insert_if)
    ultimately show ?thesis using True by simp
  next
    case False
    then have "my_votes (tableName s) tb' q u = my_votes (tableName s) tb q u"
      by (auto simp: my_votes_change [OF ch] vote_sk_single [OF u v] split: if_splits)
    then show ?thesis by simp
  qed
  with mx show ?thesis by (intro poll_boundI [OF b]) simp
qed

lemma vote_bound:
  assumes inv: "poll_inv poll_ks (tableName s) tb" and b: "poll_bound (tableName s) tb" and v: "visitor_ok v"
    and tx: "transact_effect sc (vote_items s p v c t) tb = Some tb'"
    and room: "meta_max (tableName s) tb p = Some m" "int (card (my_votes (tableName s) tb p v)) < m"
  shows "poll_bound (tableName s) tb'"
proof -
  from vote_effect [OF schema write_keyed [OF inv] tx] have
    ch: "votes_change (tableName s) p {} {vote_sk v c} tb tb'"
    and mx: "meta_max (tableName s) tb' = meta_max (tableName s) tb" by blast+
  let ?M = "my_votes (tableName s) tb p v"
  have my: "my_votes (tableName s) tb' p v = insert c ?M"
    by (auto simp: my_votes_change [OF ch] vote_sk_single [OF v v])
  have other: "my_votes (tableName s) tb' q u = my_votes (tableName s) tb q u"
    if "visitor_ok u" "\<not> (q = p \<and> u = v)" for q u
    using that by (auto simp: my_votes_change [OF ch] vote_sk_single [OF that(1) v] split: if_splits)
  have "int (card (insert c ?M)) \<le> m" using room(2) card_insert_le_m1 [of _ ?M c]
    by (simp add: card_insert_if finite_my_votes [OF inv])
  with my room mx other show ?thesis
    by (intro poll_boundI [OF b]) (metis le_refl max.coboundedI2 option.inject)
qed

end

context poll_store_current
begin

lemma vote_room:
  assumes "vote_check s p v c w = (Inr u, w1)" and "visitor_ok v" and "inv w"
  shows "\<exists>m. meta_max (tableName s) (tabs w) p = Some m \<and> int (card (mine w p v)) < m"
  using vote_check_current [OF assms] by (auto simp: meta_max_def meta_of_def)

lemma step_inv:
  assumes "poll_step s w w'" and "inv w"
  shows "inv w'"
  using assms
  by (cases rule: poll_step.cases)
    (use write_inv [where sc = sc and s = s, OF schema] in \<open>auto dest!: Get_wrote Vote_wrote Unvote_wrote Switch_wrote\<close>)

lemma write_bound_step:
  assumes "poll_step s w w'" and w: "inv w" and b: "poll_bound (tableName s) (tabs w)"
  shows "poll_bound (tableName s) (tabs w')"
  using assms(1)
proof cases
  case (get p v opts m pres gr)
  from Get_outcome [OF get] show ?thesis
    by (elim disjE exE) (use b open_bound [OF w b] in \<open>metis+\<close>)
next
  case (vote v p c vr)
  from vote(2) show ?thesis
    by (cases rule: Vote_outcome) (use b vote_bound [OF w b vote(1)] vote_room [OF _ vote(1) w] in \<open>metis+\<close>)
next
  case (unvote v p c ur)
  from unvote(2) show ?thesis
    by (cases rule: Unvote_outcome) (use b unvote_bound [OF w b] in \<open>metis+\<close>)
next
  case (switch v p a d sr)
  from switch(2) show ?thesis
    by (cases rule: Switch_outcome) (use b switch_bound [OF w b switch(1)] in \<open>metis+\<close>)
qed

end

section \<open>The operations as changes of the votes\<close>

context poll_store
begin

lemma step_wrote:
  assumes "poll_step s w w'"
  shows "wrote w w'"
  using assms by cases (erule Get_wrote Vote_wrote Unvote_wrote Switch_wrote, assumption?)+

lemma vote_tx:
  assumes "poll_inv poll_ks (tableName s) (tabs w)" and "transact_effect sc (vote_items s p v c t) (tabs w) = Some tb'"
  shows "votes_change (tableName s) p {} {vote_sk v c} (tabs w) tb' \<and>
    counts_change (tableName s) p (\<lambda>d. if d = c then 1 else 0) (tabs w) tb'"
proof -
  from assms(1) have "keyed_tab (tableName s) (tabs w)" by (rule write_keyed)
  from vote_effect [where sc = sc and s = s, OF schema this assms(2)] show ?thesis by blast
qed

lemma unvote_tx:
  assumes "poll_inv poll_ks (tableName s) (tabs w)" and "transact_effect sc (unvote_items s p v c) (tabs w) = Some tb'"
  shows "votes_change (tableName s) p {vote_sk v c} {} (tabs w) tb' \<and>
    counts_change (tableName s) p (\<lambda>d. if d = c then -1 else 0) (tabs w) tb'"
proof -
  from assms(1) have "keyed_tab (tableName s) (tabs w)" by (rule write_keyed)
  from unvote_effect [where sc = sc and s = s, OF schema this assms(2)] show ?thesis by blast
qed

lemma switch_tx:
  assumes "poll_inv poll_ks (tableName s) (tabs w)" and "transact_effect sc (switch_items s p v a b t) (tabs w) = Some tb'"
  shows "a \<noteq> b \<and> votes_change (tableName s) p {vote_sk v a} {vote_sk v b} (tabs w) tb' \<and>
    counts_change (tableName s) p (\<lambda>d. (if d = b then 1 else 0) - (if d = a then 1 else 0)) (tabs w) tb'"
proof -
  from assms(1) have "keyed_tab (tableName s) (tabs w)" by (rule write_keyed)
  from switch_effect [where sc = sc and s = s, OF schema this assms(2)] show ?thesis by blast
qed

lemma Vote_exact:
  assumes "Vote s p v c w = (res, w')" and "poll_inv poll_ks (tableName s) (tabs w)"
  shows "case res of
      Inr u \<Rightarrow> votes_change (tableName s) p {} {vote_sk v c} (tabs w) (tabs w') \<and>
        counts_change (tableName s) p (\<lambda>d. if d = c then 1 else 0) (tabs w) (tabs w')
    | Inl e \<Rightarrow> (\<exists>x. e = Sentinel x) \<longrightarrow> tabs w' = tabs w"
  using assms(1)
proof (cases rule: Vote_outcome)
  case (ok u t w1)
  from vote_tx [OF assms(2) ok(3)] ok(1) show ?thesis by simp
qed auto

lemma Unvote_exact:
  assumes "Unvote s p v c w = (res, w')" and "poll_inv poll_ks (tableName s) (tabs w)"
  shows "case res of
      Inr u \<Rightarrow> votes_change (tableName s) p {vote_sk v c} {} (tabs w) (tabs w') \<and>
        counts_change (tableName s) p (\<lambda>d. if d = c then -1 else 0) (tabs w) (tabs w')
    | Inl e \<Rightarrow> (\<exists>x. e = Sentinel x) \<longrightarrow> tabs w' = tabs w"
  using assms(1)
proof (cases rule: Unvote_outcome)
  case (ok u)
  from unvote_tx [OF assms(2) ok(2)] ok(1) show ?thesis by simp
qed auto

lemma Switch_exact:
  assumes "Switch s p v a b w = (res, w')" and "poll_inv poll_ks (tableName s) (tabs w)"
  shows "case res of
      Inr u \<Rightarrow> a \<noteq> b \<and> votes_change (tableName s) p {vote_sk v a} {vote_sk v b} (tabs w) (tabs w') \<and>
        counts_change (tableName s) p (\<lambda>d. (if d = b then 1 else 0) - (if d = a then 1 else 0)) (tabs w) (tabs w')
    | Inl e \<Rightarrow> (\<exists>x. e = Sentinel x) \<longrightarrow> tabs w' = tabs w"
  using assms(1)
proof (cases rule: Switch_outcome)
  case (ok u t)
  from switch_tx [OF assms(2) ok(2)] ok(1) show ?thesis by simp
qed auto

lemma step_keeps_inv:
  assumes "poll_step s w w'" and "poll_inv poll_ks (tableName s) (tabs w)"
  shows "poll_inv poll_ks (tableName s) (tabs w')"
  using step_wrote [OF assms(1)] write_inv [where sc = sc and s = s, OF schema _ assms(2)] assms(2) by auto

end

section \<open>What a vote answers without outages\<close>

context poll_store_current
begin

lemma vote_transaction:
  assumes up: "dynamo_up (client s) tabs sc view" and m: "meta w p = Some (meta_item r)"
    and k: "CHR ''#'' \<notin> set v"
  shows "\<exists>w'. TransactWriteItems (client s) (vote_items s p v c t) w =
    (if c \<in> mine w p v
     then Inl (Transaction_canceled [Some ''ConditionalCheckFailed'', Some ''None''])
     else Inr (), w')"
proof -
  have dist: "distinct (map (ti_target sc) (vote_items s p v c t))"
    by (simp add: vote_items_def schema)
  show ?thesis
  proof (cases "c \<in> mine w p v")
    case True
    then obtain it where it: "tabs w (tableName s) (pkey p (vote_sk v c)) = Some it"
      by (auto simp: my_votes_def vote_sks_def)
    from keyed [OF it] have "it ''connectionId'' \<noteq> None" by (simp add: schema)
    with it have bad: "\<not> ti_cond sc (tabs w) (hd (vote_items s p v c t))"
      by (simp add: vote_items_def schema)
    have "\<exists>t' \<in> set (vote_items s p v c t). \<not> ti_cond sc (tabs w) t'"
      using bad by (intro bexI [of _ "hd (vote_items s p v c t)"]) (simp_all add: vote_items_def)
    from dynamo_up.transact_up_cancel [OF up dist this] True it \<open>it ''connectionId'' \<noteq> None\<close>
    show ?thesis by (simp add: vote_items_def schema)
  next
    case False
    then have "tabs w (tableName s) (pkey p (vote_sk v c)) = None"
      by (simp add: my_votes_def vote_sks_def)
    moreover from keyed [OF m] have "PollID r = p" "ConnID r = metaSK"
      by (auto simp: schema meta_item_def)
    ultimately have "transact_effect sc (vote_items s p v c t) (tabs w) \<noteq> None"
      using dist m by (auto simp: transact_effect_def vote_items_def put_effect_def update_effect_def
          schema Let_def meta_item_def split: option.splits)
    from dynamo_up.transact_up [OF up this] False show ?thesis by simp
  qed
qed

lemma vote_decides:
  assumes up: "dynamo_up (client s) tabs sc view" and um: "\<And>it. unmarshalMeta s it = Inr (meta_of it)"
    and v: "visitor_ok v" and w: "inv w" and m: "meta w p = Some (meta_item r)"
    and vote: "Vote s p v c w = (res, w')"
  shows "res =
    (if c \<notin> set (Options r) then Inl (Sentinel ErrInvalidChoice)
     else if MaxChoices r \<le> int (card (mine w p v)) then Inl (Sentinel ErrMaxChoicesExceeded)
     else if c \<in> mine w p v then Inl (Sentinel ErrDuplicateVote)
     else Inr ())"
proof -
  obtain oi w1 where g: "GetItem (client s) (tableName s) (poll_key p metaSK) False w = (Inr oi, w1)"
    using dynamo_up.get_up [OF up] by blast
  from get_current [OF g] m um g have gm: "getMeta s p w = (Inr r, w1)"
    by (simp add: getMeta_def schema)
  note t1 = get_meta_frame [OF gm]
  from dynamo_up.query_up [OF up, of "choices_query (tableName s) p v" w1] obtain out w2 where
    q: "Query (client s) (choices_query (tableName s) p v) w1 = (Inr out, w2)"
    by (auto simp: choices_query_def)
  let ?cs = "choices_of_items (out_items out)"
  from q v have gc: "getMyChoices s p v w1 = (Inr ?cs, w2)"
    by (simp add: getMyChoices_def visitor_ok_def)
  from my_choices_current [OF gc v] w t1 have len: "length ?cs = card (mine w p v)"
    by (metis distinct_card)
  from choices_frame [OF gc] t1 have t2: "tabs w2 = tabs w" by simp
  obtain now w3 where n: "now_Unix s w2 = (now, w3)" by fastforce
  from now_tabs [OF n] t2 have t3: "tabs w3 = tabs w" by simp
  from vote_transaction [OF up, of w3 p r v c "now + ttlDuration"] m v t3 obtain w4 where
    x: "TransactWriteItems (client s) (vote_items s p v c (now + ttlDuration)) w3 =
      (if c \<in> mine w p v then Inl (Transaction_canceled [Some ''ConditionalCheckFailed'', Some ''None''])
       else Inr (), w4)"
    by (auto simp: visitor_ok_def)
  have commit: "fst (vote_commit s p v c w2) = (if c \<in> mine w p v then Inl (Sentinel ErrDuplicateVote) else Inr ())"
    by (simp add: vote_commit_def n x transactionCanceledReasons_def)
  from vote show ?thesis
    using commit by (auto simp: Vote_def vote_check_def gm gc len)
qed

end

section \<open>An instance\<close>

text \<open>The store over the in-memory client; the clock stands still.\<close>

definition poll_schema :: "string \<Rightarrow> string list" where
  "poll_schema T = [''pollId'', ''connectionId'']"

definition demo_polls :: "mem Store" where
  "demo_polls = \<lparr>client = mem_client poll_schema, tableName = ''poll_votes'', now_Unix = (\<lambda>w. (0, w)),
     marshalMapFn = (\<lambda>r. Inr (meta_item r)), unmarshalMeta = (\<lambda>it. Inr (meta_of it))\<rparr>"

lemma demo_poll_store: "poll_store_current demo_polls (mem_tabs poll_schema) poll_schema (mem_view poll_schema)"
proof -
  have c: "client demo_polls = mem_client poll_schema" by (simp add: demo_polls_def)
  have a: "poll_store demo_polls (mem_tabs poll_schema) poll_schema"
    by (intro poll_store.intro poll_store_axioms.intro, simp only: c mem_dynamo)
      (auto simp: demo_polls_def poll_schema_def)
  show ?thesis
    by (intro poll_store_current.intro poll_store_current_axioms.intro a, simp only: c mem_dynamo_current)
      (auto simp: c mem_client_def mem_query_def choices_query_def Let_def)
qed

interpretation polls: poll_store_current demo_polls "mem_tabs poll_schema" poll_schema "mem_view poll_schema"
  by (rule demo_poll_store)

end
