(* ===== verification/Poll_Instance.thy ===== *)
theory Poll_Instance
  imports Poll_Operations
begin

text \<open>
  How the in-memory instance of the poll store computes, and the concrete requests that the
  properties are applied to.
\<close>

section \<open>Evaluating the instance\<close>

definition demo_meta :: "int \<Rightarrow> (string \<times> int) list \<Rightarrow> item" where
  "demo_meta m votes = meta_item \<lparr>PollID = ''q1'', ConnID = metaSK, Options = [''a'', ''b''],
     MaxChoices = m, Votes = map_of votes, TTL = ttlDuration\<rparr>"

definition demo_vote :: "string \<Rightarrow> string \<Rightarrow> item" where
  "demo_vote v c = (poll_key ''q1'' (vote_sk v c))(''ttl'' \<mapsto> AN ttlDuration)"

definition poll_world :: "item list \<Rightarrow> mem" where
  "poll_world its = \<lparr>mem_items = (\<lambda>T. if T = ''poll_votes'' then its else [])\<rparr>"

lemma demo_polls_parts [simp]:
  "client demo_polls = mem_client poll_schema" "tableName demo_polls = ''poll_votes''"
  "now_Unix demo_polls w = (0, w)" "marshalMapFn demo_polls r = Inr (meta_item r)"
  "unmarshalMeta demo_polls it = Inr (meta_of it)" "poll_schema T = poll_ks"
  by (simp_all add: demo_polls_def poll_schema_def)

lemma poll_client_parts [simp]:
  "PutItem (mem_client sc) = mem_put sc" "GetItem (mem_client sc) = mem_get sc"
  "Query (mem_client sc) = mem_query sc" "TransactWriteItems (mem_client sc) = mem_transact sc"
  by (simp_all add: mem_client_def)

lemma poll_items [simp]: "mem_items (poll_world its) ''poll_votes'' = its"
  by (simp add: poll_world_def)

lemma poll_with [simp]: "mem_with ''poll_votes'' its' (poll_world its) = poll_world its'"
  by (auto simp: mem_with_def poll_world_def)

lemma demo_attrs [simp]:
  "demo_meta m vs ''pollId'' = Some (AS ''q1'')" "demo_meta m vs ''connectionId'' = Some (AS metaSK)"
  "demo_vote v c ''pollId'' = Some (AS ''q1'')" "demo_vote v c ''connectionId'' = Some (AS (vote_sk v c))"
  "demo_meta m vs ''maxChoices'' = Some (AN m)"
  "demo_meta m vs ''votes'' = Some (AM (\<lambda>c. map_option AN (map_of vs c)))"
  "meta_of (demo_meta m vs) = \<lparr>PollID = ''q1'', ConnID = metaSK, Options = [''a'', ''b''],
     MaxChoices = m, Votes = map_of vs, TTL = ttlDuration\<rparr>"
  by (simp_all add: demo_meta_def demo_vote_def) (simp_all add: meta_item_def)

lemma poll_tabs [simp]: "mem_tabs poll_schema (poll_world its) ''poll_votes'' k = mem_find poll_ks k its"
  by (simp add: mem_tabs_def)

lemma mem_find_code [simp]:
  "mem_find ks k [] = None"
  "mem_find ks k (it # its) = (if key_of ks it = k then Some it else mem_find ks k its)"
  by (simp_all add: mem_find_def)

lemma demo_get_meta [simp]:
  "getMeta demo_polls p (poll_world its) =
     (case mem_find poll_ks (pkey p metaSK) its of None \<Rightarrow> Inl (Sentinel ErrPollNotFound)
      | Some it \<Rightarrow> Inr (meta_of it), poll_world its)"
  by (simp add: getMeta_def mem_get_def split: option.splits)

lemma demo_choices [simp]:
  "v \<noteq> [] \<Longrightarrow> getMyChoices demo_polls p v (poll_world its) =
     (Inr (choices_of_items (filter (\<lambda>it. it ''pollId'' = Some (AS p) \<and>
        (\<exists>c. it ''connectionId'' = Some (AS (v @ ''#'' @ c)))) (mem_listing poll_ks its))), poll_world its)"
  by (simp add: getMyChoices_def choices_query_def mem_query_def mem_view_def Let_def)

lemma demo_meta_votes:
  "(demo_meta m vs)(''votes'' \<mapsto> AM mp) = demo_meta m ws \<longleftrightarrow> mp = (\<lambda>c. map_option AN (map_of ws c))"
proof
  assume "(demo_meta m vs)(''votes'' \<mapsto> AM mp) = demo_meta m ws"
  from fun_cong [OF this, of "''votes''"] show "mp = (\<lambda>c. map_option AN (map_of ws c))" by simp
qed (auto simp: demo_meta_def meta_item_def fun_eq_iff)

lemma poll_worldI: "its = its' \<Longrightarrow> poll_world its = poll_world its'"
  by simp

lemmas eval_transact = vote_commit_def Unvote_def vote_items_def unvote_items_def mem_transact_def
  mem_store_def mem_drop_def mem_new_item_def Let_def

section \<open>Concrete requests\<close>

lemma race_a: "vote_commit demo_polls ''q1'' ''v'' ''a'' (poll_world [demo_meta 1 []]) =
     (Inr (), poll_world [demo_vote ''v'' ''a'', demo_meta 1 [(''a'', 1)]])"
  by (simp add: eval_transact, intro poll_worldI)
    (simp add: demo_meta_votes demo_vote_def, auto simp: fun_eq_iff)

lemma race_b: "vote_commit demo_polls ''q1'' ''v'' ''b'' (poll_world [demo_vote ''v'' ''a'', demo_meta 1 [(''a'', 1)]]) =
     (Inr (), poll_world [demo_vote ''v'' ''a'', demo_vote ''v'' ''b'', demo_meta 1 [(''b'', 1), (''a'', 1)]])"
  by (simp add: eval_transact, intro poll_worldI)
    (simp add: demo_meta_votes demo_vote_def, auto simp: fun_eq_iff)

lemma check_passes:
  "vote_check demo_polls ''q1'' ''v'' ''a'' (poll_world [demo_meta 1 []]) = (Inr (), poll_world [demo_meta 1 []])"
  "vote_check demo_polls ''q1'' ''v'' ''b'' (poll_world [demo_meta 1 []]) = (Inr (), poll_world [demo_meta 1 []])"
  by (simp_all add: vote_check_def)

lemma both: "getMyChoices demo_polls ''q1'' ''v'' (poll_world [demo_vote ''v'' ''a'', demo_vote ''v'' ''b'', demo_meta 1 [(''b'', 1), (''a'', 1)]])
  = (Inr [''a'', ''b''], poll_world [demo_vote ''v'' ''a'', demo_vote ''v'' ''b'', demo_meta 1 [(''b'', 1), (''a'', 1)]])"
  by (simp add: vote_sk_def metaSK_def)

lemma demo_vote_step:
  "Vote demo_polls ''q1'' ''v'' ''a'' (poll_world [demo_meta 1 []]) =
     (Inr (), poll_world [demo_vote ''v'' ''a'', demo_meta 1 [(''a'', 1)]])"
  by (simp add: Vote_def check_passes race_a)

lemma demo_unvote_step:
  "Unvote demo_polls ''q1'' ''v'' ''a'' (poll_world [demo_vote ''v'' ''a'', demo_meta 1 [(''a'', 1)]]) =
     (Inr (), poll_world [demo_meta 1 [(''a'', 0)]])"
  by (simp add: eval_transact, intro poll_worldI)
    (simp add: demo_meta_votes demo_vote_def, auto simp: fun_eq_iff)

lemma demo_switch_step:
  "Switch demo_polls ''q1'' ''v'' ''a'' ''b'' (poll_world [demo_vote ''v'' ''a'', demo_meta 1 [(''a'', 1)]]) =
     (Inr (), poll_world [demo_vote ''v'' ''b'', demo_meta 1 [(''b'', 1), (''a'', 0)]])"
  by (simp add: Switch_def switch_items_def eval_transact, intro poll_worldI)
    (simp add: demo_meta_votes demo_vote_def, auto simp: fun_eq_iff)

lemma demo_poll_inv: "poll_inv poll_ks ''poll_votes'' (mem_tabs poll_schema (poll_world [demo_meta m []]))"
proof -
  let ?tb = "mem_tabs poll_schema (poll_world [demo_meta m []])"
  have "vote_sks ''poll_votes'' ?tb p = {}" for p
    by (auto simp: vote_sks_def)
  then show ?thesis by (auto simp: poll_inv_def tally_def count_in_def split: if_splits)
qed

lemma demo_poll_bound: "0 \<le> m \<Longrightarrow> poll_bound ''poll_votes'' (mem_tabs poll_schema (poll_world [demo_meta m []]))"
  by (auto simp: poll_bound_def my_votes_def vote_sks_def)

end
