(* ===== verification/Poll_Properties.thy ===== *)
theory Poll_Properties
  imports Poll_Instance
begin

text \<open>
  The properties of the poll store, over every client, clock and codec that meet the hypotheses of
  the locales \<open>poll_store\<close> and \<open>poll_store_current\<close>.
\<close>

section \<open>Counters\<close>

text \<open>C12. Every operation of the poll store, whatever it answers and however its calls fail, leaves
  the table as it was or makes one of the four atomic writes: opening a poll, a vote with its
  counter, a withdrawn vote with its counter, a moved vote with both counters.\<close>

theorem poll_operations_atomic:
  assumes "poll_store s tabs sc" and "poll_step s w w'"
  shows "tabs w' = tabs w \<or> poll_write sc s (tabs w) (tabs w')"
  by (rule poll_store.step_wrote [OF assms])

theorem poll_operations_atomic_witness:
  "mem_tabs poll_schema (poll_world [demo_vote ''v'' ''a'', demo_meta 1 [(''a'', 1)]]) =
     mem_tabs poll_schema (poll_world [demo_meta 1 []]) \<or>
   poll_write poll_schema demo_polls (mem_tabs poll_schema (poll_world [demo_meta 1 []]))
     (mem_tabs poll_schema (poll_world [demo_vote ''v'' ''a'', demo_meta 1 [(''a'', 1)]]))"
  by (rule poll_operations_atomic [OF poll_store_current.axioms(1) [OF demo_poll_store]
    poll_step.vote [OF _ demo_vote_step]]) (simp add: visitor_ok_def)

text \<open>C13. The counters count the votes.  In any interleaving of the atomic writes of any number of
  concurrent requests, the counter of every option of every poll is the number of vote records
  for it.\<close>

theorem poll_counters_exact:
  assumes "sc (tableName s) = poll_ks" and "(poll_write sc s)\<^sup>*\<^sup>* tb tb'"
    and "poll_inv poll_ks (tableName s) tb"
  shows "tally (tableName s) tb' p c = int (card {sk \<in> vote_sks (tableName s) tb' p. choice_of sk = Some c})"
proof -
  from assms(2,3) have "poll_inv poll_ks (tableName s) tb'"
    by (induction rule: rtranclp_induct) (auto intro: write_inv [where sc = sc and s = s, OF assms(1)])
  then show ?thesis by (simp add: poll_inv_def)
qed

theorem poll_counters_exact_witness:
  "tally ''poll_votes'' (mem_tabs poll_schema (poll_world [demo_vote ''v'' ''a'', demo_meta 1 [(''a'', 1)]])) ''q1'' ''a'' =
     int (card {sk \<in> vote_sks ''poll_votes'' (mem_tabs poll_schema
        (poll_world [demo_vote ''v'' ''a'', demo_meta 1 [(''a'', 1)]])) ''q1''. choice_of sk = Some ''a''})"
proof -
  have tx: "mem_transact poll_schema (vote_items demo_polls ''q1'' ''v'' ''a'' ttlDuration) (poll_world [demo_meta 1 []]) =
      (Inr (), poll_world [demo_vote ''v'' ''a'', demo_meta 1 [(''a'', 1)]])"
    using race_a by (auto simp: vote_commit_def Let_def split: prod.splits sum.splits if_splits)
  have "poll_write poll_schema demo_polls (mem_tabs poll_schema (poll_world [demo_meta 1 []]))
     (mem_tabs poll_schema (poll_world [demo_vote ''v'' ''a'', demo_meta 1 [(''a'', 1)]]))"
    using mem.transact_ok [of poll_schema "vote_items demo_polls ''q1'' ''v'' ''a'' ttlDuration"] tx
    by (intro poll_write.vote [where v = "''v''"]) (auto simp: visitor_ok_def)
  then have "(poll_write poll_schema demo_polls)\<^sup>*\<^sup>* (mem_tabs poll_schema (poll_world [demo_meta 1 []]))
     (mem_tabs poll_schema (poll_world [demo_vote ''v'' ''a'', demo_meta 1 [(''a'', 1)]]))" by blast
  from poll_counters_exact [where s = demo_polls, OF _ this, of "''q1''" "''a''"] demo_poll_inv show ?thesis by simp
qed

section \<open>Choices\<close>



text \<open>C15. What a vote answers, without outages, in an open poll: an option the poll does not have
  is invalid; a visitor with all their choices gets the limit error; a repeated vote is a
  duplicate; every other vote succeeds.\<close>

theorem vote_decision:
  assumes "poll_store_current s tabs sc view" and "dynamo_up (client s) tabs sc view"
    and "\<And>it. unmarshalMeta s it = Inr (meta_of it)" and "visitor_ok v"
    and "poll_inv poll_ks (tableName s) (tabs w)"
    and "tabs w (tableName s) (pkey p metaSK) = Some (meta_item r)"
    and "Vote s p v c w = (res, w')"
  shows "res =
    (if c \<notin> set (Options r) then Inl (Sentinel ErrInvalidChoice)
     else if MaxChoices r \<le> int (card (my_votes (tableName s) (tabs w) p v))
     then Inl (Sentinel ErrMaxChoicesExceeded)
     else if c \<in> my_votes (tableName s) (tabs w) p v then Inl (Sentinel ErrDuplicateVote)
     else Inr ())"
  by (rule poll_store_current.vote_decides [OF assms])

theorem vote_decision_witness:
  "fst (Vote demo_polls ''q1'' ''v'' ''c'' (poll_world [demo_meta 1 []])) = Inl (Sentinel ErrInvalidChoice)"
proof -
  obtain res w' where v: "Vote demo_polls ''q1'' ''v'' ''c'' (poll_world [demo_meta 1 []]) = (res, w')" by fastforce
  have up: "dynamo_up (client demo_polls) (mem_tabs poll_schema) poll_schema (mem_view poll_schema)"
    unfolding demo_polls_parts by (rule mem_dynamo_up)
  have m: "mem_tabs poll_schema (poll_world [demo_meta 1 []]) (tableName demo_polls) (pkey ''q1'' metaSK) =
     Some (meta_item \<lparr>PollID = ''q1'', ConnID = metaSK, Options = [''a'', ''b''],
     MaxChoices = 1, Votes = map_of [], TTL = ttlDuration\<rparr>)"
    unfolding demo_meta_def [symmetric] by simp
  have inv: "poll_inv poll_ks (tableName demo_polls) (mem_tabs poll_schema (poll_world [demo_meta 1 []]))"
    using demo_poll_inv by simp
  have "visitor_ok ''v''" by (simp add: visitor_ok_def)
  from vote_decision [OF demo_poll_store up demo_polls_parts(5) this inv m v] show ?thesis
    by (simp add: v)
qed

text \<open>C16. What the three operations on votes change.  A successful vote adds the visitor's record and one to
  the counter of its option; a withdrawal takes the record and one from the counter; a move takes
  the record for one option, adds one for a different option, and changes these two counters by one each;
  nothing else changes.  An operation refused with one of the poll's own errors changes nothing.\<close>

theorem ballots_exact:
  assumes "poll_store s tabs sc" and "poll_inv poll_ks (tableName s) (tabs w)"
  shows "(case Vote s p v c w of
      (Inr u, w') \<Rightarrow> votes_change (tableName s) p {} {vote_sk v c} (tabs w) (tabs w') \<and>
        counts_change (tableName s) p (\<lambda>d. if d = c then 1 else 0) (tabs w) (tabs w')
    | (Inl e, w') \<Rightarrow> (\<exists>x. e = Sentinel x) \<longrightarrow> tabs w' = tabs w) \<and>
    (case Unvote s p v c w of
      (Inr u, w') \<Rightarrow> votes_change (tableName s) p {vote_sk v c} {} (tabs w) (tabs w') \<and>
        counts_change (tableName s) p (\<lambda>d. if d = c then -1 else 0) (tabs w) (tabs w')
    | (Inl e, w') \<Rightarrow> (\<exists>x. e = Sentinel x) \<longrightarrow> tabs w' = tabs w) \<and>
    (case Switch s p v a b w of
      (Inr u, w') \<Rightarrow> a \<noteq> b \<and> votes_change (tableName s) p {vote_sk v a} {vote_sk v b} (tabs w) (tabs w') \<and>
        counts_change (tableName s) p (\<lambda>d. (if d = b then 1 else 0) - (if d = a then 1 else 0)) (tabs w) (tabs w')
    | (Inl e, w') \<Rightarrow> (\<exists>x. e = Sentinel x) \<longrightarrow> tabs w' = tabs w)"
  using poll_store.Vote_exact [OF assms(1) _ assms(2)] poll_store.Unvote_exact [OF assms(1) _ assms(2)]
    poll_store.Switch_exact [OF assms(1) _ assms(2)]
  by (fastforce split: prod.splits sum.splits)

theorem ballots_exact_witness:
  "votes_change ''poll_votes'' ''q1'' {vote_sk ''v'' ''a''} {vote_sk ''v'' ''b''}
     (mem_tabs poll_schema (poll_world [demo_vote ''v'' ''a'', demo_meta 1 [(''a'', 1)]]))
     (mem_tabs poll_schema (poll_world [demo_vote ''v'' ''b'', demo_meta 1 [(''b'', 1), (''a'', 0)]]))"
proof -
  have "poll_inv poll_ks (tableName demo_polls)
      (mem_tabs poll_schema (poll_world [demo_vote ''v'' ''a'', demo_meta 1 [(''a'', 1)]]))"
    using polls.step_inv [OF poll_step.vote [OF _ demo_vote_step]] demo_poll_inv by (simp add: visitor_ok_def)
  from ballots_exact [OF poll_store_current.axioms(1) [OF demo_poll_store] this, of "''q1''" "''v''" "''a''" "''a''" "''b''"]
  show ?thesis using demo_switch_step by simp
qed

text \<open>Withdrawing a vote undoes it: after a vote and its withdrawal, both successful, the votes
  and all the counters are what they were.\<close>

theorem vote_unvote_roundtrip:
  assumes "poll_store s tabs sc" and "poll_inv poll_ks (tableName s) (tabs w)" and "visitor_ok v"
    and "Vote s p v c w = (Inr u, w1)" and "Unvote s p v c w1 = (Inr u', w2)"
  shows "vote_sks (tableName s) (tabs w2) = vote_sks (tableName s) (tabs w) \<and>
    tally (tableName s) (tabs w2) = tally (tableName s) (tabs w)"
proof -
  from poll_store.Vote_exact [OF assms(1,4,2)]
  have a: "votes_change (tableName s) p {} {vote_sk v c} (tabs w) (tabs w1)"
    "counts_change (tableName s) p (\<lambda>d. if d = c then 1 else 0) (tabs w) (tabs w1)" by simp_all
  have "poll_inv poll_ks (tableName s) (tabs w1)"
    by (rule poll_store.step_keeps_inv [OF assms(1) poll_step.vote [OF assms(3,4)] assms(2)])
  from poll_store.Unvote_exact [OF assms(1,5) this]
  have b: "votes_change (tableName s) p {vote_sk v c} {} (tabs w1) (tabs w2)"
    "counts_change (tableName s) p (\<lambda>d. if d = c then -1 else 0) (tabs w1) (tabs w2)" by simp_all
  from a(1) b(1) have "vote_sks (tableName s) (tabs w2) q = vote_sks (tableName s) (tabs w) q" for q
    by (auto simp: votes_change_def)
  moreover from a(2) b(2) have "tally (tableName s) (tabs w2) q d = tally (tableName s) (tabs w) q d" for q d
    by (simp add: counts_change_def)
  ultimately show ?thesis by blast
qed

theorem vote_unvote_roundtrip_witness:
  "vote_sks ''poll_votes'' (mem_tabs poll_schema (poll_world [demo_meta 1 [(''a'', 0)]])) =
   vote_sks ''poll_votes'' (mem_tabs poll_schema (poll_world [demo_meta 1 []]))"
  using vote_unvote_roundtrip [OF poll_store_current.axioms(1) [OF demo_poll_store] _ _ demo_vote_step demo_unvote_step]
    demo_poll_inv by (simp add: visitor_ok_def)

section \<open>Limits of the store\<close>

text \<open>C38. The limit is checked before the transaction and not in it: of two concurrent votes of one
  visitor, both checked before either is written, both succeed, and the visitor has two
  choices in a poll that allows one.\<close>

theorem concurrent_votes_exceed_limit:
  "\<exists>w w1 w2 w3. vote_check demo_polls ''q1'' ''v'' ''a'' w = (Inr (), w) \<and>
     vote_check demo_polls ''q1'' ''v'' ''b'' w = (Inr (), w) \<and>
     vote_commit demo_polls ''q1'' ''v'' ''a'' w = (Inr (), w1) \<and>
     vote_commit demo_polls ''q1'' ''v'' ''b'' w1 = (Inr (), w2) \<and>
     getMyChoices demo_polls ''q1'' ''v'' w2 = (Inr [''a'', ''b''], w3) \<and>
     meta_max ''poll_votes'' (mem_tabs poll_schema w2) ''q1'' = Some 1"
proof (intro exI conjI)
  show "meta_max ''poll_votes'' (mem_tabs poll_schema (poll_world [demo_vote ''v'' ''a'', demo_vote ''v'' ''b'',
      demo_meta 1 [(''b'', 1), (''a'', 1)]])) ''q1'' = Some 1"
    by (simp add: meta_max_def int_attr_def)
qed (rule check_passes race_a race_b both)+

text \<open>C39. A vote outlives the META record that was there when it was cast, because its time to live
  starts later.  When META has expired and the presenter opens the poll again, the counters
  start at zero although the vote is still stored, and withdrawing it makes its counter
  negative.\<close>

theorem reopened_poll_counts_below_zero:
  "\<exists>st w w'. Get demo_polls ''q1'' [] (Some [''a'', ''b'']) 1 True (poll_world [demo_vote ''v'' ''a'']) = (Inr st, w) \<and>
     Unvote demo_polls ''q1'' ''v'' ''a'' w = (Inr (), w') \<and>
     tally ''poll_votes'' (mem_tabs poll_schema w') ''q1'' ''a'' = -1"
proof -
  let ?w = "poll_world [demo_vote ''v'' ''a'', demo_meta 1 [(''a'', 0), (''b'', 0)]]"
  let ?w' = "poll_world [demo_meta 1 [(''a'', -1), (''a'', 0), (''b'', 0)]]"
  have mi: "meta_item \<lparr>PollID = ''q1'', ConnID = metaSK, Options = [''a'', ''b''], MaxChoices = 1,
      Votes = [''b'' \<mapsto> 0, ''a'' \<mapsto> 0], TTL = ttlDuration\<rparr> = demo_meta 1 [(''a'', 0), (''b'', 0)]"
    by (simp add: demo_meta_def)
  have "put_meta demo_polls ''q1'' [''a'', ''b''] 1 (poll_world [demo_vote ''v'' ''a'']) = (Inr (), ?w)"
    by (simp add: put_meta_def mem_put_def mem_store_def Let_def mi)
  then have "\<exists>st. Get demo_polls ''q1'' [] (Some [''a'', ''b'']) 1 True (poll_world [demo_vote ''v'' ''a'']) = (Inr st, ?w)"
    by (simp add: Get_def getMyChoices_def)
  moreover have "Unvote demo_polls ''q1'' ''v'' ''a'' ?w = (Inr (), ?w')"
    by (simp add: eval_transact, intro poll_worldI)
      (simp add: demo_meta_votes demo_vote_def, auto simp: fun_eq_iff)
  moreover have "tally ''poll_votes'' (mem_tabs poll_schema ?w') ''q1'' ''a'' = -1"
    by (simp add: tally_def count_in_def)
  ultimately show ?thesis by blast
qed

end
