(* ===== verification/Ws_Stores.thy ===== *)
theory Ws_Stores
  imports Poll_Store
begin
text \<open>
  The stores of the presenter besides the polls, and the delivery of messages: connections and
  session validation (\<open>presenter/internal/connection\<close>), the current slide
  (\<open>presenter/internal/roomstate\<close>), presenter sessions (\<open>presenter/internal/session\<close>) and the
  broadcaster (\<open>presenter/internal/broadcast\<close>).
\<close>

section \<open>Errors\<close>

datatype ws_err =
    Conn_ErrNotFound | Slidesync_ErrNotPresenter | Handson_ErrNotPresenter | Poll_error poll_err

type_synonym werr = "ws_err go_error"

text \<open>The messages of the error variables; \<open>err.Error()\<close> of a wrapped error joins the messages.
  The texts of external errors are a parameter.\<close>

fun poll_err_text :: "poll_err \<Rightarrow> string" where
  "poll_err_text ErrMaxChoicesExceeded = ''max choices exceeded''"
| "poll_err_text ErrDuplicateVote = ''duplicate vote''"
| "poll_err_text ErrVoteNotFound = ''vote not found''"
| "poll_err_text ErrPollNotFound = ''poll not found''"
| "poll_err_text ErrInvalidChoice = ''invalid choice''"

fun ws_err_text :: "ws_err \<Rightarrow> string" where
  "ws_err_text Conn_ErrNotFound = ''connection not found''"
| "ws_err_text Slidesync_ErrNotPresenter = ''only presenter can sync slides''"
| "ws_err_text Handson_ErrNotPresenter = ''only presenter can send hands_on''"
| "ws_err_text (Poll_error e) = poll_err_text e"

fun Error_text :: "(ext_error \<Rightarrow> string) \<Rightarrow> werr \<Rightarrow> string" where
  "Error_text ext (Sentinel s) = ws_err_text s"
| "Error_text ext (New_error s) = s"
| "Error_text ext (Wrapf p e) = p @ '': '' @ Error_text ext e"
| "Error_text ext (Foreign x) = ext x"

section \<open>Connections\<close>

record Connection =
  Room :: string
  ConnectionID :: string
  Role :: string
  conn_TTL :: int

record 'w conn_store =
  cs_client :: "'w ddb"
  cs_tableName :: string
  cs_now_Unix :: "'w \<Rightarrow> int \<times> 'w"
  cs_marshal :: "Connection \<Rightarrow> ext_error + item"
  cs_unmarshal :: "item \<Rightarrow> ext_error + Connection"

definition conn_key :: "string \<Rightarrow> string \<Rightarrow> item" where
  "conn_key room connectionID = [''room'' \<mapsto> AS room, ''connectionId'' \<mapsto> AS connectionID]"

definition conn_Put :: "'w conn_store \<Rightarrow> Connection \<Rightarrow> 'w \<Rightarrow> (werr + unit) \<times> 'w" where
  "conn_Put s conn w =
     (let (now, w1) = cs_now_Unix s w in
      case cs_marshal s (conn\<lparr>conn_TTL := now + 24 * 60 * 60\<rparr>) of
        Inl e \<Rightarrow> (Inl (Wrapf ''marshal connection'' (Foreign e)), w1)
      | Inr it \<Rightarrow>
          (case PutItem (cs_client s) (cs_tableName s) it None w1 of
             (Inl e, w2) \<Rightarrow> (Inl (Wrapf ''put item'' (Foreign e)), w2)
           | (Inr _, w2) \<Rightarrow> (Inr (), w2)))"

definition conn_Get :: "'w conn_store \<Rightarrow> string \<Rightarrow> string \<Rightarrow> 'w \<Rightarrow> (werr + Connection) \<times> 'w" where
  "conn_Get s room connectionID w =
     (case GetItem (cs_client s) (cs_tableName s) (conn_key room connectionID) False w of
        (Inl e, w1) \<Rightarrow> (Inl (Wrapf ''get item'' (Foreign e)), w1)
      | (Inr None, w1) \<Rightarrow> (Inl (Sentinel Conn_ErrNotFound), w1)
      | (Inr (Some it), w1) \<Rightarrow>
          (case cs_unmarshal s it of
             Inl e \<Rightarrow> (Inl (Wrapf ''unmarshal connection'' (Foreign e)), w1)
           | Inr conn \<Rightarrow> (Inr conn, w1)))"

definition conn_Delete :: "'w conn_store \<Rightarrow> string \<Rightarrow> string \<Rightarrow> 'w \<Rightarrow> (werr + unit) \<times> 'w" where
  "conn_Delete s room connectionID w =
     (case DeleteItem (cs_client s) (cs_tableName s) (conn_key room connectionID) w of
        (Inl e, w1) \<Rightarrow> (Inl (Wrapf ''delete item'' (Foreign e)), w1)
      | (Inr _, w1) \<Rightarrow> (Inr (), w1))"

text \<open>The input of a page of either loop; \<open>start\<close> is the exclusive start key.\<close>

definition room_query :: "'w conn_store \<Rightarrow> string \<Rightarrow> item option \<Rightarrow> bool \<Rightarrow> query_input" where
  "room_query s room start count =
     \<lparr>q_table = cs_tableName s, q_index = None, q_conds = [Key_eq ''room'' (AS room)],
      q_limit = None, q_start = start, q_count = count\<rparr>"

fun unmarshal_conns :: "'w conn_store \<Rightarrow> item list \<Rightarrow> ext_error + Connection list" where
  "unmarshal_conns s [] = Inr []"
| "unmarshal_conns s (it # its) =
     (case cs_unmarshal s it of
        Inl e \<Rightarrow> Inl e
      | Inr conn \<Rightarrow>
          (case unmarshal_conns s its of Inl e \<Rightarrow> Inl e | Inr conns \<Rightarrow> Inr (conn # conns)))"

partial_function (option) query_pages ::
  "'w conn_store \<Rightarrow> string \<Rightarrow> item option \<Rightarrow> Connection list \<Rightarrow> 'w \<Rightarrow> ((werr + Connection list) \<times> 'w) option" where
  "query_pages s room start conns w =
     (case Query (cs_client s) (room_query s room start False) w of
        (Inl e, w1) \<Rightarrow> Some (Inl (Wrapf ''query by room'' (Foreign e)), w1)
      | (Inr out, w1) \<Rightarrow>
          (case unmarshal_conns s (out_items out) of
             Inl e \<Rightarrow> Some (Inl (Wrapf ''unmarshal connection'' (Foreign e)), w1)
           | Inr cs \<Rightarrow>
               (case out_last out of
                  None \<Rightarrow> Some (Inr (conns @ cs), w1)
                | Some k \<Rightarrow> query_pages s room (Some k) (conns @ cs) w1)))"

definition QueryByRoom :: "'w conn_store \<Rightarrow> string \<Rightarrow> 'w \<Rightarrow> ((werr + Connection list) \<times> 'w) option" where
  "QueryByRoom s room w = query_pages s room None [] w"

partial_function (option) count_pages ::
  "'w conn_store \<Rightarrow> string \<Rightarrow> item option \<Rightarrow> int \<Rightarrow> 'w \<Rightarrow> ((werr + int) \<times> 'w) option" where
  "count_pages s room start tot w =
     (case Query (cs_client s) (room_query s room start True) w of
        (Inl e, w1) \<Rightarrow> Some (Inl (Wrapf ''count by room'' (Foreign e)), w1)
      | (Inr out, w1) \<Rightarrow>
          (case out_last out of
             None \<Rightarrow> Some (Inr (tot + out_count out), w1)
           | Some k \<Rightarrow> count_pages s room (Some k) (tot + out_count out) w1))"

definition CountByRoom :: "'w conn_store \<Rightarrow> string \<Rightarrow> 'w \<Rightarrow> ((werr + int) \<times> 'w) option" where
  "CountByRoom s room w = count_pages s room None 0 w"

section \<open>Presenter sessions\<close>

record 'w SessionStore =
  ss_client :: "'w ddb"
  ss_tableName :: string

definition token_key :: "string \<Rightarrow> item" where
  "token_key token = [''token'' \<mapsto> AS token]"

definition IsValid :: "'w SessionStore \<Rightarrow> string \<Rightarrow> 'w \<Rightarrow> (werr + bool) \<times> 'w" where
  "IsValid ss token w =
     (if token = [] then (Inr False, w)
      else case GetItem (ss_client ss) (ss_tableName ss) (token_key token) False w of
             (Inl e, w1) \<Rightarrow> (Inl (Wrapf ''get session'' (Foreign e)), w1)
           | (Inr None, w1) \<Rightarrow> (Inr False, w1)
           | (Inr (Some it), w1) \<Rightarrow>
               (case it ''status'' of
                  None \<Rightarrow> (Inr False, w1)
                | Some (AS status) \<Rightarrow> (Inr (status = ''valid''), w1)
                | Some _ \<Rightarrow> (Inr False, w1)))"

record sessionItem =
  Token :: string
  si_Status :: string

record 'w session_store =
  se_client :: "'w ddb"
  se_tableName :: string
  se_marshal :: "sessionItem \<Rightarrow> ext_error + item"

definition session_Create :: "'w session_store \<Rightarrow> string \<Rightarrow> 'w \<Rightarrow> (werr + unit) \<times> 'w" where
  "session_Create s token w =
     (case se_marshal s \<lparr>Token = token, si_Status = ''valid''\<rparr> of
        Inl e \<Rightarrow> (Inl (Wrapf ''marshal session'' (Foreign e)), w)
      | Inr av \<Rightarrow>
          (case PutItem (se_client s) (se_tableName s) av None w of
             (Inl e, w1) \<Rightarrow> (Inl (Wrapf ''put session'' (Foreign e)), w1)
           | (Inr _, w1) \<Rightarrow> (Inr (), w1)))"

section \<open>The current slide\<close>

record room_state =
  st_Room :: string
  st_Page :: int

record 'w state_store =
  rs_client :: "'w ddb"
  rs_tableName :: string
  rs_marshal :: "room_state \<Rightarrow> ext_error + item"
  rs_unmarshal :: "item \<Rightarrow> ext_error + room_state"

definition room_key :: "string \<Rightarrow> item" where
  "room_key room = [''room'' \<mapsto> AS room]"

definition PutState :: "'w state_store \<Rightarrow> string \<Rightarrow> int \<Rightarrow> 'w \<Rightarrow> (werr + unit) \<times> 'w" where
  "PutState s room page w =
     (case rs_marshal s \<lparr>st_Room = room, st_Page = page\<rparr> of
        Inl e \<Rightarrow> (Inl (Wrapf ''marshal state'' (Foreign e)), w)
      | Inr it \<Rightarrow>
          (case PutItem (rs_client s) (rs_tableName s) it None w of
             (Inl e, w1) \<Rightarrow> (Inl (Wrapf ''put state'' (Foreign e)), w1)
           | (Inr _, w1) \<Rightarrow> (Inr (), w1)))"

definition GetState :: "'w state_store \<Rightarrow> string \<Rightarrow> 'w \<Rightarrow> (werr + int) \<times> 'w" where
  "GetState s room w =
     (case GetItem (rs_client s) (rs_tableName s) (room_key room) False w of
        (Inl e, w1) \<Rightarrow> (Inl (Wrapf ''get state'' (Foreign e)), w1)
      | (Inr None, w1) \<Rightarrow> (Inr 0, w1)
      | (Inr (Some it), w1) \<Rightarrow>
          (case rs_unmarshal s it of
             Inl e \<Rightarrow> (Inl (Wrapf ''unmarshal state'' (Foreign e)), w1)
           | Inr state \<Rightarrow> (Inr (st_Page state), w1)))"

section \<open>Delivery\<close>

text \<open>\<open>PostToConnection\<close> is the management API of the WebSocket gateway: connection, payload.\<close>

record 'w Broadcaster =
  PostToConnection :: "string \<Rightarrow> string \<Rightarrow> 'w \<Rightarrow> (ext_error + unit) \<times> 'w"
  querier :: "string \<Rightarrow> 'w \<Rightarrow> ((werr + Connection list) \<times> 'w) option"
  deleter :: "string \<Rightarrow> string \<Rightarrow> 'w \<Rightarrow> (werr + unit) \<times> 'w"

definition isGoneError :: "werr \<Rightarrow> bool" where
  "isGoneError err \<longleftrightarrow> errors_as err = Some (Api_error ''GoneException'')"

text \<open>The message of a failed delivery.\<close>

definition post_failed :: "string \<Rightarrow> ext_error \<Rightarrow> werr" where
  "post_failed connectionID e = Wrapf (''post to connection '' @ connectionID) (Foreign e)"

fun send_loop :: "'w Broadcaster \<Rightarrow> Connection list \<Rightarrow> string \<Rightarrow> string \<Rightarrow> 'w \<Rightarrow> (werr + unit) \<times> 'w" where
  "send_loop b [] payload excludeConnectionID w = (Inr (), w)"
| "send_loop b (conn # conns) payload excludeConnectionID w =
     (if ConnectionID conn = excludeConnectionID then send_loop b conns payload excludeConnectionID w
      else case PostToConnection b (ConnectionID conn) payload w of
             (Inr _, w1) \<Rightarrow> send_loop b conns payload excludeConnectionID w1
           | (Inl e, w1) \<Rightarrow>
               if isGoneError (Foreign e)
               then (let (_, w2) = deleter b (Room conn) (ConnectionID conn) w1 in
                     send_loop b conns payload excludeConnectionID w2)
               else (Inl (post_failed (ConnectionID conn) e), w1))"

definition Send :: "'w Broadcaster \<Rightarrow> string \<Rightarrow> string \<Rightarrow> string \<Rightarrow> 'w \<Rightarrow> ((werr + unit) \<times> 'w) option" where
  "Send b room payload excludeConnectionID w =
     (case querier b room w of
        None \<Rightarrow> None
      | Some (Inl err, w1) \<Rightarrow> Some (Inl (Wrapf ''query connections'' err), w1)
      | Some (Inr conns, w1) \<Rightarrow> Some (send_loop b conns payload excludeConnectionID w1))"

definition SendToOne :: "'w Broadcaster \<Rightarrow> string \<Rightarrow> string \<Rightarrow> string \<Rightarrow> 'w \<Rightarrow> (werr + unit) \<times> 'w" where
  "SendToOne b room connectionID payload w =
     (case PostToConnection b connectionID payload w of
        (Inr _, w1) \<Rightarrow> (Inr (), w1)
      | (Inl e, w1) \<Rightarrow>
          if isGoneError (Foreign e)
          then (let (_, w2) = deleter b room connectionID w1 in (Inr (), w2))
          else (Inl (post_failed connectionID e), w1))"

text \<open>The broadcaster over a connection store, as the handlers build it.\<close>

definition NewBroadcaster ::
  "(string \<Rightarrow> string \<Rightarrow> 'w \<Rightarrow> (ext_error + unit) \<times> 'w) \<Rightarrow> 'w conn_store \<Rightarrow> 'w Broadcaster" where
  "NewBroadcaster post s = \<lparr>PostToConnection = post, querier = QueryByRoom s, deleter = conn_Delete s\<rparr>"

lemma NewBroadcaster_simps [simp]:
  "PostToConnection (NewBroadcaster post s) = post" "querier (NewBroadcaster post s) = QueryByRoom s"
  "deleter (NewBroadcaster post s) = conn_Delete s"
  by (simp_all add: NewBroadcaster_def)
end
