(* ===== verification/Go_Cookies.thy ===== *)
theory Go_Cookies
  imports Go_Strings
begin
text \<open>
  Reading a cookie header with Go's standard library (\<^verbatim>\<open>net/http\<close>'s \<open>Request.Cookie\<close> on a request
  whose only header is one \<^verbatim>\<open>Cookie\<close> line), as the handlers of the presenter use it.
\<close>

section \<open>Reading\<close>

text \<open>\<open>strings.Cut\<close> at a byte: what precedes its first occurrence and what follows it.\<close>

fun str_cut :: "string \<Rightarrow> char \<Rightarrow> string \<times> string" where
  "str_cut [] c = ([], [])"
| "str_cut (x # s) c = (if x = c then ([], s) else (let (a, b) = str_cut s c in (x # a, b)))"

lemma str_cut_length: "length (snd (str_cut s c)) \<le> length s - 1"
  by (induction s) (auto simp: split_beta Let_def)

lemma str_cut_shorter: "s \<noteq> [] \<Longrightarrow> length (snd (str_cut s c)) < length s"
  using str_cut_length [of s c] by (cases s) auto

lemma str_cut_hit [simp]: "c \<notin> set a \<Longrightarrow> str_cut (a @ c # b) c = (a, b)"
  by (induction a) auto

lemma str_cut_miss [simp]: "c \<notin> set a \<Longrightarrow> str_cut a c = (a, [])"
  by (induction a) auto

text \<open>\<open>textproto.TrimString\<close>.\<close>

definition is_ascii_space :: "char \<Rightarrow> bool" where
  "is_ascii_space c \<longleftrightarrow> c \<in> {CHR '' '', CHR 0x09, CHR 0x0A, CHR 0x0D}"

definition TrimString :: "string \<Rightarrow> string" where
  "TrimString s = rev (dropWhile is_ascii_space (rev (dropWhile is_ascii_space s)))"

text \<open>A token of HTTP: not empty, letters, digits and some punctuation.\<close>

definition is_token_char :: "char \<Rightarrow> bool" where
  "is_token_char c \<longleftrightarrow>
     (CHR ''0'' \<le> c \<and> c \<le> CHR ''9'') \<or> (CHR ''A'' \<le> c \<and> c \<le> CHR ''Z'') \<or> (CHR ''a'' \<le> c \<and> c \<le> CHR ''z'') \<or>
     c \<in> set (CHR 0x27 # ''!#$%&*+-.^_`|~'')"

definition isToken :: "string \<Rightarrow> bool" where
  "isToken s \<longleftrightarrow> s \<noteq> [] \<and> list_all is_token_char s"

definition validCookieValueByte :: "char \<Rightarrow> bool" where
  "validCookieValueByte c \<longleftrightarrow>
     CHR '' '' \<le> c \<and> c < CHR 0x7F \<and> c \<noteq> CHR 0x22 \<and> c \<noteq> CHR '';'' \<and> c \<noteq> CHR 0x5C"

text \<open>One pair of double quotes is stripped; \<open>None\<close> for an invalid byte.\<close>

definition parse_cookie_value :: "string \<Rightarrow> string option" where
  "parse_cookie_value raw =
     (let v = (if length raw > 1 \<and> hd raw = CHR 0x22 \<and> last raw = CHR 0x22 then butlast (tl raw) else raw)
      in if list_all validCookieValueByte v then Some v else None)"

text \<open>The value that one part of the line contributes for the name.\<close>

definition cookie_part :: "string \<Rightarrow> string \<Rightarrow> string option" where
  "cookie_part name part =
     (if part = [] then None
      else let (n, v) = str_cut part (CHR ''=''); n' = TrimString n in
        if \<not> isToken n' then None
        else if name \<noteq> [] \<and> name \<noteq> n' then None
        else parse_cookie_value v)"

function cookie_values :: "string \<Rightarrow> string \<Rightarrow> string list" where
  "cookie_values name line =
     (if line = [] then []
      else let (part, rest) = str_cut line (CHR '';'') in
        (case cookie_part name (TrimString part) of
           None \<Rightarrow> cookie_values name rest
         | Some v \<Rightarrow> v # cookie_values name rest))"
  by auto
termination
proof (relation "measure (\<lambda>(name, line). length line)")
  fix name line part rest :: string and x
  assume "line \<noteq> []" "x = str_cut line (CHR '';'')" "(part, rest) = x"
  with str_cut_shorter [of line "CHR '';''"] have "length rest < length line" by (metis snd_conv)
  then show "((name, rest), (name, line)) \<in> measure (\<lambda>(name, line). length line)"
    "((name, rest), (name, line)) \<in> measure (\<lambda>(name, line). length line)" by simp_all
qed simp

declare cookie_values.simps [simp del]

text \<open>A line with more than 3000 cookies is ignored.\<close>

definition cookieMaxNum :: nat where
  "cookieMaxNum = 3000"

definition readCookies :: "string \<Rightarrow> string \<Rightarrow> string list" where
  "readCookies line flt =
     (if Suc (count_list line (CHR '';'')) > cookieMaxNum then [] else cookie_values flt (TrimString line))"

definition Request_Cookie :: "string \<Rightarrow> string \<Rightarrow> string option" where
  "Request_Cookie line name =
     (if name = [] then None
      else case readCookies line name of [] \<Rightarrow> None | v # _ \<Rightarrow> Some v)"

section \<open>A cookie as a browser sends it\<close>

lemma TrimString_id:
  "s = [] \<or> \<not> is_ascii_space (hd s) \<and> \<not> is_ascii_space (last s) \<Longrightarrow> TrimString s = s"
proof -
  assume s: "s = [] \<or> \<not> is_ascii_space (hd s) \<and> \<not> is_ascii_space (last s)"
  have "dropWhile is_ascii_space t = t" if "t = [] \<or> \<not> is_ascii_space (hd t)" for t
    using that by (cases t) auto
  from this [of s] this [of "rev s"] s show ?thesis by (auto simp: TrimString_def hd_rev)
qed

lemma token_no_space: "is_token_char c \<Longrightarrow> \<not> is_ascii_space c"
  by (auto simp: is_token_char_def is_ascii_space_def less_eq_char_def)

lemma TrimString_token: "list_all is_token_char s \<Longrightarrow> TrimString s = s"
  by (rule TrimString_id) (auto simp: list_all_iff dest: token_no_space)

text \<open>A value of token characters comes back as it was sent, when the cookie is the only one.\<close>

lemma is_token_charD: "is_token_char c \<Longrightarrow> c \<noteq> CHR '';'' \<and> c \<noteq> CHR ''='' \<and> validCookieValueByte c"
  by (auto simp: is_token_char_def validCookieValueByte_def less_eq_char_def less_char_def)

lemma cookie_roundtrip:
  assumes n: "isToken name" and v: "isToken v"
  shows "Request_Cookie (name @ ''='' @ v) name = Some v"
proof -
  let ?l = "name @ ''='' @ v"
  from n v have chars: "\<forall>c \<in> set name \<union> set v. is_token_char c" and ne: "name \<noteq> []" "v \<noteq> []"
    by (auto simp: isToken_def list_all_iff)
  then have semi: "CHR '';'' \<notin> set ?l" and eq: "CHR ''='' \<notin> set name"
    by (auto dest: is_token_charD)
  from chars ne have trim: "TrimString ?l = ?l"
    by (intro TrimString_id) (auto dest: token_no_space)
  from chars have val: "list_all validCookieValueByte v"
    by (auto simp: list_all_iff dest: is_token_charD)
  from val ne have "hd v \<noteq> CHR 0x22"
    by (cases v) (auto simp: validCookieValueByte_def)
  with val have pv: "parse_cookie_value v = Some v" by (simp add: parse_cookie_value_def Let_def)
  have "cookie_part name ?l = Some v"
    using n eq ne pv TrimString_token [of name] by (simp add: cookie_part_def isToken_def)
  moreover have "cookie_values name [] = []" by (simp add: cookie_values.simps)
  ultimately have "cookie_values name ?l = [v]"
    using ne semi trim by (subst cookie_values.simps) (simp add: str_cut_miss [of _ ?l])
  moreover have "count_list ?l (CHR '';'') = 0" using semi by (simp add: count_list_0_iff)
  ultimately show ?thesis using ne trim by (simp add: Request_Cookie_def readCookies_def cookieMaxNum_def)
qed

lemma no_cookie [simp]: "Request_Cookie [] name = None"
  by (simp add: Request_Cookie_def readCookies_def TrimString_def cookie_values.simps)

lemma hex_digit_token: "n < 16 \<Longrightarrow> is_token_char (hex_digit n)"
  by (auto simp: hex_digit_def is_token_char_def less_eq_char_def)

lemma hex_token: "bs \<noteq> [] \<Longrightarrow> isToken (hex_encode bs)"
  by (cases bs) (auto simp: isToken_def hex_encode_def list_all_iff less_mult_imp_div_less intro!: hex_digit_token)
end
