(* ===== verification/Presenter_Handlers.thy ===== *)
theory Presenter_Handlers
  imports Ws_Stores Go_Cookies
begin
text \<open>
  The Lambda handlers of the presenter: connecting and disconnecting
  (\<open>presenter/cmd/connect\<close>, \<open>presenter/cmd/disconnect\<close>), messages (\<open>presenter/cmd/message\<close> with
  \<open>presenter/internal/slidesync\<close>, \<open>handson\<close>, \<open>viewercount\<close>) and the login
  (\<open>presenter/cmd/login\<close>).  The JSON codec, bcrypt and the AWS clients are parameters.
\<close>

section \<open>JSON values and requests\<close>

text \<open>What is handed to \<open>jsonMarshal\<close>; a struct is the list of its tagged fields.\<close>

datatype json =
    JStr string
  | JInt int
  | JStrs "string list"
  | JInts "string \<Rightarrow> int option"
  | JObj "(string \<times> json) list"

text \<open>A response of a WebSocket handler is a status code and an error.\<close>

type_synonym response = "int \<times> werr option"

record ws_request =
  rq_ConnectionID :: string
  rq_DomainName :: string
  rq_Stage :: string
  rq_Headers :: "string \<Rightarrow> string"
  rq_Body :: string

text \<open>The group that all WebSocket connections belong to.\<close>

definition default_room :: string where
  "default_room = ''default''"

text \<open>A failed call as a response.\<close>

definition fail :: "string \<Rightarrow> werr \<Rightarrow> response" where
  "fail what err = (500, Some (Wrapf what err))"

definition ok :: response where
  "ok = (200, None)"

section \<open>Slides, instructions, viewer count\<close>

definition slideSyncMessage :: "int \<Rightarrow> json" where
  "slideSyncMessage page = JObj [(''type'', JStr ''slide_sync''), (''page'', JInt page)]"

record 'w slidesync_Handler =
  sl_connGetter :: "string \<Rightarrow> string \<Rightarrow> 'w \<Rightarrow> (werr + Connection) \<times> 'w"
  sl_broadcaster :: "string \<Rightarrow> string \<Rightarrow> string \<Rightarrow> 'w \<Rightarrow> ((werr + unit) \<times> 'w) option"
  sl_stateWriter :: "string \<Rightarrow> int \<Rightarrow> 'w \<Rightarrow> (werr + unit) \<times> 'w"
  sl_jsonMarshal :: "json \<Rightarrow> ext_error + string"

definition slidesync_Handle ::
  "'w slidesync_Handler \<Rightarrow> string \<Rightarrow> string \<Rightarrow> int \<Rightarrow> 'w \<Rightarrow> ((werr + unit) \<times> 'w) option" where
  "slidesync_Handle h room connectionID page w =
     (case sl_connGetter h room connectionID w of
        (Inl err, w1) \<Rightarrow> Some (Inl (Wrapf ''get connection'' err), w1)
      | (Inr conn, w1) \<Rightarrow>
          if Role conn \<noteq> ''presenter'' then Some (Inl (Sentinel Slidesync_ErrNotPresenter), w1)
          else
            (case sl_jsonMarshal h (slideSyncMessage page) of
               Inl e \<Rightarrow> Some (Inl (Wrapf ''marshal slide_sync'' (Foreign e)), w1)
             | Inr payload \<Rightarrow>
                 (case sl_stateWriter h room page w1 of
                    (Inl err, w2) \<Rightarrow> Some (Inl (Wrapf ''save state'' err), w2)
                  | (Inr _, w2) \<Rightarrow>
                      (case sl_broadcaster h room payload connectionID w2 of
                         None \<Rightarrow> None
                       | Some (Inl err, w3) \<Rightarrow> Some (Inl (Wrapf ''broadcast slide_sync'' err), w3)
                       | Some (Inr _, w3) \<Rightarrow> Some (Inr (), w3)))))"

definition handsOnMessage :: "string \<Rightarrow> string \<Rightarrow> json" where
  "handsOnMessage instruction placeholder =
     JObj [(''type'', JStr ''hands_on''), (''instruction'', JStr instruction), (''placeholder'', JStr placeholder)]"

text \<open>The getter may answer without an error and without a connection.\<close>

record 'w handson_Handler =
  ho_connGetter :: "string \<Rightarrow> string \<Rightarrow> 'w \<Rightarrow> (werr + Connection option) \<times> 'w"
  ho_broadcaster :: "string \<Rightarrow> string \<Rightarrow> string \<Rightarrow> 'w \<Rightarrow> ((werr + unit) \<times> 'w) option"
  ho_jsonMarshal :: "json \<Rightarrow> ext_error + string"

definition handson_Handle ::
  "'w handson_Handler \<Rightarrow> string \<Rightarrow> string \<Rightarrow> string \<Rightarrow> string \<Rightarrow> 'w \<Rightarrow> ((werr + unit) \<times> 'w) option" where
  "handson_Handle h room connectionID instruction placeholder w =
     (case ho_connGetter h room connectionID w of
        (Inl err, w1) \<Rightarrow> Some (Inl (Wrapf ''get connection'' err), w1)
      | (Inr None, w1) \<Rightarrow> Some (Inl (New_error ''get connection: nil connection''), w1)
      | (Inr (Some conn), w1) \<Rightarrow>
          if Role conn \<noteq> ''presenter'' then Some (Inl (Sentinel Handson_ErrNotPresenter), w1)
          else
            (case ho_jsonMarshal h (handsOnMessage instruction placeholder) of
               Inl e \<Rightarrow> Some (Inl (Wrapf ''marshal hands_on'' (Foreign e)), w1)
             | Inr payload \<Rightarrow>
                 (case ho_broadcaster h room payload connectionID w1 of
                    None \<Rightarrow> None
                  | Some (Inl err, w2) \<Rightarrow> Some (Inl (Wrapf ''broadcast hands_on'' err), w2)
                  | Some (Inr _, w2) \<Rightarrow> Some (Inr (), w2))))"

definition ViewerCountMessage :: "int \<Rightarrow> json" where
  "ViewerCountMessage count = JObj [(''type'', JStr ''viewer_count''), (''count'', JInt count)]"

record 'w viewercount_Handler =
  vc_counter :: "string \<Rightarrow> 'w \<Rightarrow> ((werr + int) \<times> 'w) option"
  vc_sender :: "string \<Rightarrow> string \<Rightarrow> string \<Rightarrow> 'w \<Rightarrow> (werr + unit) \<times> 'w"
  vc_jsonMarshal :: "json \<Rightarrow> ext_error + string"

definition viewercount_Handle ::
  "'w viewercount_Handler \<Rightarrow> string \<Rightarrow> string \<Rightarrow> 'w \<Rightarrow> ((werr + unit) \<times> 'w) option" where
  "viewercount_Handle h room connectionID w =
     (case vc_counter h room w of
        None \<Rightarrow> None
      | Some (Inl err, w1) \<Rightarrow> Some (Inl (Wrapf ''count connections'' err), w1)
      | Some (Inr count, w1) \<Rightarrow>
          (case vc_jsonMarshal h (ViewerCountMessage count) of
             Inl e \<Rightarrow> Some (Inl (Wrapf ''marshal viewer_count'' (Foreign e)), w1)
           | Inr payload \<Rightarrow>
               (case vc_sender h room connectionID payload w1 of
                  (Inl err, w2) \<Rightarrow> Some (Inl (Wrapf ''send viewer_count'' err), w2)
                | (Inr _, w2) \<Rightarrow> Some (Inr (), w2))))"

section \<open>Connecting and disconnecting\<close>

definition extractCookie :: "string \<Rightarrow> string \<Rightarrow> string" where
  "extractCookie cookieHeader name =
     (case Request_Cookie cookieHeader name of None \<Rightarrow> [] | Some v \<Rightarrow> v)"

definition newAPIGWEndpoint :: "string \<Rightarrow> string \<Rightarrow> string" where
  "newAPIGWEndpoint domainName stage = ''https://'' @ domainName @ ''/'' @ stage"

record 'w connectHandler =
  ch_Put :: "Connection \<Rightarrow> 'w \<Rightarrow> (werr + unit) \<times> 'w"
  ch_CountByRoom :: "string \<Rightarrow> 'w \<Rightarrow> ((werr + int) \<times> 'w) option"
  ch_IsValid :: "string \<Rightarrow> 'w \<Rightarrow> (werr + bool) \<times> 'w"
  ch_newBroadcaster :: "string \<Rightarrow> string \<Rightarrow> 'w Broadcaster"
  ch_jsonMarshal :: "json \<Rightarrow> ext_error + string"

text \<open>Counting the connections and telling the room, the common end of both handlers.\<close>

definition announce_count ::
  "(string \<Rightarrow> 'w \<Rightarrow> ((werr + int) \<times> 'w) option) \<Rightarrow> (json \<Rightarrow> ext_error + string) \<Rightarrow> 'w Broadcaster \<Rightarrow>
   string \<Rightarrow> 'w \<Rightarrow> (response \<times> 'w) option" where
  "announce_count count marshal b exclude w =
     (case count default_room w of
        None \<Rightarrow> None
      | Some (Inl err, w1) \<Rightarrow> Some (fail ''count connections'' err, w1)
      | Some (Inr n, w1) \<Rightarrow>
          (case marshal (ViewerCountMessage n) of
             Inl e \<Rightarrow> Some (fail ''marshal viewer_count'' (Foreign e), w1)
           | Inr payload \<Rightarrow>
               (case Send b default_room payload exclude w1 of
                  None \<Rightarrow> None
                | Some (Inl err, w2) \<Rightarrow> Some (fail ''broadcast viewer_count'' err, w2)
                | Some (Inr _, w2) \<Rightarrow> Some (ok, w2))))"

definition connect_handle :: "'w connectHandler \<Rightarrow> ws_request \<Rightarrow> 'w \<Rightarrow> (response \<times> 'w) option" where
  "connect_handle h req w =
     (let connectionID = rq_ConnectionID req;
          cookieHeader = (if rq_Headers req ''cookie'' = [] then rq_Headers req ''Cookie''
                          else rq_Headers req ''cookie'');
          token = extractCookie cookieHeader ''slide_auth'' in
      case ch_IsValid h token w of
        (Inl err, w1) \<Rightarrow> Some (fail ''validate session'' err, w1)
      | (Inr valid, w1) \<Rightarrow>
          (let role = (if valid then ''presenter'' else ''viewer'');
               conn = \<lparr>Room = default_room, ConnectionID = connectionID, Role = role, conn_TTL = 0\<rparr> in
           case ch_Put h conn w1 of
             (Inl err, w2) \<Rightarrow> Some (fail ''put connection'' err, w2)
           | (Inr _, w2) \<Rightarrow>
               announce_count (ch_CountByRoom h) (ch_jsonMarshal h)
                 (ch_newBroadcaster h (rq_DomainName req) (rq_Stage req)) connectionID w2))"

record 'w disconnectHandler =
  dh_Delete :: "string \<Rightarrow> string \<Rightarrow> 'w \<Rightarrow> (werr + unit) \<times> 'w"
  dh_CountByRoom :: "string \<Rightarrow> 'w \<Rightarrow> ((werr + int) \<times> 'w) option"
  dh_newBroadcaster :: "string \<Rightarrow> string \<Rightarrow> 'w Broadcaster"
  dh_jsonMarshal :: "json \<Rightarrow> ext_error + string"

definition disconnect_handle :: "'w disconnectHandler \<Rightarrow> ws_request \<Rightarrow> 'w \<Rightarrow> (response \<times> 'w) option" where
  "disconnect_handle h req w =
     (case dh_Delete h default_room (rq_ConnectionID req) w of
        (Inl err, w1) \<Rightarrow> Some (fail ''delete connection'' err, w1)
      | (Inr _, w1) \<Rightarrow>
          announce_count (dh_CountByRoom h) (dh_jsonMarshal h)
            (dh_newBroadcaster h (rq_DomainName req) (rq_Stage req)) [] w1)"

section \<open>Messages\<close>

record incomingMessage =
  im_Type :: string
  im_Page :: int
  im_Instruction :: string
  im_Placeholder :: string
  im_PollID :: string
  im_Options :: "string list option"
  im_MaxChoices :: int
  im_Choice :: string
  im_From :: string
  im_To :: string

definition pollStateResponse :: "PollState \<Rightarrow> json" where
  "pollStateResponse st = JObj [(''type'', JStr ''poll_state''), (''pollId'', JStr (ps_PollID st)),
     (''options'', JStrs (ps_Options st)), (''maxChoices'', JInt (ps_MaxChoices st)),
     (''votes'', JInts (ps_Votes st)), (''myChoices'', JStrs (ps_MyChoices st))]"

definition pollErrorResponse :: "string \<Rightarrow> string \<Rightarrow> PollState \<Rightarrow> json" where
  "pollErrorResponse pollID err st = JObj [(''type'', JStr ''poll_error''), (''pollId'', JStr pollID),
     (''error'', JStr err), (''votes'', JInts (ps_Votes st)), (''myChoices'', JStrs (ps_MyChoices st))]"

definition errorResponse :: "string \<Rightarrow> json" where
  "errorResponse err = JObj [(''type'', JStr ''error''), (''error'', JStr err)]"

text \<open>Made per request; \<open>slideSyncResponse\<close> has the fields of \<open>slideSyncMessage\<close>.\<close>

definition slideSyncResponse :: "int \<Rightarrow> json" where
  "slideSyncResponse page = JObj [(''type'', JStr ''slide_sync''), (''page'', JInt page)]"

record 'w handleDeps =
  slideSync :: "string \<Rightarrow> string \<Rightarrow> int \<Rightarrow> 'w \<Rightarrow> ((werr + unit) \<times> 'w) option"
  handsOn :: "string \<Rightarrow> string \<Rightarrow> string \<Rightarrow> string \<Rightarrow> 'w \<Rightarrow> ((werr + unit) \<times> 'w) option"
  viewerCount :: "string \<Rightarrow> string \<Rightarrow> 'w \<Rightarrow> ((werr + unit) \<times> 'w) option"
  broadcaster :: "string \<Rightarrow> string \<Rightarrow> string \<Rightarrow> 'w \<Rightarrow> ((werr + unit) \<times> 'w) option"
  singleSender :: "string \<Rightarrow> string \<Rightarrow> string \<Rightarrow> 'w \<Rightarrow> (werr + unit) \<times> 'w"

text \<open>\<open>jsonMarshal\<close>, \<open>jsonUnmarshal\<close> and \<open>ext_text\<close> (the texts of external errors) stand for
  package variables and library functions, the rest are the fields of the handler.\<close>

record 'w messageHandler =
  pollGet :: "string \<Rightarrow> string \<Rightarrow> string list option \<Rightarrow> int \<Rightarrow> bool \<Rightarrow> 'w \<Rightarrow> (werr + PollState) \<times> 'w"
  pollVote :: "string \<Rightarrow> string \<Rightarrow> string \<Rightarrow> 'w \<Rightarrow> (werr + unit) \<times> 'w"
  pollUnvote :: "string \<Rightarrow> string \<Rightarrow> string \<Rightarrow> 'w \<Rightarrow> (werr + unit) \<times> 'w"
  pollSwitch :: "string \<Rightarrow> string \<Rightarrow> string \<Rightarrow> string \<Rightarrow> 'w \<Rightarrow> (werr + unit) \<times> 'w"
  connGetter :: "string \<Rightarrow> string \<Rightarrow> 'w \<Rightarrow> (werr + Connection) \<times> 'w"
  stateReader :: "string \<Rightarrow> 'w \<Rightarrow> (werr + int) \<times> 'w"
  newDeps :: "string \<Rightarrow> string \<Rightarrow> 'w handleDeps"
  jsonMarshal :: "json \<Rightarrow> ext_error + string"
  jsonUnmarshal :: "string \<Rightarrow> ext_error + incomingMessage"
  ext_text :: "ext_error \<Rightarrow> string"

text \<open>Marshalling a value and sending it to the connection.\<close>

definition send_json ::
  "'w messageHandler \<Rightarrow> string \<Rightarrow> json \<Rightarrow> string \<Rightarrow> 'w handleDeps \<Rightarrow> 'w \<Rightarrow> response \<times> 'w" where
  "send_json h connectionID v what deps w =
     (case jsonMarshal h v of
        Inl e \<Rightarrow> (fail (''marshal '' @ what) (Foreign e), w)
      | Inr payload \<Rightarrow>
          (case singleSender deps default_room connectionID payload w of
             (Inl err, w1) \<Rightarrow> (fail (''send '' @ what) err, w1)
           | (Inr _, w1) \<Rightarrow> (ok, w1)))"

definition sendError ::
  "'w messageHandler \<Rightarrow> string \<Rightarrow> string \<Rightarrow> 'w handleDeps \<Rightarrow> 'w \<Rightarrow> response \<times> 'w" where
  "sendError h connectionID errMsg deps w = send_json h connectionID (errorResponse errMsg) ''error'' deps w"

definition sendPollState ::
  "'w messageHandler \<Rightarrow> string \<Rightarrow> PollState \<Rightarrow> 'w handleDeps \<Rightarrow> 'w \<Rightarrow> response \<times> 'w" where
  "sendPollState h connectionID state deps w =
     send_json h connectionID (pollStateResponse state) ''poll_state'' deps w"

definition broadcastPollState ::
  "'w messageHandler \<Rightarrow> PollState \<Rightarrow> 'w handleDeps \<Rightarrow> 'w \<Rightarrow> (response \<times> 'w) option" where
  "broadcastPollState h state deps w =
     (case jsonMarshal h (pollStateResponse state) of
        Inl e \<Rightarrow> Some (fail ''marshal poll_state'' (Foreign e), w)
      | Inr payload \<Rightarrow>
          (case broadcaster deps default_room payload [] w of
             None \<Rightarrow> None
           | Some (Inl err, w1) \<Rightarrow> Some (fail ''broadcast poll_state'' err, w1)
           | Some (Inr _, w1) \<Rightarrow> Some (ok, w1)))"

definition refreshAndBroadcastPoll ::
  "'w messageHandler \<Rightarrow> string \<Rightarrow> string \<Rightarrow> 'w handleDeps \<Rightarrow> 'w \<Rightarrow> (response \<times> 'w) option" where
  "refreshAndBroadcastPoll h pollID visitorID deps w =
     (case pollGet h pollID visitorID None 0 False w of
        (Inl err, w1) \<Rightarrow> Some (fail ''refresh poll state'' err, w1)
      | (Inr state, w1) \<Rightarrow> broadcastPollState h state deps w1)"

definition isPollBusinessError :: "werr \<Rightarrow> bool" where
  "isPollBusinessError err \<longleftrightarrow>
     errors_is err (Poll_error ErrMaxChoicesExceeded) \<or> errors_is err (Poll_error ErrDuplicateVote) \<or>
     errors_is err (Poll_error ErrVoteNotFound) \<or> errors_is err (Poll_error ErrInvalidChoice) \<or>
     errors_is err (Poll_error ErrPollNotFound)"

definition handlePollError ::
  "'w messageHandler \<Rightarrow> string \<Rightarrow> string \<Rightarrow> string \<Rightarrow> werr \<Rightarrow> 'w handleDeps \<Rightarrow> 'w \<Rightarrow> response \<times> 'w" where
  "handlePollError h connectionID pollID visitorID err deps w =
     (if \<not> isPollBusinessError err then (fail ''poll operation'' err, w)
      else if errors_is err (Poll_error ErrPollNotFound)
      then sendError h connectionID (Error_text (ext_text h) err) deps w
      else case pollGet h pollID visitorID None 0 False w of
             (Inl getErr, w1) \<Rightarrow> (fail ''get poll state for error response'' getErr, w1)
           | (Inr state, w1) \<Rightarrow>
               send_json h connectionID (pollErrorResponse pollID (Error_text (ext_text h) err) state)
                 ''poll_error'' deps w1)"

definition handleSlideSync ::
  "'w messageHandler \<Rightarrow> string \<Rightarrow> incomingMessage \<Rightarrow> 'w handleDeps \<Rightarrow> 'w \<Rightarrow> (response \<times> 'w) option" where
  "handleSlideSync h connectionID msg deps w =
     (case slideSync deps default_room connectionID (im_Page msg) w of
        None \<Rightarrow> None
      | Some (Inl err, w1) \<Rightarrow> Some (sendError h connectionID (Error_text (ext_text h) err) deps w1)
      | Some (Inr _, w1) \<Rightarrow> Some (ok, w1))"

definition handleHandsOn ::
  "'w messageHandler \<Rightarrow> string \<Rightarrow> incomingMessage \<Rightarrow> 'w handleDeps \<Rightarrow> 'w \<Rightarrow> (response \<times> 'w) option" where
  "handleHandsOn h connectionID msg deps w =
     (case handsOn deps default_room connectionID (im_Instruction msg) (im_Placeholder msg) w of
        None \<Rightarrow> None
      | Some (Inl err, w1) \<Rightarrow> Some (sendError h connectionID (Error_text (ext_text h) err) deps w1)
      | Some (Inr _, w1) \<Rightarrow> Some (ok, w1))"

definition handleViewerCount ::
  "'w messageHandler \<Rightarrow> string \<Rightarrow> 'w handleDeps \<Rightarrow> 'w \<Rightarrow> (response \<times> 'w) option" where
  "handleViewerCount h connectionID deps w =
     (case viewerCount deps default_room connectionID w of
        None \<Rightarrow> None
      | Some (Inl err, w1) \<Rightarrow> Some (fail ''viewer_count'' err, w1)
      | Some (Inr _, w1) \<Rightarrow> Some (ok, w1))"

definition handleGetState ::
  "'w messageHandler \<Rightarrow> string \<Rightarrow> 'w handleDeps \<Rightarrow> 'w \<Rightarrow> response \<times> 'w" where
  "handleGetState h connectionID deps w =
     (case stateReader h default_room w of
        (Inl err, w1) \<Rightarrow> (fail ''get state'' err, w1)
      | (Inr page, w1) \<Rightarrow> send_json h connectionID (slideSyncResponse page) ''slide_sync'' deps w1)"

definition handlePollOpen ::
  "'w messageHandler \<Rightarrow> string \<Rightarrow> incomingMessage \<Rightarrow> 'w handleDeps \<Rightarrow> 'w \<Rightarrow> (response \<times> 'w) option" where
  "handlePollOpen h connectionID msg deps w =
     (if im_PollID msg = [] \<or> im_Options msg = None \<or> im_Options msg = Some [] \<or> im_MaxChoices msg = 0
      then Some (sendError h connectionID ''pollId, options, and maxChoices are required'' deps w)
      else case connGetter h default_room connectionID w of
             (Inl err, w1) \<Rightarrow> Some (fail ''get connection'' err, w1)
           | (Inr conn, w1) \<Rightarrow>
               if Role conn \<noteq> ''presenter''
               then Some (sendError h connectionID ''only presenter can open a poll'' deps w1)
               else
                 (case pollGet h (im_PollID msg) connectionID (im_Options msg) (im_MaxChoices msg) True w1 of
                    (Inl err, w2) \<Rightarrow> Some (fail ''poll_open'' err, w2)
                  | (Inr state, w2) \<Rightarrow> broadcastPollState h state deps w2))"

definition handlePollGet ::
  "'w messageHandler \<Rightarrow> string \<Rightarrow> incomingMessage \<Rightarrow> 'w handleDeps \<Rightarrow> 'w \<Rightarrow> response \<times> 'w" where
  "handlePollGet h connectionID msg deps w =
     (if im_PollID msg = [] then sendError h connectionID ''pollId is required'' deps w
      else case connGetter h default_room connectionID w of
             (Inl err, w1) \<Rightarrow> (fail ''get connection'' err, w1)
           | (Inr conn, w1) \<Rightarrow>
               (let isPresenter = (Role conn = ''presenter'') in
                case pollGet h (im_PollID msg) connectionID (im_Options msg) (im_MaxChoices msg) isPresenter w1 of
                  (Inl err, w2) \<Rightarrow>
                    if isPollBusinessError err
                    then sendError h connectionID (Error_text (ext_text h) err) deps w2
                    else (fail ''poll_get'' err, w2)
                | (Inr state, w2) \<Rightarrow> sendPollState h connectionID state deps w2))"

definition handlePollVote ::
  "'w messageHandler \<Rightarrow> string \<Rightarrow> incomingMessage \<Rightarrow> 'w handleDeps \<Rightarrow> 'w \<Rightarrow> (response \<times> 'w) option" where
  "handlePollVote h connectionID msg deps w =
     (if im_PollID msg = [] \<or> im_Choice msg = []
      then Some (sendError h connectionID ''pollId and choice are required'' deps w)
      else case pollVote h (im_PollID msg) connectionID (im_Choice msg) w of
             (Inl err, w1) \<Rightarrow> Some (handlePollError h connectionID (im_PollID msg) connectionID err deps w1)
           | (Inr _, w1) \<Rightarrow> refreshAndBroadcastPoll h (im_PollID msg) connectionID deps w1)"

definition handlePollUnvote ::
  "'w messageHandler \<Rightarrow> string \<Rightarrow> incomingMessage \<Rightarrow> 'w handleDeps \<Rightarrow> 'w \<Rightarrow> (response \<times> 'w) option" where
  "handlePollUnvote h connectionID msg deps w =
     (if im_PollID msg = [] \<or> im_Choice msg = []
      then Some (sendError h connectionID ''pollId and choice are required'' deps w)
      else case pollUnvote h (im_PollID msg) connectionID (im_Choice msg) w of
             (Inl err, w1) \<Rightarrow> Some (handlePollError h connectionID (im_PollID msg) connectionID err deps w1)
           | (Inr _, w1) \<Rightarrow> refreshAndBroadcastPoll h (im_PollID msg) connectionID deps w1)"

definition handlePollSwitch ::
  "'w messageHandler \<Rightarrow> string \<Rightarrow> incomingMessage \<Rightarrow> 'w handleDeps \<Rightarrow> 'w \<Rightarrow> (response \<times> 'w) option" where
  "handlePollSwitch h connectionID msg deps w =
     (if im_PollID msg = [] \<or> im_From msg = [] \<or> im_To msg = []
      then Some (sendError h connectionID ''pollId, from, and to are required'' deps w)
      else if im_From msg = im_To msg
      then Some (sendError h connectionID ''from and to must be different'' deps w)
      else case pollSwitch h (im_PollID msg) connectionID (im_From msg) (im_To msg) w of
             (Inl err, w1) \<Rightarrow> Some (handlePollError h connectionID (im_PollID msg) connectionID err deps w1)
           | (Inr _, w1) \<Rightarrow> refreshAndBroadcastPoll h (im_PollID msg) connectionID deps w1)"

definition dispatch ::
  "'w messageHandler \<Rightarrow> string \<Rightarrow> incomingMessage \<Rightarrow> 'w handleDeps \<Rightarrow> 'w \<Rightarrow> (response \<times> 'w) option" where
  "dispatch h connectionID msg deps w =
     (if im_Type msg = ''slide_sync'' then handleSlideSync h connectionID msg deps w
      else if im_Type msg = ''hands_on'' then handleHandsOn h connectionID msg deps w
      else if im_Type msg = ''viewer_count'' then handleViewerCount h connectionID deps w
      else if im_Type msg = ''get_state'' then Some (handleGetState h connectionID deps w)
      else if im_Type msg = ''poll_open'' then handlePollOpen h connectionID msg deps w
      else if im_Type msg = ''poll_get'' then Some (handlePollGet h connectionID msg deps w)
      else if im_Type msg = ''poll_vote'' then handlePollVote h connectionID msg deps w
      else if im_Type msg = ''poll_unvote'' then handlePollUnvote h connectionID msg deps w
      else if im_Type msg = ''poll_switch'' then handlePollSwitch h connectionID msg deps w
      else Some (sendError h connectionID ''unknown message type'' deps w))"

definition message_handle :: "'w messageHandler \<Rightarrow> ws_request \<Rightarrow> 'w \<Rightarrow> (response \<times> 'w) option" where
  "message_handle h req w =
     (let deps = newDeps h (rq_DomainName req) (rq_Stage req) in
      case jsonUnmarshal h (rq_Body req) of
        Inl e \<Rightarrow> Some ((400, Some (Wrapf ''unmarshal body'' (Foreign e))), w)
      | Inr msg \<Rightarrow> dispatch h (rq_ConnectionID req) msg deps w)"
end
