(* ===== verification/Presenter_Wiring.thy ===== *)
theory Presenter_Wiring
  imports Presenter_Handlers
begin
text \<open>
  The login endpoint (\<open>presenter/cmd/login\<close>) and how the four Lambda functions put their handlers
  together (\<open>run\<close> in each \<open>presenter/cmd/*/main.go\<close>).
\<close>

section \<open>Login\<close>

record http_request =
  hr_Method :: string
  hr_Body :: string
  hr_Cookies :: "string list"

record http_response =
  StatusCode :: int
  Headers :: "string \<Rightarrow> string option"
  Body :: string
  Cookies :: "string list"

text \<open>What \<^verbatim>\<open>bcrypt.CompareHashAndPassword\<close> answers.\<close>

datatype hash_answer = Hash_ok | Hash_mismatch | Hash_error ext_error

text \<open>The package variables; \<open>GetSecretValue\<close> answers the secret string, \<open>None\<close> for a nil pointer;
  \<open>jsonUnmarshalLogin\<close> is the password of a request body.\<close>

record 'w login_vars =
  secretGetter :: "string \<Rightarrow> 'w \<Rightarrow> (ext_error + string option) \<times> 'w"
  secretARN :: string
  sessCreator :: "string \<Rightarrow> 'w \<Rightarrow> (werr + unit) \<times> 'w"
  sessValidator :: "string \<Rightarrow> 'w \<Rightarrow> (werr + bool) \<times> 'w"
  tokenFn :: "'w \<Rightarrow> (werr + string) \<times> 'w"
  compareHashFn :: "string \<Rightarrow> string \<Rightarrow> hash_answer"
  lg_jsonMarshal :: "json \<Rightarrow> ext_error + string"
  jsonUnmarshalLogin :: "string \<Rightarrow> ext_error + string"

text \<open>\<open>read_full n\<close> is \<^verbatim>\<open>io.ReadFull\<close> of n bytes from the random source.\<close>

definition generateToken :: "(nat \<Rightarrow> 'w \<Rightarrow> (ext_error + string) \<times> 'w) \<Rightarrow> 'w \<Rightarrow> (werr + string) \<times> 'w" where
  "generateToken read_full w =
     (case read_full 32 w of
        (Inl e, w1) \<Rightarrow> (Inl (Wrapf ''generate token'' (Foreign e)), w1)
      | (Inr b, w1) \<Rightarrow> (Inr (hex_encode b), w1))"

definition parseCookieValue :: "string \<Rightarrow> string \<Rightarrow> string" where
  "parseCookieValue cookieHeader name =
     (case Request_Cookie cookieHeader name of None \<Rightarrow> [] | Some v \<Rightarrow> v)"

fun first_cookie :: "string list \<Rightarrow> string \<Rightarrow> string" where
  "first_cookie [] name = []"
| "first_cookie (raw # raws) name =
     (let v = parseCookieValue raw name in if v \<noteq> [] then v else first_cookie raws name)"

definition requestCookieValue :: "http_request \<Rightarrow> string \<Rightarrow> string" where
  "requestCookieValue req name = first_cookie (hr_Cookies req) name"

definition respond :: "int \<Rightarrow> (string \<Rightarrow> string option) \<Rightarrow> string \<Rightarrow> http_response" where
  "respond code hs body = \<lparr>StatusCode = code, Headers = hs, Body = body, Cookies = []\<rparr>"

definition json_error :: "string \<Rightarrow> string" where
  "json_error msg = CHR 0x7B # CHR 0x22 # ''error'' @ [CHR 0x22, CHR '':'', CHR 0x22] @ msg @ [CHR 0x22, CHR 0x7D]"

definition get_headers :: "string \<Rightarrow> string option" where
  "get_headers = [''Content-Type'' \<mapsto> ''application/json'', ''Cache-Control'' \<mapsto> ''no-store'', ''Vary'' \<mapsto> ''Cookie'']"

definition handleGet :: "'w login_vars \<Rightarrow> http_request \<Rightarrow> 'w \<Rightarrow> http_response \<times> 'w" where
  "handleGet v req w =
     (let token = requestCookieValue req ''slide_auth'' in
      if token = [] then (respond 401 get_headers (json_error ''unauthorized''), w)
      else case sessValidator v token w of
             (Inl err, w1) \<Rightarrow> (respond 500 get_headers (json_error ''internal server error''), w1)
           | (Inr valid, w1) \<Rightarrow>
               if \<not> valid then (respond 401 get_headers (json_error ''unauthorized''), w1)
               else
                 (case lg_jsonMarshal v (JObj [(''status'', JStr ''authenticated'')]) of
                    Inl e \<Rightarrow> (respond 500 get_headers (json_error ''internal server error''), w1)
                  | Inr body \<Rightarrow> (respond 200 get_headers body, w1)))"

definition auth_cookie :: "string \<Rightarrow> string" where
  "auth_cookie token = ''slide_auth='' @ token @ ''; HttpOnly; Secure; SameSite=Strict; Path=/''"

definition handlePost :: "'w login_vars \<Rightarrow> http_request \<Rightarrow> 'w \<Rightarrow> http_response \<times> 'w" where
  "handlePost v req w =
     (let internal = respond 500 Map.empty (json_error ''internal server error'') in
      case jsonUnmarshalLogin v (hr_Body req) of
        Inl e \<Rightarrow> (respond 400 Map.empty (json_error ''invalid request body''), w)
      | Inr password \<Rightarrow>
          (case secretGetter v (secretARN v) w of
             (Inl e, w1) \<Rightarrow> (internal, w1)
           | (Inr None, w1) \<Rightarrow> (internal, w1)
           | (Inr (Some hash), w1) \<Rightarrow>
               if hash = [] then (internal, w1)
               else
                 (case compareHashFn v hash password of
                    Hash_mismatch \<Rightarrow> (respond 401 Map.empty (json_error ''unauthorized''), w1)
                  | Hash_error e \<Rightarrow> (internal, w1)
                  | Hash_ok \<Rightarrow>
                      (case tokenFn v w1 of
                         (Inl err, w2) \<Rightarrow> (internal, w2)
                       | (Inr token, w2) \<Rightarrow>
                           (case sessCreator v token w2 of
                              (Inl err, w3) \<Rightarrow> (internal, w3)
                            | (Inr _, w3) \<Rightarrow>
                                (\<lparr>StatusCode = 302, Headers = [''Location'' \<mapsto> ''/''], Body = [],
                                  Cookies = [auth_cookie token]\<rparr>, w3))))))"

definition login_handler :: "'w login_vars \<Rightarrow> http_request \<Rightarrow> 'w \<Rightarrow> http_response \<times> 'w" where
  "login_handler v req w =
     (if hr_Method req = ''GET'' then handleGet v req w
      else if hr_Method req = ''POST'' then handlePost v req w
      else (respond 405 Map.empty (json_error ''method not allowed''), w))"

section \<open>The functions' start\<close>

text \<open>
  The environment of a Lambda function: the AWS configuration, environment variables (empty if not
  set), the clients made from the configuration, the clock, the codecs and the library functions.
\<close>

record ('cfg, 'w) platform =
  loadConfig :: "'w \<Rightarrow> (ext_error + 'cfg) \<times> 'w"
  Getenv :: "string \<Rightarrow> string"
  dynamodb_NewFromConfig :: "'cfg \<Rightarrow> 'w ddb"
  apigw_NewFromConfig :: "'cfg \<Rightarrow> string \<Rightarrow> string \<Rightarrow> string \<Rightarrow> 'w \<Rightarrow> (ext_error + unit) \<times> 'w"
  secrets_NewFromConfig :: "'cfg \<Rightarrow> string \<Rightarrow> 'w \<Rightarrow> (ext_error + string option) \<times> 'w"
  Now_Unix :: "'w \<Rightarrow> int \<times> 'w"
  MarshalConn :: "Connection \<Rightarrow> ext_error + item"
  UnmarshalConn :: "item \<Rightarrow> ext_error + Connection"
  MarshalMeta :: "metaRecord \<Rightarrow> ext_error + item"
  UnmarshalMeta :: "item \<Rightarrow> ext_error + metaRecord"
  MarshalRoom :: "room_state \<Rightarrow> ext_error + item"
  UnmarshalRoom :: "item \<Rightarrow> ext_error + room_state"
  MarshalSession :: "sessionItem \<Rightarrow> ext_error + item"
  json_Marshal :: "json \<Rightarrow> ext_error + string"
  json_Unmarshal :: "string \<Rightarrow> ext_error + incomingMessage"
  json_Unmarshal_login :: "string \<Rightarrow> ext_error + string"
  ext_Error :: "ext_error \<Rightarrow> string"
  rand_ReadFull :: "nat \<Rightarrow> 'w \<Rightarrow> (ext_error + string) \<times> 'w"
  bcrypt_Compare :: "string \<Rightarrow> string \<Rightarrow> hash_answer"

text \<open>The constructors of the stores.\<close>

definition connection_NewStore :: "('cfg, 'w) platform \<Rightarrow> 'w ddb \<Rightarrow> string \<Rightarrow> 'w conn_store" where
  "connection_NewStore P c T = \<lparr>cs_client = c, cs_tableName = T, cs_now_Unix = Now_Unix P,
     cs_marshal = MarshalConn P, cs_unmarshal = UnmarshalConn P\<rparr>"

definition connection_NewSessionStore :: "'w ddb \<Rightarrow> string \<Rightarrow> 'w SessionStore" where
  "connection_NewSessionStore c T = \<lparr>ss_client = c, ss_tableName = T\<rparr>"

definition roomstate_NewStore :: "('cfg, 'w) platform \<Rightarrow> 'w ddb \<Rightarrow> string \<Rightarrow> 'w state_store" where
  "roomstate_NewStore P c T = \<lparr>rs_client = c, rs_tableName = T, rs_marshal = MarshalRoom P,
     rs_unmarshal = UnmarshalRoom P\<rparr>"

definition session_NewStore :: "('cfg, 'w) platform \<Rightarrow> 'w ddb \<Rightarrow> string \<Rightarrow> 'w session_store" where
  "session_NewStore P c T = \<lparr>se_client = c, se_tableName = T, se_marshal = MarshalSession P\<rparr>"

text \<open>\<open>None\<close> is the panic on an empty table name.\<close>

definition poll_NewStore :: "('cfg, 'w) platform \<Rightarrow> 'w ddb \<Rightarrow> string \<Rightarrow> 'w Store option" where
  "poll_NewStore P c T =
     (if T = [] then None
      else Some \<lparr>client = c, tableName = T, now_Unix = Now_Unix P, marshalMapFn = MarshalMeta P,
                 unmarshalMeta = UnmarshalMeta P\<rparr>)"

definition slidesync_NewHandler ::
  "(json \<Rightarrow> ext_error + string) \<Rightarrow> 'w conn_store \<Rightarrow> 'w Broadcaster \<Rightarrow> 'w state_store \<Rightarrow> 'w slidesync_Handler" where
  "slidesync_NewHandler marshal s b rs = \<lparr>sl_connGetter = conn_Get s, sl_broadcaster = Send b,
     sl_stateWriter = PutState rs, sl_jsonMarshal = marshal\<rparr>"

definition handson_NewHandler ::
  "(json \<Rightarrow> ext_error + string) \<Rightarrow> 'w conn_store \<Rightarrow> 'w Broadcaster \<Rightarrow> 'w handson_Handler" where
  "handson_NewHandler marshal s b =
     \<lparr>ho_connGetter = (\<lambda>room i w. apfst (map_sum id Some) (conn_Get s room i w)), ho_broadcaster = Send b,
      ho_jsonMarshal = marshal\<rparr>"

text \<open>The adapter ignores the room of its argument.\<close>

definition viewerCountAdapter_SendToOne ::
  "'w Broadcaster \<Rightarrow> string \<Rightarrow> string \<Rightarrow> string \<Rightarrow> 'w \<Rightarrow> (werr + unit) \<times> 'w" where
  "viewerCountAdapter_SendToOne b room connectionID payload w =
     SendToOne b default_room connectionID payload w"

definition viewercount_NewHandler ::
  "(json \<Rightarrow> ext_error + string) \<Rightarrow> 'w conn_store \<Rightarrow> 'w Broadcaster \<Rightarrow> 'w viewercount_Handler" where
  "viewercount_NewHandler marshal s b = \<lparr>vc_counter = CountByRoom s,
     vc_sender = viewerCountAdapter_SendToOne b, vc_jsonMarshal = marshal\<rparr>"

definition newHandleDeps ::
  "(json \<Rightarrow> ext_error + string) \<Rightarrow> (string \<Rightarrow> string \<Rightarrow> string \<Rightarrow> 'w \<Rightarrow> (ext_error + unit) \<times> 'w) \<Rightarrow>
   'w conn_store \<Rightarrow> 'w state_store \<Rightarrow> string \<Rightarrow> string \<Rightarrow> 'w handleDeps" where
  "newHandleDeps marshal apigw s rs domainName stage =
     (let b = NewBroadcaster (apigw (newAPIGWEndpoint domainName stage)) s in
      \<lparr>slideSync = slidesync_Handle (slidesync_NewHandler marshal s b rs),
       handsOn = handson_Handle (handson_NewHandler marshal s b),
       viewerCount = viewercount_Handle (viewercount_NewHandler marshal s b),
       broadcaster = Send b, singleSender = SendToOne b\<rparr>)"

text \<open>A poll operation, with its errors among those of the handlers.\<close>

definition poll_call :: "(perr + 'a) \<times> 'w \<Rightarrow> (werr + 'a) \<times> 'w" where
  "poll_call = apfst (map_sum (map_go_error Poll_error) id)"

definition new_messageHandler ::
  "('cfg, 'w) platform \<Rightarrow> 'cfg \<Rightarrow> 'w conn_store \<Rightarrow> 'w Store \<Rightarrow> 'w state_store \<Rightarrow> 'w messageHandler" where
  "new_messageHandler P cfg s ps rs =
     \<lparr>pollGet = (\<lambda>p v opts m b w. poll_call (Get ps p v opts m b w)),
      pollVote = (\<lambda>p v c w. poll_call (Vote ps p v c w)),
      pollUnvote = (\<lambda>p v c w. poll_call (Unvote ps p v c w)),
      pollSwitch = (\<lambda>p v a b w. poll_call (Switch ps p v a b w)),
      connGetter = conn_Get s, stateReader = GetState rs,
      newDeps = newHandleDeps (json_Marshal P) (apigw_NewFromConfig P cfg) s rs,
      jsonMarshal = json_Marshal P, jsonUnmarshal = json_Unmarshal P, ext_text = ext_Error P\<rparr>"

definition missing_env :: "string \<Rightarrow> werr" where
  "missing_env name = New_error (name @ '' environment variable is required'')"

text \<open>Each \<open>run\<close> answers the handler it hands to \<^verbatim>\<open>startLambda\<close>, or its error; \<open>None\<close> is a panic.\<close>

definition message_run :: "('cfg, 'w) platform \<Rightarrow> 'w \<Rightarrow> ((werr + 'w messageHandler) \<times> 'w) option" where
  "message_run P w =
     (case loadConfig P w of
        (Inl e, w1) \<Rightarrow> Some (Inl (Wrapf ''load aws config'' (Foreign e)), w1)
      | (Inr cfg, w1) \<Rightarrow>
          (let ddbClient = dynamodb_NewFromConfig P cfg;
               connTable = Getenv P ''CONNECTIONS_TABLE'';
               pollTable = Getenv P ''POLL_VOTES_TABLE'';
               stateTable = Getenv P ''ROOM_STATE_TABLE'' in
           if connTable = [] then Some (Inl (missing_env ''CONNECTIONS_TABLE''), w1)
           else if pollTable = [] then Some (Inl (missing_env ''POLL_VOTES_TABLE''), w1)
           else if stateTable = [] then Some (Inl (missing_env ''ROOM_STATE_TABLE''), w1)
           else
             (let connStore = connection_NewStore P ddbClient connTable in
              case poll_NewStore P ddbClient pollTable of
                None \<Rightarrow> None
              | Some pollStore \<Rightarrow>
                  (let stateStore = roomstate_NewStore P ddbClient stateTable in
                   Some (Inr (new_messageHandler P cfg connStore pollStore stateStore), w1)))))"

definition connect_newAPIGWEndpoint :: "string \<Rightarrow> string \<Rightarrow> string" where
  "connect_newAPIGWEndpoint domainName stage = ''https://'' @ domainName @ ''/'' @ stage"

definition connect_newBroadcasterFactory ::
  "('cfg, 'w) platform \<Rightarrow> 'cfg \<Rightarrow> 'w conn_store \<Rightarrow> string \<Rightarrow> string \<Rightarrow> 'w Broadcaster" where
  "connect_newBroadcasterFactory P cfg s domainName stage =
     (let endpoint = connect_newAPIGWEndpoint domainName stage in NewBroadcaster (apigw_NewFromConfig P cfg endpoint) s)"

definition new_connectHandler ::
  "('cfg, 'w) platform \<Rightarrow> 'cfg \<Rightarrow> 'w conn_store \<Rightarrow> 'w SessionStore \<Rightarrow> 'w connectHandler" where
  "new_connectHandler P cfg s ss =
     \<lparr>ch_Put = conn_Put s, ch_CountByRoom = CountByRoom s, ch_IsValid = IsValid ss,
      ch_newBroadcaster = connect_newBroadcasterFactory P cfg s,
      ch_jsonMarshal = json_Marshal P\<rparr>"

definition connect_run :: "('cfg, 'w) platform \<Rightarrow> 'w \<Rightarrow> (werr + 'w connectHandler) \<times> 'w" where
  "connect_run P w =
     (case loadConfig P w of
        (Inl e, w1) \<Rightarrow> (Inl (Wrapf ''load aws config'' (Foreign e)), w1)
      | (Inr cfg, w1) \<Rightarrow>
          (let ddbClient = dynamodb_NewFromConfig P cfg;
               connTable = Getenv P ''CONNECTIONS_TABLE''; sessTable = Getenv P ''SESSIONS_TABLE'' in
           if connTable = [] then (Inl (missing_env ''CONNECTIONS_TABLE''), w1)
           else if sessTable = [] then (Inl (missing_env ''SESSIONS_TABLE''), w1)
           else (Inr (new_connectHandler P cfg (connection_NewStore P ddbClient connTable)
                   (connection_NewSessionStore ddbClient sessTable)), w1)))"

definition disconnect_newAPIGWEndpoint :: "string \<Rightarrow> string \<Rightarrow> string" where
  "disconnect_newAPIGWEndpoint domainName stage = ''https://'' @ domainName @ ''/'' @ stage"

definition disconnect_newBroadcasterFactory ::
  "('cfg, 'w) platform \<Rightarrow> 'cfg \<Rightarrow> 'w conn_store \<Rightarrow> string \<Rightarrow> string \<Rightarrow> 'w Broadcaster" where
  "disconnect_newBroadcasterFactory P cfg s domainName stage =
     (let endpoint = disconnect_newAPIGWEndpoint domainName stage in NewBroadcaster (apigw_NewFromConfig P cfg endpoint) s)"

definition new_disconnectHandler ::
  "('cfg, 'w) platform \<Rightarrow> 'cfg \<Rightarrow> 'w conn_store \<Rightarrow> 'w disconnectHandler" where
  "new_disconnectHandler P cfg s =
     \<lparr>dh_Delete = conn_Delete s, dh_CountByRoom = CountByRoom s,
      dh_newBroadcaster = disconnect_newBroadcasterFactory P cfg s,
      dh_jsonMarshal = json_Marshal P\<rparr>"

definition disconnect_run :: "('cfg, 'w) platform \<Rightarrow> 'w \<Rightarrow> (werr + 'w disconnectHandler) \<times> 'w" where
  "disconnect_run P w =
     (case loadConfig P w of
        (Inl e, w1) \<Rightarrow> (Inl (Wrapf ''load aws config'' (Foreign e)), w1)
      | (Inr cfg, w1) \<Rightarrow>
          (let ddbClient = dynamodb_NewFromConfig P cfg; connTable = Getenv P ''CONNECTIONS_TABLE'' in
           if connTable = [] then (Inl (missing_env ''CONNECTIONS_TABLE''), w1)
           else (Inr (new_disconnectHandler P cfg (connection_NewStore P ddbClient connTable)), w1)))"

definition new_login ::
  "('cfg, 'w) platform \<Rightarrow> 'cfg \<Rightarrow> string \<Rightarrow> 'w ddb \<Rightarrow> string \<Rightarrow> 'w login_vars" where
  "new_login P cfg arn c sessionsTable =
     \<lparr>secretGetter = secrets_NewFromConfig P cfg, secretARN = arn,
      sessCreator = session_Create (session_NewStore P c sessionsTable),
      sessValidator = IsValid (connection_NewSessionStore c sessionsTable),
      tokenFn = generateToken (rand_ReadFull P), compareHashFn = bcrypt_Compare P,
      lg_jsonMarshal = json_Marshal P, jsonUnmarshalLogin = json_Unmarshal_login P\<rparr>"

definition login_run :: "('cfg, 'w) platform \<Rightarrow> 'w \<Rightarrow> (werr + 'w login_vars) \<times> 'w" where
  "login_run P w =
     (case loadConfig P w of
        (Inl e, w1) \<Rightarrow> (Inl (Wrapf ''load aws config'' (Foreign e)), w1)
      | (Inr cfg, w1) \<Rightarrow>
          (let sessionsTable = Getenv P ''SESSIONS_TABLE''; arn = Getenv P ''SECRET_ARN'' in
           if sessionsTable = [] then (Inl (missing_env ''SESSIONS_TABLE''), w1)
           else if arn = [] then (Inl (missing_env ''SECRET_ARN''), w1)
           else (Inr (new_login P cfg arn (dynamodb_NewFromConfig P cfg) sessionsTable), w1)))"

text \<open>How the entry points end: with the handler handed to the Lambda runtime, or by \<^verbatim>\<open>fatalf\<close> with its message.\<close>

datatype 'h main_end = Serving 'h | Fatal string

fun main_of :: "string \<Rightarrow> (ext_error \<Rightarrow> string) \<Rightarrow> werr + 'h \<Rightarrow> 'h main_end" where
  "main_of name ext (Inr h) = Serving h"
| "main_of name ext (Inl err) = Fatal (name @ '': '' @ Error_text ext err)"

definition message_main :: "('cfg, 'w) platform \<Rightarrow> 'w \<Rightarrow> ('w messageHandler main_end \<times> 'w) option" where
  "message_main P w = map_option (apfst (main_of ''message'' (ext_Error P))) (message_run P w)"

definition connect_main :: "('cfg, 'w) platform \<Rightarrow> 'w \<Rightarrow> 'w connectHandler main_end \<times> 'w" where
  "connect_main P w = apfst (main_of ''connect'' (ext_Error P)) (connect_run P w)"

definition disconnect_main :: "('cfg, 'w) platform \<Rightarrow> 'w \<Rightarrow> 'w disconnectHandler main_end \<times> 'w" where
  "disconnect_main P w = apfst (main_of ''disconnect'' (ext_Error P)) (disconnect_run P w)"

definition login_main :: "('cfg, 'w) platform \<Rightarrow> 'w \<Rightarrow> 'w login_vars main_end \<times> 'w" where
  "login_main P w = apfst (main_of ''login'' (ext_Error P)) (login_run P w)"

text \<open>The three functions address the gateway in the same way.\<close>

lemma factory_simps [simp]:
  "connect_newBroadcasterFactory P cfg s d st = NewBroadcaster (apigw_NewFromConfig P cfg (newAPIGWEndpoint d st)) s"
  "disconnect_newBroadcasterFactory P cfg s d st = NewBroadcaster (apigw_NewFromConfig P cfg (newAPIGWEndpoint d st)) s"
  by (simp_all add: connect_newBroadcasterFactory_def connect_newAPIGWEndpoint_def disconnect_newBroadcasterFactory_def
      disconnect_newAPIGWEndpoint_def newAPIGWEndpoint_def)
end
