(* ===== verification/Ws_Contract.thy ===== *)
theory Ws_Contract
  imports Ws_Stores
begin
text \<open>
  What the presenter's stores rely on and what they give: the table of connections over a
  DynamoDB client, the pages of a room, and the delivery of a message to a room.
\<close>

section \<open>Paging\<close>

text \<open>The exclusive start key points at the last of the items seen so far.\<close>

definition cursor :: "string list \<Rightarrow> item option \<Rightarrow> item list \<Rightarrow> bool" where
  "cursor ks start pre \<longleftrightarrow>
     (case start of None \<Rightarrow> pre = [] | Some k \<Rightarrow> pre \<noteq> [] \<and> key_of ks (last pre) = key_of ks k)"

lemma split_unique:
  assumes "distinct (map f (pre @ rest))" and "pre @ rest = pre' @ rest'"
    and "pre \<noteq> []" "pre' \<noteq> []" "f (last pre) = f (last pre')"
  shows "pre' = pre"
proof -
  let ?xs = "map f (pre @ rest)"
  have "?xs ! (length pre - 1) = f (last pre)"
    using assms(3) by (simp add: nth_append last_conv_nth)
  moreover have "?xs ! (length pre' - 1) = f (last pre')"
    unfolding assms(2) using assms(4) by (simp add: nth_append last_conv_nth)
  moreover have "length pre - 1 < length ?xs" "length pre' - 1 < length ?xs"
    using arg_cong [OF assms(2), of length] assms(3,4) by (cases pre; cases pre'; simp)+
  ultimately have "length pre - 1 = length pre' - 1"
    using assms(1,5) nth_eq_iff_index_eq by metis
  with assms(3,4) have "length pre = length pre'" by (cases pre; cases pre') auto
  with assms(2) show ?thesis by simp
qed

context dynamo_current
begin

lemma next_page:
  assumes q: "Query C q w = (Inr out, w')" and vw: "view w (q_table q) (q_conds q) = pre @ rest"
    and cur: "cursor (sc (q_table q)) (q_start q) pre"
  obtains its post where "rest = its @ post" "out_items out = (if q_count q then [] else its)"
    "out_count out = int (length its)"
    "case out_last out of None \<Rightarrow> post = []
     | Some k \<Rightarrow> its \<noteq> [] \<and> cursor (sc (q_table q)) (Some k) (pre @ its)"
proof -
  let ?ks = "sc (q_table q)"
  from query_page [OF q] obtain pre' its post where
    vw': "view w (q_table q) (q_conds q) = pre' @ its @ post"
    and st: "case q_start q of None \<Rightarrow> pre' = [] | Some k \<Rightarrow> pre' \<noteq> [] \<and> key_of ?ks (last pre') = key_of ?ks k"
    and lst: "case out_last out of None \<Rightarrow> post = [] | Some k \<Rightarrow> its \<noteq> [] \<and> key_of ?ks k = key_of ?ks (last its)"
    and o: "out_items out = (if q_count q then [] else its)" "out_count out = int (length its)"
    unfolding is_page_def by blast
  have "pre' = pre"
  proof (cases "q_start q")
    case None
    with st cur show ?thesis by (simp add: cursor_def)
  next
    case (Some k)
    with st cur have ne: "pre \<noteq> []" "pre' \<noteq> []" "key_of ?ks (last pre) = key_of ?ks (last pre')"
      by (simp_all add: cursor_def)
    have "distinct (map (key_of ?ks) (pre @ rest))" using view_distinct [where w = w] vw by metis
    moreover have "pre @ rest = pre' @ (its @ post)" using vw vw' by simp
    ultimately show ?thesis using ne by (rule split_unique [where f = "key_of ?ks"])
  qed
  with vw vw' have "rest = its @ post" by simp
  moreover have "case out_last out of None \<Rightarrow> post = []
      | Some k \<Rightarrow> its \<noteq> [] \<and> cursor ?ks (Some k) (pre @ its)"
    using lst by (auto simp: cursor_def split: option.splits)
  ultimately show thesis using that o by blast
qed

end

section \<open>The table of connections\<close>

text \<open>A connection as the SDK marshals it, and back.\<close>

definition conn_item :: "Connection \<Rightarrow> item" where
  "conn_item c = [''room'' \<mapsto> AS (Room c), ''connectionId'' \<mapsto> AS (ConnectionID c),
     ''role'' \<mapsto> AS (Role c), ''ttl'' \<mapsto> AN (conn_TTL c)]"

definition conn_of :: "item \<Rightarrow> Connection" where
  "conn_of it = \<lparr>Room = str_attr it ''room'', ConnectionID = str_attr it ''connectionId'',
     Role = str_attr it ''role'', conn_TTL = int_attr it ''ttl''\<rparr>"

lemma conn_of_item [simp]: "conn_of (conn_item c) = c"
  by (simp add: conn_of_def conn_item_def str_attr_def int_attr_def)

abbreviation ckey :: "string \<Rightarrow> string \<Rightarrow> key" where
  "ckey room i \<equiv> [Some (AS room), Some (AS i)]"

locale connections = dynamo "cs_client s" tabs sc
  for s :: "'w conn_store" and tabs :: "'w \<Rightarrow> tables" and sc :: "string \<Rightarrow> string list" +
  assumes schema: "sc (cs_tableName s) = [''room'', ''connectionId'']"
    and now_tabs: "cs_now_Unix s w = (n, w') \<Longrightarrow> tabs w' = tabs w"
    and marshal: "cs_marshal s c = Inr it \<Longrightarrow> it = conn_item c"
    and unmarshal: "cs_unmarshal s it = Inr c \<Longrightarrow> c = conn_of it"
begin

abbreviation row :: "'w \<Rightarrow> string \<Rightarrow> string \<Rightarrow> item option" where
  "row w room i \<equiv> tabs w (cs_tableName s) (ckey room i)"

lemma key_conn [simp]: "key_of (sc (cs_tableName s)) (conn_key room i) = ckey room i"
  by (simp add: schema conn_key_def)

lemma key_item [simp]: "key_of (sc (cs_tableName s)) (conn_item c) = ckey (Room c) (ConnectionID c)"
  by (simp add: schema conn_item_def)

lemma row_fields: "row w room i = Some it \<Longrightarrow> Room (conn_of it) = room \<and> ConnectionID (conn_of it) = i"
  using keyed [of w "cs_tableName s" "ckey room i" it] by (auto simp: schema conn_of_def str_attr_def)

lemma unmarshal_all: "unmarshal_conns s its = Inr cs \<Longrightarrow> cs = map conn_of its"
  by (induction its arbitrary: cs) (auto dest: unmarshal split: sum.splits)

text \<open>Put stores the connection with a new time to live, or reports an error.\<close>

lemma put_outcome:
  assumes "conn_Put s c w = (Inr u, w')"
  obtains t where "tabs w' = set_item (cs_tableName s) (ckey (Room c) (ConnectionID c))
      (Some (conn_item (c\<lparr>conn_TTL := t\<rparr>))) (tabs w)"
proof -
  obtain n w1 where n: "cs_now_Unix s w = (n, w1)" by fastforce
  let ?c = "c\<lparr>conn_TTL := n + 24 * 60 * 60\<rparr>"
  from assms n obtain it where it: "cs_marshal s ?c = Inr it"
    and p: "PutItem (cs_client s) (cs_tableName s) it None w1 = (Inr (), w')"
    by (auto simp: conn_Put_def split: sum.splits prod.splits)
  from put_ok [OF p] marshal [OF it] now_tabs [OF n] show thesis
    by (intro that [of "n + 24 * 60 * 60"]) (simp add: put_effect_def Let_def)
qed

lemma get_frame_conn: "conn_Get s room i w = (r, w') \<Longrightarrow> tabs w' = tabs w"
  by (auto simp: conn_Get_def dest!: get_frame split: prod.splits sum.splits option.splits)

lemma delete_outcome:
  assumes "conn_Delete s room i w = (r, w')"
  shows "tabs w' = set_item (cs_tableName s) (ckey room i) None (tabs w) \<or> (\<exists>e. r = Inl e) \<and> tabs w' = tabs w"
  using assms by (auto simp: conn_Delete_def dest!: delete_ok delete_fail split: prod.splits sum.splits)

end

section \<open>Rooms\<close>

text \<open>With current reads, both loops over the pages of a room end.\<close>

locale connections_current = connections s tabs sc + dynamo_current "cs_client s" tabs sc view
  for s :: "'w conn_store" and tabs :: "'w \<Rightarrow> tables" and sc :: "string \<Rightarrow> string list"
    and view :: "'w \<Rightarrow> string \<Rightarrow> key_cond list \<Rightarrow> item list"
begin

abbreviation room_items :: "'w \<Rightarrow> string \<Rightarrow> item list" where
  "room_items w room \<equiv> view w (cs_tableName s) [Key_eq ''room'' (AS room)]"

lemma page_of_room:
  assumes "Query (cs_client s) (room_query s room start b) w = (Inr out, w')"
    and "room_items w room = pre @ rest" and "cursor (sc (cs_tableName s)) start pre"
  obtains its post where "rest = its @ post" "out_items out = (if b then [] else its)"
    "out_count out = int (length its)"
    "case out_last out of None \<Rightarrow> post = []
     | Some k \<Rightarrow> its \<noteq> [] \<and> cursor (sc (cs_tableName s)) (Some k) (pre @ its)"
proof -
  let ?q = "room_query s room start b"
  from assms(2,3) have "view w (q_table ?q) (q_conds ?q) = pre @ rest"
    "cursor (sc (q_table ?q)) (q_start ?q) pre" by (simp_all add: room_query_def)
  then obtain its post where "rest = its @ post" "out_items out = (if q_count ?q then [] else its)"
    "out_count out = int (length its)"
    "case out_last out of None \<Rightarrow> post = []
     | Some k \<Rightarrow> its \<noteq> [] \<and> cursor (sc (q_table ?q)) (Some k) (pre @ its)"
    by (rule next_page [OF assms(1)])
  moreover have "q_table ?q = cs_tableName s" "q_count ?q = b" by (simp_all add: room_query_def)
  ultimately show thesis by (intro that [of its post]) (simp_all only:)
qed

lemma query_pages_room:
  assumes "room_items w room = pre @ rest" and "cursor (sc (cs_tableName s)) start pre"
    and fr: "\<And>q w qr w'. Query (cs_client s) q w = (qr, w') \<Longrightarrow> f w' = f w"
  shows "\<exists>r w'. query_pages s room start cs w = Some (r, w') \<and> f w' = f w \<and>
    (\<forall>xs. r = Inr xs \<longrightarrow> xs = cs @ map conn_of rest)"
  using assms(1,2)
proof (induction "length rest" arbitrary: pre rest start cs w rule: less_induct)
  case less
  obtain r1 w1 where q: "Query (cs_client s) (room_query s room start False) w = (r1, w1)" by fastforce
  note t1 = fr [OF q] and v1 = view_frame [OF q]
  show ?case
  proof (cases r1)
    case (Inl e)
    with q t1 show ?thesis by (simp add: query_pages.simps)
  next
    case (Inr out)
    with q have q': "Query (cs_client s) (room_query s room start False) w = (Inr out, w1)" by simp
    obtain its post where page: "rest = its @ post" "out_items out = (if False then [] else its)"
      "out_count out = int (length its)"
      and lst: "case out_last out of None \<Rightarrow> post = []
        | Some k \<Rightarrow> its \<noteq> [] \<and> cursor (sc (cs_tableName s)) (Some k) (pre @ its)"
      by (rule page_of_room [OF q' less.prems])
    show ?thesis
    proof (cases "unmarshal_conns s its")
      case (Inl e)
      with q' t1 page show ?thesis by (simp add: query_pages.simps)
    next
      case (Inr xs)
      note xs = unmarshal_all [OF Inr]
      show ?thesis
      proof (cases "out_last out")
        case None
        with q' t1 page lst Inr xs show ?thesis by (simp add: query_pages.simps)
      next
        case (Some k)
        with lst have k: "its \<noteq> []" "cursor (sc (cs_tableName s)) (Some k) (pre @ its)" by simp_all
        from less.prems(1) v1 page have "room_items w1 room = (pre @ its) @ post" by simp
        from less.hyps [OF _ this k(2), of "cs @ xs"] k(1) page(1) obtain r w' where
          "query_pages s room (Some k) (cs @ xs) w1 = Some (r, w')" "f w' = f w1"
          "\<forall>ys. r = Inr ys \<longrightarrow> ys = (cs @ xs) @ map conn_of post" by auto
        with q' t1 page Inr xs Some show ?thesis by (subst query_pages.simps) simp
      qed
    qed
  qed
qed

lemma count_pages_room:
  assumes "room_items w room = pre @ rest" and "cursor (sc (cs_tableName s)) start pre"
    and fr: "\<And>q w qr w'. Query (cs_client s) q w = (qr, w') \<Longrightarrow> f w' = f w"
  shows "\<exists>r w'. count_pages s room start n w = Some (r, w') \<and> f w' = f w \<and>
    (\<forall>m. r = Inr m \<longrightarrow> m = n + int (length rest))"
  using assms(1,2)
proof (induction "length rest" arbitrary: pre rest start n w rule: less_induct)
  case less
  obtain r1 w1 where q: "Query (cs_client s) (room_query s room start True) w = (r1, w1)" by fastforce
  note t1 = fr [OF q] and v1 = view_frame [OF q]
  show ?case
  proof (cases r1)
    case (Inl e)
    with q t1 show ?thesis by (simp add: count_pages.simps)
  next
    case (Inr out)
    with q have q': "Query (cs_client s) (room_query s room start True) w = (Inr out, w1)" by simp
    obtain its post where page: "rest = its @ post" "out_items out = (if True then [] else its)"
      "out_count out = int (length its)"
      and lst: "case out_last out of None \<Rightarrow> post = []
        | Some k \<Rightarrow> its \<noteq> [] \<and> cursor (sc (cs_tableName s)) (Some k) (pre @ its)"
      by (rule page_of_room [OF q' less.prems])
    show ?thesis
    proof (cases "out_last out")
      case None
      with q' t1 page lst show ?thesis by (simp add: count_pages.simps)
    next
      case (Some k)
      with lst have k: "its \<noteq> []" "cursor (sc (cs_tableName s)) (Some k) (pre @ its)" by simp_all
      from less.prems(1) v1 page have "room_items w1 room = (pre @ its) @ post" by simp
      from less.hyps [OF _ this k(2), of "n + int (length its)"] k(1) page(1) obtain r w' where
        "count_pages s room (Some k) (n + int (length its)) w1 = Some (r, w')" "f w' = f w1"
        "\<forall>m. r = Inr m \<longrightarrow> m = n + int (length its) + int (length post)" by auto
      with q' t1 page Some show ?thesis by (subst count_pages.simps) (simp add: add.assoc)
    qed
  qed
qed

lemma query_room:
  assumes "\<And>q w qr w'. Query (cs_client s) q w = (qr, w') \<Longrightarrow> f w' = f w"
  shows "\<exists>r w'. QueryByRoom s room w = Some (r, w') \<and> tabs w' = tabs w \<and> f w' = f w \<and>
    (\<forall>xs. r = Inr xs \<longrightarrow> xs = map conn_of (room_items w room))"
  using query_pages_room [of w room "[]" "room_items w room" None "\<lambda>w. (tabs w, f w)" "[]"] assms query_frame
  by (auto simp: QueryByRoom_def cursor_def)

lemma count_room:
  assumes "\<And>q w qr w'. Query (cs_client s) q w = (qr, w') \<Longrightarrow> f w' = f w"
  shows "\<exists>r w'. CountByRoom s room w = Some (r, w') \<and> tabs w' = tabs w \<and> f w' = f w \<and>
    (\<forall>m. r = Inr m \<longrightarrow> m = int (length (room_items w room)))"
  using count_pages_room [of w room "[]" "room_items w room" None "\<lambda>w. (tabs w, f w)" 0] assms query_frame
  by (auto simp: CountByRoom_def cursor_def)

end
end
