(* ===== verification/Ws_Delivery.thy ===== *)
theory Ws_Delivery
  imports Ws_Contract
begin
text \<open>
  What the broadcaster does: every connection of the room is tried once, in the order of the
  listing, and only rows of connections whose delivery failed are dropped.
\<close>

section \<open>Attempts\<close>

text \<open>A delivery attempt: the connection, the payload, whether the gateway accepted it.\<close>

type_synonym attempt = "string \<times> string \<times> bool"

definition attempts :: "Connection list \<Rightarrow> string \<Rightarrow> bool list \<Rightarrow> attempt list" where
  "attempts cs payload oks = map (\<lambda>(c, ok). (ConnectionID c, payload, ok)) (zip cs oks)"

definition refused :: "Connection list \<Rightarrow> bool list \<Rightarrow> key set" where
  "refused cs oks = {ckey (Room c) (ConnectionID c) | c. (c, False) \<in> set (zip cs oks)}"

text \<open>Rows of \<open>T\<close> under the keys \<open>ks\<close> may have been dropped; nothing else changed.\<close>

definition pruned :: "string \<Rightarrow> key set \<Rightarrow> tables \<Rightarrow> tables \<Rightarrow> bool" where
  "pruned T ks tb tb' \<longleftrightarrow>
     (\<forall>U k. tb' U k = tb U k \<or> U = T \<and> k \<in> ks \<and> tb' U k = None)"

lemma attempts_simps [simp]:
  "attempts [] payload oks = []" "attempts cs payload [] = []"
  "attempts (c # cs) payload (ok # oks) = (ConnectionID c, payload, ok) # attempts cs payload oks"
  by (simp_all add: attempts_def)

lemma refused_simps [simp]:
  "refused [] oks = {}" "refused cs [] = {}"
  "refused (c # cs) (ok # oks) = (if ok then {} else {ckey (Room c) (ConnectionID c)}) \<union> refused cs oks"
  by (auto simp: refused_def)

lemma attempts_targets: "a \<in> set (attempts cs payload oks) \<Longrightarrow> fst a \<in> ConnectionID ` set cs \<and> fst (snd a) = payload"
  by (auto simp: attempts_def dest: set_zip_leftD)

lemma pruned_refl [simp]: "pruned T ks tb tb"
  by (simp add: pruned_def)

lemma pruned_mono: "pruned T ks tb tb' \<Longrightarrow> ks \<subseteq> ks' \<Longrightarrow> pruned T ks' tb tb'"
  unfolding pruned_def by blast

lemma pruned_trans:
  assumes "pruned T ks tb tb1" "pruned T ks' tb1 tb2" shows "pruned T (ks \<union> ks') tb tb2"
  unfolding pruned_def
proof (intro allI)
  fix U k
  show "tb2 U k = tb U k \<or> U = T \<and> k \<in> ks \<union> ks' \<and> tb2 U k = None"
    using assms(1) [unfolded pruned_def, rule_format, of U k]
      assms(2) [unfolded pruned_def, rule_format, of U k] by auto
qed

lemma pruned_drop [simp]: "pruned T {k} tb (set_item T k None tb)"
  by (simp add: pruned_def)

lemma pruned_other: "pruned T ks tb tb' \<Longrightarrow> U \<noteq> T \<Longrightarrow> tb' U = tb U"
  unfolding pruned_def by (auto simp: fun_eq_iff)

lemma pruned_keep: "pruned T ks tb tb' \<Longrightarrow> tb U k = None \<Longrightarrow> tb' U k = None"
  unfolding pruned_def by metis

section \<open>The gateway\<close>

text \<open>
  \<open>log\<close> is the list of the attempts made so far, a record of the calls of the management API
  and of their answers.  Neither service touches the other's state.
\<close>

locale deliveries = connections_current s tabs sc view
  for s :: "'w conn_store" and tabs :: "'w \<Rightarrow> tables" and sc :: "string \<Rightarrow> string list"
    and view :: "'w \<Rightarrow> string \<Rightarrow> key_cond list \<Rightarrow> item list" +
  fixes post :: "string \<Rightarrow> string \<Rightarrow> 'w \<Rightarrow> (ext_error + unit) \<times> 'w" and log :: "'w \<Rightarrow> attempt list"
  assumes post_tabs: "post i p w = (r, w') \<Longrightarrow> tabs w' = tabs w"
    and post_log: "post i p w = (r, w') \<Longrightarrow> log w' = log w @ [(i, p, r = Inr ())]"
    and now_log: "cs_now_Unix s w = (n, w') \<Longrightarrow> log w' = log w"
    and put_log: "PutItem (cs_client s) T it c w = (pr, w') \<Longrightarrow> log w' = log w"
    and get_log: "GetItem (cs_client s) T ky b w = (gr, w') \<Longrightarrow> log w' = log w"
    and delete_log: "DeleteItem (cs_client s) T ky w = (dr, w') \<Longrightarrow> log w' = log w"
    and query_log: "Query (cs_client s) q w = (qr, w') \<Longrightarrow> log w' = log w"
    and transact_log: "TransactWriteItems (cs_client s) ts w = (tr, w') \<Longrightarrow> log w' = log w"
begin

abbreviation up :: bool where
  "up \<equiv> dynamo_up (cs_client s) tabs sc view"

lemma conn_delete_log: "conn_Delete s room i w = (r, w') \<Longrightarrow> log w' = log w"
  by (auto simp: conn_Delete_def dest!: delete_log split: prod.splits sum.splits)

lemma conn_get_log: "conn_Get s room i w = (r, w') \<Longrightarrow> log w' = log w"
  by (auto simp: conn_Get_def dest!: get_log split: prod.splits sum.splits option.splits)

lemma conn_put_log: "conn_Put s c w = (r, w') \<Longrightarrow> log w' = log w"
  by (auto simp: conn_Put_def Let_def dest!: put_log now_log split: prod.splits sum.splits)

lemma delete_up_row:
  assumes "up" and "conn_Delete s room i w = (r, w')"
  shows "r = Inr () \<and> tabs w' = set_item (cs_tableName s) (ckey room i) None (tabs w)"
proof -
  from dynamo_up.delete_up [OF assms(1), of "cs_tableName s" "conn_key room i" w] obtain w1 where
    "DeleteItem (cs_client s) (cs_tableName s) (conn_key room i) w = (Inr (), w1)" by blast
  with assms(2) delete_ok [OF this] show ?thesis by (auto simp: conn_Delete_def)
qed

lemma delete_pruned: "conn_Delete s room i w = (r, w') \<Longrightarrow> pruned (cs_tableName s) {ckey room i} (tabs w) (tabs w')"
  using delete_outcome by fastforce

text \<open>A message to one connection.\<close>

lemma send_one:
  assumes "SendToOne (NewBroadcaster post s) room i payload w = (r, w')"
  obtains ok where "log w' = log w @ [(i, payload, ok)]" "ok \<longrightarrow> r = Inr ()"
    "pruned (cs_tableName s) (if ok then {} else {ckey room i}) (tabs w) (tabs w')"
proof -
  obtain pr w1 where p: "post i payload w = (pr, w1)" by fastforce
  note l = post_log [OF p] and t = post_tabs [OF p]
  show thesis
  proof (cases pr)
    case (Inr u)
    with assms p l t show thesis by (intro that [of True]) (auto simp: SendToOne_def)
  next
    case (Inl e)
    show thesis
    proof (cases "isGoneError (Foreign e)")
      case True
      obtain dr w2 where d: "conn_Delete s room i w1 = (dr, w2)" by fastforce
      from assms p Inl True d have "r = Inr ()" "w' = w2" by (auto simp: SendToOne_def)
      with conn_delete_log [OF d] delete_pruned [OF d] l t Inl show thesis
        by (intro that [of False]) auto
    next
      case False
      with assms p Inl l t show thesis by (intro that [of False]) (auto simp: SendToOne_def)
    qed
  qed
qed

text \<open>The loop of \<open>Send\<close> over a list of connections.\<close>

abbreviation targets :: "Connection list \<Rightarrow> string \<Rightarrow> Connection list" where
  "targets cs excl \<equiv> filter (\<lambda>c. ConnectionID c \<noteq> excl) cs"

lemma send_loop_outcome:
  assumes "send_loop (NewBroadcaster post s) cs payload excl w = (r, w')"
  shows "\<exists>oks. length oks \<le> length (targets cs excl) \<and> (r = Inr () \<longrightarrow> length oks = length (targets cs excl)) \<and>
    log w' = log w @ attempts (targets cs excl) payload oks \<and>
    pruned (cs_tableName s) (refused (targets cs excl) oks) (tabs w) (tabs w') \<and>
    (up \<longrightarrow> r = Inr () \<longrightarrow> (\<forall>k \<in> refused (targets cs excl) oks. tabs w' (cs_tableName s) k = None))"
  using assms
proof (induction cs arbitrary: w)
  case Nil
  then show ?case by simp
next
  case (Cons c cs)
  let ?T = "cs_tableName s" and ?ts = "targets cs excl" and ?k = "ckey (Room c) (ConnectionID c)"
  show ?case
  proof (cases "ConnectionID c = excl")
    case True
    with Cons show ?thesis by simp
  next
    case ne: False
    obtain pr w1 where p: "post (ConnectionID c) payload w = (pr, w1)" by fastforce
    note l = post_log [OF p] and t = post_tabs [OF p]
    consider (ok) "pr = Inr ()" | (gone) e where "pr = Inl e" "isGoneError (Foreign e)"
      | (bad) e where "pr = Inl e" "\<not> isGoneError (Foreign e)" by (cases pr) auto
    then show ?thesis
    proof cases
      case ok
      with Cons.prems ne p have "send_loop (NewBroadcaster post s) cs payload excl w1 = (r, w')" by simp
      from Cons.IH [OF this] obtain oks where ih: "length oks \<le> length ?ts"
        "r = Inr () \<longrightarrow> length oks = length ?ts" "log w' = log w1 @ attempts ?ts payload oks"
        "pruned ?T (refused ?ts oks) (tabs w1) (tabs w')"
        "up \<longrightarrow> r = Inr () \<longrightarrow> (\<forall>k \<in> refused ?ts oks. tabs w' ?T k = None)" by blast
      with ok l t ne show ?thesis by (intro exI [of _ "True # oks"]) simp
    next
      case gone
      obtain dr w2 where d: "conn_Delete s (Room c) (ConnectionID c) w1 = (dr, w2)" by fastforce
      with Cons.prems ne p gone have "send_loop (NewBroadcaster post s) cs payload excl w2 = (r, w')" by simp
      from Cons.IH [OF this] obtain oks where ih: "length oks \<le> length ?ts"
        "r = Inr () \<longrightarrow> length oks = length ?ts" "log w' = log w2 @ attempts ?ts payload oks"
        "pruned ?T (refused ?ts oks) (tabs w2) (tabs w')"
        "up \<longrightarrow> r = Inr () \<longrightarrow> (\<forall>k \<in> refused ?ts oks. tabs w' ?T k = None)" by blast
      have "pruned ?T ({?k} \<union> refused ?ts oks) (tabs w) (tabs w')"
        using pruned_trans [OF delete_pruned [OF d] ih(4)] t by simp
      moreover have "up \<longrightarrow> r = Inr () \<longrightarrow> (\<forall>k \<in> {?k} \<union> refused ?ts oks. tabs w' ?T k = None)"
        using ih(5) pruned_keep [OF ih(4), of ?T ?k] delete_up_row [OF _ d] by auto
      ultimately show ?thesis using ih(1-3) gone l ne conn_delete_log [OF d]
        by (intro exI [of _ "False # oks"]) simp
    next
      case bad
      with Cons.prems ne p have "r = Inl (post_failed (ConnectionID c) e)" "w' = w1" by auto
      with l t bad ne show ?thesis
        by (intro exI [of _ "[False]"]) (simp add: pruned_mono [OF pruned_refl])
    qed
  qed
qed

lemma send_outcome:
  obtains r w' oks where "Send (NewBroadcaster post s) room payload excl w = Some (r, w')"
    "length oks \<le> length (targets (map conn_of (room_items w room)) excl)"
    "r = Inr () \<longrightarrow> length oks = length (targets (map conn_of (room_items w room)) excl)"
    "log w' = log w @ attempts (targets (map conn_of (room_items w room)) excl) payload oks"
    "pruned (cs_tableName s) (refused (targets (map conn_of (room_items w room)) excl) oks) (tabs w) (tabs w')"
    "up \<longrightarrow> r = Inr () \<longrightarrow> (\<forall>k \<in> refused (targets (map conn_of (room_items w room)) excl) oks.
       tabs w' (cs_tableName s) k = None)"
proof -
  let ?ts = "targets (map conn_of (room_items w room)) excl"
  from query_room [of log room w] query_log obtain qr w1 where
    q: "QueryByRoom s room w = Some (qr, w1)" "tabs w1 = tabs w" "log w1 = log w"
    "\<forall>xs. qr = Inr xs \<longrightarrow> xs = map conn_of (room_items w room)" by blast
  show thesis
  proof (cases qr)
    case (Inl e)
    with q show thesis by (intro that [of "Inl (Wrapf ''query connections'' e)" w1 "[]"]) (auto simp: Send_def)
  next
    case (Inr xs)
    obtain r w' where l: "send_loop (NewBroadcaster post s) xs payload excl w1 = (r, w')" by fastforce
    with q Inr have "Send (NewBroadcaster post s) room payload excl w = Some (r, w')" by (simp add: Send_def)
    moreover from q Inr have xs: "xs = map conn_of (room_items w room)" by simp
    from send_loop_outcome [OF l] q(2,3) xs obtain oks where "length oks \<le> length ?ts"
      "r = Inr () \<longrightarrow> length oks = length ?ts" "log w' = log w @ attempts ?ts payload oks"
      "pruned (cs_tableName s) (refused ?ts oks) (tabs w) (tabs w')"
      "up \<longrightarrow> r = Inr () \<longrightarrow> (\<forall>k \<in> refused ?ts oks. tabs w' (cs_tableName s) k = None)"
      by (elim exE conjE) (simp only:)
    ultimately show thesis by (rule that)
  qed
qed

end

section \<open>Listings of a room\<close>

text \<open>\<open>cs\<close> lists the connections of the room: one entry per row, in some order.\<close>

definition room_listing :: "string \<Rightarrow> string \<Rightarrow> tables \<Rightarrow> Connection list \<Rightarrow> bool" where
  "room_listing T room tb cs \<longleftrightarrow>
     (\<exists>ks. distinct ks \<and> set ks = {k. \<exists>it. tb T k = Some it \<and> it ''room'' = Some (AS room)} \<and>
        cs = map (\<lambda>k. conn_of (the (tb T k))) ks)"

definition room_size :: "string \<Rightarrow> string \<Rightarrow> tables \<Rightarrow> int" where
  "room_size T room tb = int (card {k. \<exists>it. tb T k = Some it \<and> it ''room'' = Some (AS room)})"

lemma listing_size: "room_listing T room tb cs \<Longrightarrow> int (length cs) = room_size T room tb"
  unfolding room_listing_def room_size_def using distinct_card by fastforce

lemma listing_cong: "tb' T = tb T \<Longrightarrow> room_listing T room tb' cs = room_listing T room tb cs"
  by (simp add: room_listing_def)

context connections_current
begin

lemma items_listing: "room_listing (cs_tableName s) room (tabs w) (map conn_of (room_items w room))"
proof -
  let ?T = "cs_tableName s" and ?its = "room_items w room"
  have row: "tabs w ?T (key_of (sc ?T) it) = Some it \<and> it ''room'' = Some (AS room)" if "it \<in> set ?its" for it
  proof -
    from that obtain k where "tabs w ?T k = Some it" "it ''room'' = Some (AS room)"
      by (auto simp: view_set ran_def)
    with keyed [OF this(1)] show ?thesis by simp
  qed
  have "set (map (key_of (sc ?T)) ?its) = {k. \<exists>it. tabs w ?T k = Some it \<and> it ''room'' = Some (AS room)}"
    (is "?l = ?r")
  proof (intro equalityI subsetI)
    fix k assume "k \<in> ?l"
    then obtain it where "it \<in> set ?its" "k = key_of (sc ?T) it" by auto
    with row show "k \<in> ?r" by blast
  next
    fix k assume "k \<in> ?r"
    then obtain it where it: "tabs w ?T k = Some it" "it ''room'' = Some (AS room)" by blast
    then have "it \<in> set ?its" by (auto simp: view_set ran_def)
    with keyed [OF it(1)] show "k \<in> ?l" by (auto intro: image_eqI [of _ _ it])
  qed
  moreover have "map conn_of ?its = map (\<lambda>k. conn_of (the (tabs w ?T k))) (map (key_of (sc ?T)) ?its)"
    using row by simp
  ultimately show ?thesis unfolding room_listing_def using view_distinct by blast
qed

end
end
