(* ===== verification/Presenter_Contract.thy ===== *)
theory Presenter_Contract
  imports Presenter_Wiring Ws_Delivery Poll_Operations
begin
text \<open>
  The presenter as a whole: its stores over one DynamoDB client and its broadcaster over one
  gateway.  The locale collects what the handlers rely on; the lemmas say how each of the
  components the handlers call changes the tables and the log of delivery attempts.
\<close>

section \<open>The parts\<close>

definition conns_of :: "('cfg, 'w) platform \<Rightarrow> 'cfg \<Rightarrow> string \<Rightarrow> 'w conn_store" where
  "conns_of P cfg T = connection_NewStore P (dynamodb_NewFromConfig P cfg) T"

definition polls_of :: "('cfg, 'w) platform \<Rightarrow> 'cfg \<Rightarrow> string \<Rightarrow> 'w Store" where
  "polls_of P cfg T = \<lparr>client = dynamodb_NewFromConfig P cfg, tableName = T, now_Unix = Now_Unix P,
     marshalMapFn = MarshalMeta P, unmarshalMeta = UnmarshalMeta P\<rparr>"

definition states_of :: "('cfg, 'w) platform \<Rightarrow> 'cfg \<Rightarrow> string \<Rightarrow> 'w state_store" where
  "states_of P cfg T = roomstate_NewStore P (dynamodb_NewFromConfig P cfg) T"

text \<open>The handlers that \<open>message_run\<close>, \<open>connect_run\<close>, \<open>disconnect_run\<close> and \<open>login_run\<close> start.\<close>

definition message_handler_of ::
  "('cfg, 'w) platform \<Rightarrow> 'cfg \<Rightarrow> string \<Rightarrow> string \<Rightarrow> string \<Rightarrow> 'w messageHandler" where
  "message_handler_of P cfg connT pollT stateT =
     new_messageHandler P cfg (conns_of P cfg connT) (polls_of P cfg pollT) (states_of P cfg stateT)"

definition connect_handler_of :: "('cfg, 'w) platform \<Rightarrow> 'cfg \<Rightarrow> string \<Rightarrow> string \<Rightarrow> 'w connectHandler" where
  "connect_handler_of P cfg connT sessT =
     new_connectHandler P cfg (conns_of P cfg connT) (connection_NewSessionStore (dynamodb_NewFromConfig P cfg) sessT)"

definition disconnect_handler_of :: "('cfg, 'w) platform \<Rightarrow> 'cfg \<Rightarrow> string \<Rightarrow> 'w disconnectHandler" where
  "disconnect_handler_of P cfg connT = new_disconnectHandler P cfg (conns_of P cfg connT)"

lemma poll_NewStore_of: "T \<noteq> [] \<Longrightarrow> poll_NewStore P (dynamodb_NewFromConfig P cfg) T = Some (polls_of P cfg T)"
  by (simp add: poll_NewStore_def polls_of_def)

lemma store_parts [simp]:
  "cs_client (conns_of P cfg T) = dynamodb_NewFromConfig P cfg" "cs_tableName (conns_of P cfg T) = T"
  "cs_marshal (conns_of P cfg T) = MarshalConn P" "cs_unmarshal (conns_of P cfg T) = UnmarshalConn P"
  "cs_now_Unix (conns_of P cfg T) = Now_Unix P"
  "client (polls_of P cfg T) = dynamodb_NewFromConfig P cfg" "tableName (polls_of P cfg T) = T"
  "now_Unix (polls_of P cfg T) = Now_Unix P"
  "rs_client (states_of P cfg T) = dynamodb_NewFromConfig P cfg" "rs_tableName (states_of P cfg T) = T"
  "rs_marshal (states_of P cfg T) = MarshalRoom P" "rs_unmarshal (states_of P cfg T) = UnmarshalRoom P"
  by (simp_all add: conns_of_def connection_NewStore_def polls_of_def states_of_def roomstate_NewStore_def)

lemma handler_parts [simp]:
  "pollGet (message_handler_of P cfg a b c) = (\<lambda>p v opts m pr w. poll_call (Get (polls_of P cfg b) p v opts m pr w))"
  "pollVote (message_handler_of P cfg a b c) = (\<lambda>p v ch w. poll_call (Vote (polls_of P cfg b) p v ch w))"
  "pollUnvote (message_handler_of P cfg a b c) = (\<lambda>p v ch w. poll_call (Unvote (polls_of P cfg b) p v ch w))"
  "pollSwitch (message_handler_of P cfg a b c) = (\<lambda>p v x y w. poll_call (Switch (polls_of P cfg b) p v x y w))"
  "connGetter (message_handler_of P cfg a b c) = conn_Get (conns_of P cfg a)"
  "stateReader (message_handler_of P cfg a b c) = GetState (states_of P cfg c)"
  "newDeps (message_handler_of P cfg a b c) =
     newHandleDeps (json_Marshal P) (apigw_NewFromConfig P cfg) (conns_of P cfg a) (states_of P cfg c)"
  "jsonMarshal (message_handler_of P cfg a b c) = json_Marshal P"
  "jsonUnmarshal (message_handler_of P cfg a b c) = json_Unmarshal P"
  "ext_text (message_handler_of P cfg a b c) = ext_Error P"
  by (simp_all add: message_handler_of_def new_messageHandler_def)

text \<open>The broadcaster of a request.\<close>

definition bc_of :: "('cfg, 'w) platform \<Rightarrow> 'cfg \<Rightarrow> string \<Rightarrow> string \<Rightarrow> string \<Rightarrow> 'w Broadcaster" where
  "bc_of P cfg connT d st =
     NewBroadcaster (apigw_NewFromConfig P cfg (newAPIGWEndpoint d st)) (conns_of P cfg connT)"

definition deps_of :: "('cfg, 'w) platform \<Rightarrow> 'cfg \<Rightarrow> string \<Rightarrow> string \<Rightarrow> string \<Rightarrow> string \<Rightarrow> 'w handleDeps" where
  "deps_of P cfg connT stateT d st =
     newHandleDeps (json_Marshal P) (apigw_NewFromConfig P cfg) (conns_of P cfg connT) (states_of P cfg stateT) d st"

lemma deps_parts [simp]:
  "slideSync (deps_of P cfg a c d st) =
     slidesync_Handle (slidesync_NewHandler (json_Marshal P) (conns_of P cfg a) (bc_of P cfg a d st) (states_of P cfg c))"
  "handsOn (deps_of P cfg a c d st) =
     handson_Handle (handson_NewHandler (json_Marshal P) (conns_of P cfg a) (bc_of P cfg a d st))"
  "viewerCount (deps_of P cfg a c d st) =
     viewercount_Handle (viewercount_NewHandler (json_Marshal P) (conns_of P cfg a) (bc_of P cfg a d st))"
  "broadcaster (deps_of P cfg a c d st) = Send (bc_of P cfg a d st)"
  "singleSender (deps_of P cfg a c d st) = SendToOne (bc_of P cfg a d st)"
  by (simp_all add: deps_of_def newHandleDeps_def bc_of_def Let_def)

lemma sub_parts [simp]:
  "sl_connGetter (slidesync_NewHandler m s b rs) = conn_Get s" "sl_broadcaster (slidesync_NewHandler m s b rs) = Send b"
  "sl_stateWriter (slidesync_NewHandler m s b rs) = PutState rs" "sl_jsonMarshal (slidesync_NewHandler m s b rs) = m"
  "ho_broadcaster (handson_NewHandler m s b) = Send b" "ho_jsonMarshal (handson_NewHandler m s b) = m"
  "ho_connGetter (handson_NewHandler m s b) room i w = apfst (map_sum id Some) (conn_Get s room i w)"
  "vc_counter (viewercount_NewHandler m s b) = CountByRoom s" "vc_jsonMarshal (viewercount_NewHandler m s b) = m"
  "vc_sender (viewercount_NewHandler m s b) room i p w = SendToOne b default_room i p w"
  by (simp_all add: slidesync_NewHandler_def handson_NewHandler_def viewercount_NewHandler_def
      viewerCountAdapter_SendToOne_def)

section \<open>Frames of the poll store\<close>

text \<open>What no client call changes, no poll operation changes.\<close>

lemma poll_frames:
  fixes f :: "'w \<Rightarrow> 'b"
  assumes fr: "\<And>w n w'. now_Unix s w = (n, w') \<Longrightarrow> f w' = f w"
    "\<And>T it c w r w'. PutItem (client s) T it c w = (r, w') \<Longrightarrow> f w' = f w"
    "\<And>T ky b w r w'. GetItem (client s) T ky b w = (r, w') \<Longrightarrow> f w' = f w"
    "\<And>q w r w'. Query (client s) q w = (r, w') \<Longrightarrow> f w' = f w"
    "\<And>ts w r w'. TransactWriteItems (client s) ts w = (r, w') \<Longrightarrow> f w' = f w"
  shows "getMeta s p w = (mr, w') \<Longrightarrow> f w' = f w"
    and "getMyChoices s p v w = (cr, w') \<Longrightarrow> f w' = f w"
    and "Get s p v opts m pres w = (gr, w') \<Longrightarrow> f w' = f w"
    and "Vote s p v c w = (vr, w') \<Longrightarrow> f w' = f w"
    and "Unvote s p v c w = (vr, w') \<Longrightarrow> f w' = f w"
    and "Switch s p v a b w = (vr, w') \<Longrightarrow> f w' = f w"
proof -
  have gm: "f w' = f w" if "getMeta s p w = (mr, w')" for p w mr w'
    using that by (auto simp: getMeta_def dest!: fr(3) split: prod.splits sum.splits option.splits)
  have gc: "f w' = f w" if "getMyChoices s p v w = (mr, w')" for p v w mr w'
    using that by (auto simp: getMyChoices_def dest!: fr(4) split: prod.splits sum.splits if_splits)
  have pm: "f w' = f w" if "put_meta s p os m w = (pr, w')" for p os m w pr w'
    using that by (auto simp: put_meta_def dest!: fr(1,2) split: prod.splits sum.splits if_splits)
  have vc: "f w' = f w" if "vote_check s p v c w = (pr, w')" for p v c w pr w'
    using that by (auto simp: vote_check_def dest!: gm gc split: prod.splits sum.splits if_splits)
  have vm: "f w' = f w" if "vote_commit s p v c w = (pr, w')" for p v c w pr w'
    using that by (auto simp: vote_commit_def Let_def dest!: fr(1,5) split: prod.splits sum.splits if_splits)
  show "getMeta s p w = (mr, w') \<Longrightarrow> f w' = f w" by (rule gm)
  show "getMyChoices s p v w = (cr, w') \<Longrightarrow> f w' = f w" by (rule gc)
  show "Get s p v opts m pres w = (gr, w') \<Longrightarrow> f w' = f w"
    by (auto simp: Get_def dest!: gm gc pm split: prod.splits sum.splits option.splits if_splits)
  show "Vote s p v c w = (vr, w') \<Longrightarrow> f w' = f w"
    by (auto simp: Vote_def dest!: vc vm split: prod.splits sum.splits)
  show "Unvote s p v c w = (vr, w') \<Longrightarrow> f w' = f w"
    by (auto simp: Unvote_def Let_def dest!: fr(5) split: prod.splits sum.splits if_splits)
  show "Switch s p v a b w = (vr, w') \<Longrightarrow> f w' = f w"
    by (auto simp: Switch_def Let_def dest!: gm fr(1,5) split: prod.splits sum.splits if_splits)
qed

lemma transact_other_table:
  assumes "transact_effect sc ts tb = Some tb'" and "\<forall>t \<in> set ts. fst (ti_target sc t) = T" and "U \<noteq> T"
  shows "tb' U = tb U"
proof -
  from assms(1) have "seq_effect sc ts tb = Some tb'" by (simp add: transact_effect_def split: if_splits)
  then show ?thesis using assms(2)
  proof (induction ts arbitrary: tb)
    case (Cons t ts)
    then obtain tb1 where t: "ti_effect sc t tb = Some tb1" "seq_effect sc ts tb1 = Some tb'"
      by (auto simp: bind_eq_Some_conv)
    have "tb1 U = tb U"
      using ti_effect_other [OF t(1), of U] Cons.prems(2) assms(3) by (cases "ti_target sc t") (auto simp: fun_eq_iff)
    with Cons.IH [OF t(2)] Cons.prems(2) show ?case by simp
  qed simp
qed
end
