(* ===== verification/Presenter_System.thy ===== *)
theory Presenter_System
  imports Presenter_Contract
begin
text \<open>
  The locale of the presenter: its four tables, the gateway and the codecs, with the lemmas that
  say what every call of a handler changes.
\<close>

definition room_item :: "room_state \<Rightarrow> item" where
  "room_item r = [''room'' \<mapsto> AS (st_Room r), ''page'' \<mapsto> AN (st_Page r)]"

definition room_of :: "item \<Rightarrow> room_state" where
  "room_of it = \<lparr>st_Room = str_attr it ''room'', st_Page = int_attr it ''page''\<rparr>"

lemma room_of_item [simp]: "room_of (room_item r) = r"
  by (simp add: room_of_def room_item_def str_attr_def int_attr_def)

definition session_item :: "sessionItem \<Rightarrow> item" where
  "session_item si = [''token'' \<mapsto> AS (Token si), ''status'' \<mapsto> AS (si_Status si)]"

text \<open>The role of a connection, as its row has it.\<close>

definition role_in :: "string \<Rightarrow> tables \<Rightarrow> string \<Rightarrow> string option" where
  "role_in T tb i = map_option (\<lambda>it. str_attr it ''role'') (tb T (ckey default_room i))"

text \<open>A token is that of a session whose status is \<^verbatim>\<open>valid\<close>.\<close>

definition token_valid :: "string \<Rightarrow> tables \<Rightarrow> string \<Rightarrow> bool" where
  "token_valid T tb token \<longleftrightarrow>
     token \<noteq> [] \<and> (\<exists>it. tb T [Some (AS token)] = Some it \<and> it ''status'' = Some (AS ''valid''))"

locale presenter =
  fixes P :: "('cfg, 'w) platform" and cfg :: 'cfg and connT pollT stateT sessT :: string
    and tabs :: "'w \<Rightarrow> tables" and sc :: "string \<Rightarrow> string list"
    and view :: "'w \<Rightarrow> string \<Rightarrow> key_cond list \<Rightarrow> item list" and log :: "'w \<Rightarrow> attempt list"
  assumes gateway: "deliveries (conns_of P cfg connT) tabs sc view (apigw_NewFromConfig P cfg ep) log"
    and poll_table: "poll_store_current (polls_of P cfg pollT) tabs sc view"
    and tables: "distinct [connT, pollT, stateT, sessT]"
    and state_schema: "sc stateT = [''room'']"
    and sess_schema: "sc sessT = [''token'']"
    and room_marshal: "MarshalRoom P r = Inr it \<Longrightarrow> it = room_item r"
    and room_unmarshal: "UnmarshalRoom P it = Inr r \<Longrightarrow> r = room_of it"
    and sess_marshal: "MarshalSession P si = Inr it \<Longrightarrow> it = session_item si"
    and rand_bytes: "rand_ReadFull P n w = (Inr bs, w') \<Longrightarrow> length bs = n"
    and rand_tabs: "rand_ReadFull P n w = (rr, w') \<Longrightarrow> tabs w' = tabs w"
    and secret_tabs: "secrets_NewFromConfig P cfg arn w = (sr, w') \<Longrightarrow> tabs w' = tabs w"
begin

abbreviation S :: "'w conn_store" where "S \<equiv> conns_of P cfg connT"
abbreviation PS :: "'w Store" where "PS \<equiv> polls_of P cfg pollT"
abbreviation RS :: "'w state_store" where "RS \<equiv> states_of P cfg stateT"
abbreviation H :: "'w messageHandler" where "H \<equiv> message_handler_of P cfg connT pollT stateT"
abbreviation D :: "string \<Rightarrow> string \<Rightarrow> 'w handleDeps" where "D d st \<equiv> deps_of P cfg connT stateT d st"
abbreviation B :: "string \<Rightarrow> string \<Rightarrow> 'w Broadcaster" where "B d st \<equiv> bc_of P cfg connT d st"

abbreviation conns_in_room :: "'w \<Rightarrow> Connection list" where
  "conns_in_room w \<equiv> map conn_of (view w connT [Key_eq ''room'' (AS default_room)])"

lemmas conn_cur = deliveries.axioms(1) [OF gateway]
lemmas conn_tab = connections_current.axioms(1) [OF conn_cur]
lemmas db_cur = connections_current.axioms(2) [OF conn_cur, unfolded store_parts]
lemmas db = dynamo_current.axioms(1) [OF db_cur]
lemmas poll_tab = poll_store_current.axioms(1) [OF poll_table]

lemma tables_ne [simp]:
  "connT \<noteq> pollT" "connT \<noteq> stateT" "connT \<noteq> sessT" "pollT \<noteq> connT" "stateT \<noteq> connT" "sessT \<noteq> connT"
  "pollT \<noteq> stateT" "pollT \<noteq> sessT" "stateT \<noteq> pollT" "sessT \<noteq> pollT" "stateT \<noteq> sessT" "sessT \<noteq> stateT"
  using tables by auto

lemma db_up: "dynamo_up (cs_client S) tabs sc view = dynamo_up (dynamodb_NewFromConfig P cfg) tabs sc view"
  by simp

text \<open>Reading the row of a connection.\<close>

lemma get_conn:
  assumes "conn_Get S room i w = (r, w')"
  shows "tabs w' = tabs w" "log w' = log w"
    "r = Inr c \<Longrightarrow> \<exists>it. tabs w connT (ckey room i) = Some it \<and> c = conn_of it"
proof -
  show "tabs w' = tabs w" by (rule connections.get_frame_conn [OF conn_tab assms])
  show "log w' = log w" by (rule deliveries.conn_get_log [OF gateway assms])
  assume "r = Inr c"
  with assms obtain it where g: "GetItem (dynamodb_NewFromConfig P cfg) connT (conn_key room i) False w = (Inr (Some it), w')"
    and u: "UnmarshalConn P it = Inr c"
    by (auto simp: conn_Get_def split: prod.splits sum.splits option.splits)
  have "sc connT = [''room'', ''connectionId'']" using connections.schema [OF conn_tab] by simp
  then have "tabs w connT (ckey room i) = Some it"
    using dynamo_current.get_current [OF db_cur g] by (simp add: conn_key_def)
  moreover have "c = conn_of it" using connections.unmarshal [OF conn_tab, of it c] u by simp
  ultimately show "\<exists>it. tabs w connT (ckey room i) = Some it \<and> c = conn_of it" by blast
qed

lemma get_conn_role:
  assumes "conn_Get S default_room i w = (Inr c, w')"
  shows "role_in connT (tabs w) i = Some (Role c)"
  using get_conn(3) [OF assms, of c] by (auto simp: role_in_def conn_of_def)

text \<open>The state of the slides.\<close>

lemma put_state:
  assumes "PutState RS room page w = (r, w')"
  shows "log w' = log w" "U \<noteq> stateT \<Longrightarrow> tabs w' U = tabs w U"
    "r = Inr () \<Longrightarrow> tabs w' = set_item stateT [Some (AS room)] (Some (room_item \<lparr>st_Room = room, st_Page = page\<rparr>)) (tabs w)"
proof -
  let ?r = "\<lparr>st_Room = room, st_Page = page\<rparr>"
  have k: "key_of (sc stateT) (room_item ?r) = [Some (AS room)]" by (simp add: state_schema room_item_def)
  show "log w' = log w"
    using assms deliveries.put_log [OF gateway] by (auto simp: PutState_def split: prod.splits sum.splits)
  show "tabs w' U = tabs w U" if "U \<noteq> stateT"
  proof (cases "MarshalRoom P ?r")
    case (Inl e)
    with assms show ?thesis by (simp add: PutState_def)
  next
    case (Inr it)
    obtain pr w1 where p: "PutItem (dynamodb_NewFromConfig P cfg) stateT it None w = (pr, w1)" by fastforce
    with assms Inr have "w' = w1" by (auto simp: PutState_def split: sum.splits)
    with dynamo.put_cases [OF db p] that show ?thesis
      by (auto simp: put_effect_def Let_def dest!: sym [of "set_item _ _ _ _"])
  qed
  assume "r = Inr ()"
  with assms obtain it where m: "MarshalRoom P ?r = Inr it"
    and p: "PutItem (dynamodb_NewFromConfig P cfg) stateT it None w = (Inr (), w')"
    by (auto simp: PutState_def split: prod.splits sum.splits)
  from dynamo.put_ok [OF db p] room_marshal [OF m] k
  show "tabs w' = set_item stateT [Some (AS room)] (Some (room_item ?r)) (tabs w)"
    by (simp add: put_effect_def)
qed

lemma get_state:
  assumes "GetState RS room w = (r, w')"
  shows "tabs w' = tabs w" "log w' = log w"
    "r = Inr n \<Longrightarrow> n = (case tabs w stateT [Some (AS room)] of None \<Rightarrow> 0 | Some it \<Rightarrow> int_attr it ''page'')"
proof -
  obtain gr w1 where g: "GetItem (dynamodb_NewFromConfig P cfg) stateT (room_key room) False w = (gr, w1)" by fastforce
  with assms have "w' = w1" by (auto simp: GetState_def split: sum.splits option.splits)
  with dynamo.get_frame [OF db g] deliveries.get_log [OF gateway] g
  show "tabs w' = tabs w" "log w' = log w" by auto
  assume r: "r = Inr n"
  with assms g obtain oi where oi: "gr = Inr oi" by (cases gr) (auto simp: GetState_def)
  have cur: "oi = tabs w stateT [Some (AS room)]"
    using dynamo_current.get_current [OF db_cur g [unfolded oi]] by (simp add: room_key_def state_schema)
  show "n = (case tabs w stateT [Some (AS room)] of None \<Rightarrow> 0 | Some it \<Rightarrow> int_attr it ''page'')"
    using assms g oi r cur
    by (auto simp: GetState_def room_of_def dest!: room_unmarshal split: option.splits sum.splits)
qed

text \<open>Presenter sessions.\<close>

lemma is_valid:
  assumes "IsValid (connection_NewSessionStore (dynamodb_NewFromConfig P cfg) sessT) token w = (r, w')"
  shows "tabs w' = tabs w" "log w' = log w" "r = Inr b \<Longrightarrow> b = token_valid sessT (tabs w) token"
proof -
  have parts: "ss_client (connection_NewSessionStore c T) = c" "ss_tableName (connection_NewSessionStore c T) = T"
    for c :: "'w ddb" and T by (simp_all add: connection_NewSessionStore_def)
  obtain gr w1 where g: "GetItem (dynamodb_NewFromConfig P cfg) sessT (token_key token) False w = (gr, w1)" by fastforce
  have w': "w' = (if token = [] then w else w1)"
    using assms g by (auto simp: IsValid_def parts split: sum.splits option.splits attr.splits if_splits)
  with dynamo.get_frame [OF db g] deliveries.get_log [OF gateway] g
  show "tabs w' = tabs w" "log w' = log w" by auto
  assume r: "r = Inr b"
  show "b = token_valid sessT (tabs w) token"
  proof (cases "token = []")
    case True
    with assms r show ?thesis by (simp add: IsValid_def token_valid_def)
  next
    case False
    with assms g r obtain oi where oi: "gr = Inr oi" by (cases gr) (auto simp: IsValid_def parts)
    have "oi = tabs w sessT [Some (AS token)]"
      using dynamo_current.get_current [OF db_cur g [unfolded oi]] by (simp add: token_key_def sess_schema)
    with assms g oi r False show ?thesis
      by (auto simp: IsValid_def parts token_valid_def split: option.splits attr.splits)
  qed
qed

lemma create_session:
  assumes "session_Create (session_NewStore P (dynamodb_NewFromConfig P cfg) sessT) token w = (r, w')"
  shows "log w' = log w"
    "r = Inr () \<Longrightarrow> tabs w' = set_item sessT [Some (AS token)] (Some (session_item \<lparr>Token = token, si_Status = ''valid''\<rparr>)) (tabs w)"
proof -
  let ?si = "\<lparr>Token = token, si_Status = ''valid''\<rparr>"
  have parts: "se_client (session_NewStore P c T) = c" "se_tableName (session_NewStore P c T) = T"
    "se_marshal (session_NewStore P c T) = MarshalSession P" for c T
    by (simp_all add: session_NewStore_def)
  show "log w' = log w"
    using assms deliveries.put_log [OF gateway] by (auto simp: session_Create_def parts split: prod.splits sum.splits)
  assume "r = Inr ()"
  with assms obtain it where m: "MarshalSession P ?si = Inr it"
    and p: "PutItem (dynamodb_NewFromConfig P cfg) sessT it None w = (Inr (), w')"
    by (auto simp: session_Create_def parts split: prod.splits sum.splits)
  from dynamo.put_ok [OF db p] sess_marshal [OF m]
  show "tabs w' = set_item sessT [Some (AS token)] (Some (session_item ?si)) (tabs w)"
    by (simp add: put_effect_def sess_schema session_item_def)
qed
end

section \<open>Delivery and polls\<close>

context presenter
begin

lemma db_up_S: "dynamo_up (dynamodb_NewFromConfig P cfg) tabs sc view \<Longrightarrow> dynamo_up (cs_client S) tabs sc view"
  by simp

text \<open>A message to the room, and one to a single connection.\<close>

lemma send_room:
  obtains r w' oks where "Send (B d st) default_room payload excl w = Some (r, w')"
    "length oks \<le> length (filter (\<lambda>c. ConnectionID c \<noteq> excl) (conns_in_room w))"
    "r = Inr () \<longrightarrow> length oks = length (filter (\<lambda>c. ConnectionID c \<noteq> excl) (conns_in_room w))"
    "log w' = log w @ attempts (filter (\<lambda>c. ConnectionID c \<noteq> excl) (conns_in_room w)) payload oks"
    "pruned connT (refused (filter (\<lambda>c. ConnectionID c \<noteq> excl) (conns_in_room w)) oks) (tabs w) (tabs w')"
  unfolding bc_of_def
  by (rule deliveries.send_outcome [OF gateway, where ep1 = "newAPIGWEndpoint d st" and room = default_room
        and payload = payload and excl = excl and w = w, unfolded store_parts])

lemma send_single:
  assumes "SendToOne (B d st) default_room i payload w = (r, w')"
  obtains ok where "log w' = log w @ [(i, payload, ok)]" "ok \<longrightarrow> r = Inr ()"
    "pruned connT (if ok then {} else {ckey default_room i}) (tabs w) (tabs w')"
  by (rule deliveries.send_one [OF gateway assms [unfolded bc_of_def], unfolded store_parts])

lemma count_conns:
  "\<exists>r w'. CountByRoom S default_room w = Some (r, w') \<and> tabs w' = tabs w \<and> log w' = log w \<and>
    (\<forall>n. r = Inr n \<longrightarrow> n = int (length (conns_in_room w)))"
proof -
  have "\<And>q w qr w'. Query (cs_client S) q w = (qr, w') \<Longrightarrow> log w' = log w"
    using deliveries.query_log [OF gateway] .
  from connections_current.count_room [OF conn_cur, of log default_room w] this show ?thesis by auto
qed

text \<open>Poll operations reach neither the log nor another table.\<close>

lemma poll_log:
  "Get PS p v opts m pres w = (gr, w') \<Longrightarrow> log w' = log w"
  "Vote PS p v c w = (vr, w') \<Longrightarrow> log w' = log w"
  "Unvote PS p v c w = (vr, w') \<Longrightarrow> log w' = log w"
  "Switch PS p v a b w = (vr, w') \<Longrightarrow> log w' = log w"
proof -
  have fr: "\<And>w n w'. now_Unix PS w = (n, w') \<Longrightarrow> log w' = log w"
    "\<And>T it c w r w'. PutItem (client PS) T it c w = (r, w') \<Longrightarrow> log w' = log w"
    "\<And>T ky b w r w'. GetItem (client PS) T ky b w = (r, w') \<Longrightarrow> log w' = log w"
    "\<And>q w r w'. Query (client PS) q w = (r, w') \<Longrightarrow> log w' = log w"
    "\<And>ts w r w'. TransactWriteItems (client PS) ts w = (r, w') \<Longrightarrow> log w' = log w"
    using deliveries.now_log [OF gateway] deliveries.put_log [OF gateway] deliveries.get_log [OF gateway]
      deliveries.query_log [OF gateway] deliveries.transact_log [OF gateway] by (simp_all only: store_parts)
  note pf = poll_frames [where s = PS and f = log, OF fr]
  show "Get PS p v opts m pres w = (gr, w') \<Longrightarrow> log w' = log w" by (rule pf(3))
  show "Vote PS p v c w = (vr, w') \<Longrightarrow> log w' = log w" by (rule pf(4))
  show "Unvote PS p v c w = (vr, w') \<Longrightarrow> log w' = log w" by (rule pf(5))
  show "Switch PS p v a b w = (vr, w') \<Longrightarrow> log w' = log w" by (rule pf(6))
qed

lemma Get_reads: "Get PS p v opts m False w = (r, w') \<Longrightarrow> tabs w' = tabs w"
  by (auto simp: Get_def dest!: poll_store.get_meta_frame [OF poll_tab] poll_store.choices_frame [OF poll_tab]
      split: option.splits prod.splits sum.splits)

lemma Get_others: "Get PS p v opts m b w = (r, w') \<Longrightarrow> U \<noteq> pollT \<Longrightarrow> tabs w' U = tabs w U"
  using poll_store.Get_outcome [OF poll_tab, of p v opts m b w r w']
  by (auto simp: put_effect_def Let_def dest!: sym [of "set_item _ _ _ _"] split: if_splits)

definition poll_quiet :: "'w \<Rightarrow> 'w \<Rightarrow> bool" where
  "poll_quiet w w' \<longleftrightarrow> log w' = log w \<and> (\<forall>U. U \<noteq> pollT \<longrightarrow> tabs w' U = tabs w U) \<and>
     meta_max pollT (tabs w') = meta_max pollT (tabs w)"

lemma poll_keyed: "keyed_tab pollT (tabs w)"
  using dynamo.keyed [OF db, of w pollT] poll_store.schema [OF poll_tab] by simp

lemma Vote_quiet: "Vote PS p v c w = (r, w') \<Longrightarrow> poll_quiet w w'"
proof -
  assume V: "Vote PS p v c w = (r, w')"
  have "tabs w' = tabs w \<or> (\<exists>t. transact_effect sc (vote_items PS p v c t) (tabs w) = Some (tabs w'))"
    using poll_store.Vote_outcome [OF poll_tab V] by metis
  moreover have "poll_quiet w w'" if tx: "transact_effect sc (vote_items PS p v c t) (tabs w) = Some (tabs w')" for t
    using transact_other_table [OF tx, of pollT]
      vote_effect [where s = PS, OF _ _ tx] poll_keyed [of w] poll_store.schema [OF poll_tab] poll_log(2) [OF V]
    by (simp add: poll_quiet_def vote_items_def)
  ultimately show ?thesis using poll_log(2) [OF V] by (auto simp: poll_quiet_def)
qed

lemma Unvote_quiet: "Unvote PS p v c w = (r, w') \<Longrightarrow> poll_quiet w w'"
proof -
  assume V: "Unvote PS p v c w = (r, w')"
  have "tabs w' = tabs w \<or> transact_effect sc (unvote_items PS p v c) (tabs w) = Some (tabs w')"
    using poll_store.Unvote_outcome [OF poll_tab V] by metis
  moreover have "poll_quiet w w'" if tx: "transact_effect sc (unvote_items PS p v c) (tabs w) = Some (tabs w')"
    using transact_other_table [OF tx, of pollT]
      unvote_effect [where s = PS, OF _ _ tx] poll_keyed [of w] poll_store.schema [OF poll_tab] poll_log(3) [OF V]
    by (simp add: poll_quiet_def unvote_items_def)
  ultimately show ?thesis using poll_log(3) [OF V] by (auto simp: poll_quiet_def)
qed

lemma Switch_quiet: "Switch PS p v a b w = (r, w') \<Longrightarrow> poll_quiet w w'"
proof -
  assume V: "Switch PS p v a b w = (r, w')"
  have "tabs w' = tabs w \<or> (\<exists>t. transact_effect sc (switch_items PS p v a b t) (tabs w) = Some (tabs w'))"
    using poll_store.Switch_outcome [OF poll_tab V] by metis
  moreover have "poll_quiet w w'" if tx: "transact_effect sc (switch_items PS p v a b t) (tabs w) = Some (tabs w')" for t
    using transact_other_table [OF tx, of pollT]
      switch_effect [where s = PS, OF _ _ tx] poll_keyed [of w] poll_store.schema [OF poll_tab] poll_log(4) [OF V]
    by (simp add: poll_quiet_def switch_items_def)
  ultimately show ?thesis using poll_log(4) [OF V] by (auto simp: poll_quiet_def)
qed

lemma Get_quiet: "Get PS p v opts m False w = (r, w') \<Longrightarrow> poll_quiet w w'"
  using Get_reads poll_log(1) by (simp add: poll_quiet_def)

end
end
