(* ===== verification/Presenter_Messages.thy ===== *)
theory Presenter_Messages
  imports Presenter_System
begin
text \<open>
  What the message handler does with each kind of message, seen from outside: the tables and the
  log of delivery attempts.
\<close>

section \<open>What a connection without the presenter role can cause\<close>

context presenter
begin

definition quiet :: "string \<Rightarrow> 'w \<Rightarrow> 'w \<Rightarrow> bool" where
  "quiet i w w' \<longleftrightarrow> tabs w' stateT = tabs w stateT \<and> tabs w' sessT = tabs w sessT \<and>
     meta_max pollT (tabs w') = meta_max pollT (tabs w) \<and>
     (\<forall>k. tabs w' connT k \<noteq> None \<longrightarrow> tabs w' connT k = tabs w connT k) \<and>
     (\<exists>new. log w' = log w @ new \<and>
        (\<forall>a \<in> set new. fst a = i \<or> (\<exists>st. json_Marshal P (pollStateResponse st) = Inr (fst (snd a)))))"

lemma quiet_trans:
  assumes a: "quiet i w w1" and b: "quiet i w1 w2" shows "quiet i w w2"
proof -
  from a obtain n1 where n1: "log w1 = log w @ n1"
    "\<forall>a \<in> set n1. fst a = i \<or> (\<exists>st. json_Marshal P (pollStateResponse st) = Inr (fst (snd a)))"
    unfolding quiet_def by blast
  from b obtain n2 where n2: "log w2 = log w1 @ n2"
    "\<forall>a \<in> set n2. fst a = i \<or> (\<exists>st. json_Marshal P (pollStateResponse st) = Inr (fst (snd a)))"
    unfolding quiet_def by blast
  have l: "log w2 = log w @ (n1 @ n2)" using n1(1) n2(1) by simp
  have n: "\<forall>a \<in> set (n1 @ n2). fst a = i \<or> (\<exists>st. json_Marshal P (pollStateResponse st) = Inr (fst (snd a)))"
    using n1(2) n2(2) by (auto simp del: ex_simps)
  have c: "\<forall>k. tabs w2 connT k \<noteq> None \<longrightarrow> tabs w2 connT k = tabs w connT k"
    using a b unfolding quiet_def by metis
  show ?thesis unfolding quiet_def
    by (intro conjI exI [of _ "n1 @ n2"]) (use a b l n c in \<open>simp_all only: quiet_def\<close>)
qed

lemma quiet_same: "tabs w' = tabs w \<Longrightarrow> log w' = log w \<Longrightarrow> quiet i w w'"
  by (simp add: quiet_def)

lemma quiet_poll: "poll_quiet w w' \<Longrightarrow> quiet i w w'"
  by (simp add: quiet_def poll_quiet_def)

lemma meta_max_cong: "tb' T = tb T \<Longrightarrow> meta_max T tb' = meta_max T tb"
  by (simp add: meta_max_def fun_eq_iff)

lemma quiet_pruned:
  assumes "pruned connT ks (tabs w) (tabs w')" and "log w' = log w @ new"
    and "\<And>a. a \<in> set new \<Longrightarrow> fst a = i \<or> (\<exists>st. json_Marshal P (pollStateResponse st) = Inr (fst (snd a)))"
  shows "quiet i w w'"
proof -
  have "\<forall>k. tabs w' connT k \<noteq> None \<longrightarrow> tabs w' connT k = tabs w connT k"
    using assms(1) unfolding pruned_def by metis
  with pruned_other [OF assms(1)] assms(2,3) meta_max_cong [of "tabs w'" pollT "tabs w"]
  show ?thesis by (simp add: quiet_def)
qed

lemma quiet_single:
  assumes "SendToOne (B d st) default_room i payload w = (r, w')"
  shows "quiet i w w'"
proof -
  from assms obtain ok where "log w' = log w @ [(i, payload, ok)]"
    "pruned connT (if ok then {} else {ckey default_room i}) (tabs w) (tabs w')" by (rule send_single)
  from quiet_pruned [OF this(2,1)] show ?thesis by simp
qed

lemma quiet_room:
  assumes "json_Marshal P (pollStateResponse ps) = Inr payload"
    and "Send (B d st) default_room payload excl w = Some (r, w')"
  shows "quiet i w w'"
proof -
  obtain r1 w1 oks where s: "Send (B d st) default_room payload excl w = Some (r1, w1)"
    and l: "log w1 = log w @ attempts (filter (\<lambda>c. ConnectionID c \<noteq> excl) (conns_in_room w)) payload oks"
    and p: "pruned connT (refused (filter (\<lambda>c. ConnectionID c \<noteq> excl) (conns_in_room w)) oks) (tabs w) (tabs w1)"
    by (rule send_room)
  from s assms(2) have "w' = w1" by simp
  with quiet_pruned [OF p l] attempts_targets assms(1) show ?thesis by blast
qed

lemma quiet_send_json: "send_json H i v what (D d st) w = (r, w') \<Longrightarrow> quiet i w w'"
  by (auto simp: send_json_def quiet_same dest: quiet_single split: sum.splits prod.splits)

lemma quiet_error: "sendError H i msg (D d st) w = (r, w') \<Longrightarrow> quiet i w w'"
  unfolding sendError_def by (rule quiet_send_json)

lemma quiet_broadcast: "broadcastPollState H ps (D d st) w = Some (r, w') \<Longrightarrow> quiet i w w'"
  by (auto simp: broadcastPollState_def quiet_same dest: quiet_room split: sum.splits option.splits prod.splits)

lemma poll_call_iff: "poll_call x = (r, w') \<longleftrightarrow> (\<exists>y. x = (y, w') \<and> r = map_sum (map_go_error Poll_error) id y)"
  by (cases x) (auto simp: poll_call_def)

lemma quiet_refresh:
  assumes "refreshAndBroadcastPoll H p i (D d st) w = Some (r, w')"
  shows "quiet j w w'"
proof -
  obtain g w1 where g: "Get PS p i None 0 False w = (g, w1)" by fastforce
  note q = quiet_poll [OF Get_quiet [OF g]]
  show ?thesis
  proof (cases g)
    case (Inl e)
    with assms g q show ?thesis by (simp add: refreshAndBroadcastPoll_def poll_call_def)
  next
    case (Inr ps)
    with assms g have "broadcastPollState H ps (D d st) w1 = Some (r, w')"
      by (simp add: refreshAndBroadcastPoll_def poll_call_def)
    from quiet_trans [OF q quiet_broadcast [OF this]] show ?thesis .
  qed
qed

lemma quiet_poll_error:
  assumes "handlePollError H i p v err (D d st) w = (r, w')"
  shows "quiet i w w'"
proof -
  obtain g w1 where g: "Get PS p v None 0 False w = (g, w1)" by fastforce
  note q = quiet_poll [OF Get_quiet [OF g]]
  from assms g q show ?thesis
    by (cases g) (auto simp: handlePollError_def poll_call_def quiet_same split: if_splits
        dest: quiet_error quiet_trans [OF q quiet_send_json])
qed

lemma quiet_slide:
  assumes r: "role_in connT (tabs w) i \<noteq> Some ''presenter''"
    and h: "handleSlideSync H i msg (D d st) w = Some (resp, w')"
  shows "quiet i w w'"
proof -
  obtain g w1 where g: "conn_Get S default_room i w = (g, w1)" by fastforce
  note s1 = quiet_same [OF get_conn(1,2) [OF g], of i]
  have "\<exists>err. slideSync (D d st) default_room i (im_Page msg) w = Some (Inl err, w1)"
    using g r get_conn_role [of i w _ w1] by (cases g) (auto simp: slidesync_Handle_def)
  with h obtain err where "sendError H i (Error_text (ext_Error P) err) (D d st) w1 = (resp, w')"
    by (auto simp: handleSlideSync_def)
  from quiet_trans [OF s1 quiet_error [OF this]] show ?thesis .
qed

lemma quiet_hands_on:
  assumes r: "role_in connT (tabs w) i \<noteq> Some ''presenter''"
    and h: "handleHandsOn H i msg (D d st) w = Some (resp, w')"
  shows "quiet i w w'"
proof -
  obtain g w1 where g: "conn_Get S default_room i w = (g, w1)" by fastforce
  note s1 = quiet_same [OF get_conn(1,2) [OF g], of i]
  have "\<exists>err. handsOn (D d st) default_room i (im_Instruction msg) (im_Placeholder msg) w = Some (Inl err, w1)"
    using g r get_conn_role [of i w _ w1] by (cases g) (auto simp: handson_Handle_def)
  with h obtain err where "sendError H i (Error_text (ext_Error P) err) (D d st) w1 = (resp, w')"
    by (auto simp: handleHandsOn_def)
  from quiet_trans [OF s1 quiet_error [OF this]] show ?thesis .
qed

lemma quiet_count:
  assumes h: "handleViewerCount H i (D d st) w = Some (resp, w')"
  shows "quiet i w w'"
proof -
  from count_conns [of w] obtain r w1 where c: "CountByRoom S default_room w = Some (r, w1)"
    "tabs w1 = tabs w" "log w1 = log w" by blast
  from c(2,3) have s1: "quiet i w w1" by (rule quiet_same)
  from h c(1) s1 show ?thesis
    by (auto simp: handleViewerCount_def viewercount_Handle_def split: sum.splits prod.splits option.splits
        dest!: quiet_single intro: quiet_trans)
qed

lemma quiet_get_state: "handleGetState H i (D d st) w = (resp, w') \<Longrightarrow> quiet i w w'"
proof -
  assume h: "handleGetState H i (D d st) w = (resp, w')"
  obtain g w1 where g: "GetState RS default_room w = (g, w1)" by fastforce
  note s1 = quiet_same [OF get_state(1,2) [OF g], of i]
  from h g s1 show ?thesis
    by (cases g) (auto simp: handleGetState_def dest!: quiet_send_json intro: quiet_trans)
qed

lemma quiet_poll_open:
  assumes r: "role_in connT (tabs w) i \<noteq> Some ''presenter''"
    and h: "handlePollOpen H i msg (D d st) w = Some (resp, w')"
  shows "quiet i w w'"
proof -
  obtain g w1 where g: "conn_Get S default_room i w = (g, w1)" by fastforce
  note s1 = quiet_same [OF get_conn(1,2) [OF g], of i]
  from h g r s1 get_conn_role [of i w _ w1] show ?thesis
    by (cases g) (auto simp: handlePollOpen_def split: if_splits dest!: quiet_error intro: quiet_trans)
qed

lemma quiet_poll_get:
  assumes r: "role_in connT (tabs w) i \<noteq> Some ''presenter''"
    and h: "handlePollGet H i msg (D d st) w = (resp, w')"
  shows "quiet i w w'"
proof -
  obtain g w1 where g: "conn_Get S default_room i w = (g, w1)" by fastforce
  note s1 = quiet_same [OF get_conn(1,2) [OF g], of i]
  obtain y w2 where y: "Get PS (im_PollID msg) i (im_Options msg) (im_MaxChoices msg) False w1 = (y, w2)" by fastforce
  note s2 = quiet_trans [OF s1 quiet_poll [OF Get_quiet [OF y]]]
  show ?thesis
  proof (cases g)
    case (Inl e)
    with h g s1 show ?thesis by (auto simp: handlePollGet_def split: if_splits dest: quiet_error)
  next
    case (Inr c)
    with g r get_conn_role have "Role c \<noteq> ''presenter''" by auto
    with h g Inr y s1 s2 show ?thesis
      by (cases y) (auto simp: handlePollGet_def poll_call_def sendPollState_def split: if_splits
          dest!: quiet_error quiet_send_json intro: quiet_trans)
  qed
qed

lemma quiet_votes:
  "handlePollVote H i msg (D d st) w = Some (resp, w') \<Longrightarrow> quiet i w w'"
  "handlePollUnvote H i msg (D d st) w = Some (resp, w') \<Longrightarrow> quiet i w w'"
  "handlePollSwitch H i msg (D d st) w = Some (resp, w') \<Longrightarrow> quiet i w w'"
proof -
  have rest: "quiet i w w'"
    if "quiet i w w1" "(case y of Inl err \<Rightarrow> Some (handlePollError H i p i (map_go_error Poll_error err) (D d st) w1)
        | Inr _ \<Rightarrow> refreshAndBroadcastPoll H p i (D d st) w1) = Some (resp, w')" for w1 p and y :: "perr + unit"
    using that by (cases y) (auto dest!: quiet_poll_error quiet_refresh [where j = i] intro: quiet_trans)
  show "quiet i w w'" if h: "handlePollVote H i msg (D d st) w = Some (resp, w')"
  proof (cases "im_PollID msg = [] \<or> im_Choice msg = []")
    case True
    with h show ?thesis by (auto simp: handlePollVote_def dest: quiet_error)
  next
    case False
    obtain y w1 where y: "Vote PS (im_PollID msg) i (im_Choice msg) w = (y, w1)" by fastforce
    from rest [where y = y and p = "im_PollID msg", OF quiet_poll [OF Vote_quiet [OF y]]] h y False show ?thesis
      by (cases y) (simp_all add: handlePollVote_def poll_call_def)
  qed
  show "quiet i w w'" if h: "handlePollUnvote H i msg (D d st) w = Some (resp, w')"
  proof (cases "im_PollID msg = [] \<or> im_Choice msg = []")
    case True
    with h show ?thesis by (auto simp: handlePollUnvote_def dest: quiet_error)
  next
    case False
    obtain y w1 where y: "Unvote PS (im_PollID msg) i (im_Choice msg) w = (y, w1)" by fastforce
    from rest [where y = y and p = "im_PollID msg", OF quiet_poll [OF Unvote_quiet [OF y]]] h y False show ?thesis
      by (cases y) (simp_all add: handlePollUnvote_def poll_call_def)
  qed
  show "quiet i w w'" if h: "handlePollSwitch H i msg (D d st) w = Some (resp, w')"
  proof (cases "im_PollID msg = [] \<or> im_From msg = [] \<or> im_To msg = [] \<or> im_From msg = im_To msg")
    case True
    with h show ?thesis by (auto simp: handlePollSwitch_def split: if_splits dest: quiet_error)
  next
    case False
    obtain y w1 where y: "Switch PS (im_PollID msg) i (im_From msg) (im_To msg) w = (y, w1)" by fastforce
    from rest [where y = y and p = "im_PollID msg", OF quiet_poll [OF Switch_quiet [OF y]]] h y False show ?thesis
      by (cases y) (simp_all add: handlePollSwitch_def poll_call_def)
  qed
qed

lemma viewer_quiet:
  assumes r: "role_in connT (tabs w) (rq_ConnectionID req) \<noteq> Some ''presenter''"
    and h: "message_handle H req w = Some (resp, w')"
  shows "quiet (rq_ConnectionID req) w w'"
proof (cases "json_Unmarshal P (rq_Body req)")
  case (Inl e)
  with h show ?thesis by (auto simp: message_handle_def quiet_same)
next
  case (Inr msg)
  with h have "dispatch H (rq_ConnectionID req) msg (D (rq_DomainName req) (rq_Stage req)) w = Some (resp, w')"
    by (simp add: message_handle_def deps_of_def)
  then show ?thesis
    by (auto simp: dispatch_def split: if_splits intro: quiet_slide [OF r] quiet_hands_on [OF r] quiet_count
        quiet_get_state quiet_poll_open [OF r] quiet_poll_get [OF r] quiet_votes quiet_error)
qed

end
end
