(* ===== verification/Presenter_Flows.thy ===== *)
theory Presenter_Flows
  imports Presenter_Messages
begin
text \<open>
  Slides from the presenter to the viewers, the connections of the room and their number, the
  spreading of votes, and the login.
\<close>

section \<open>Slides\<close>

abbreviation but :: "Connection list \<Rightarrow> string \<Rightarrow> Connection list" where
  "but cs i \<equiv> filter (\<lambda>c. ConnectionID c \<noteq> i) cs"

text \<open>The payload went to everybody of the room but one, once each; who could not be reached may
  have lost the row.\<close>

definition told :: "string \<Rightarrow> tables \<Rightarrow> string \<Rightarrow> string \<Rightarrow> attempt list \<Rightarrow> tables \<Rightarrow> bool" where
  "told T tb excl payload new tb' \<longleftrightarrow>
     (\<exists>cs oks. room_listing T default_room tb cs \<and> length oks = length (but cs excl) \<and>
        new = attempts (but cs excl) payload oks \<and> pruned T (refused (but cs excl) oks) tb tb')"

context presenter
begin

lemma listing: "room_listing connT default_room (tabs w) (conns_in_room w)"
  using connections_current.items_listing [OF conn_cur, of default_room w] by simp

lemma told_room:
  assumes "Send (B d st) default_room payload excl w = Some (Inr (), w')"
  shows "\<exists>new. log w' = log w @ new \<and> told connT (tabs w) excl payload new (tabs w')"
proof -
  obtain sr w1 oks where s: "Send (B d st) default_room payload excl w = Some (sr, w1)"
    "sr = Inr () \<longrightarrow> length oks = length (but (conns_in_room w) excl)"
    "log w1 = log w @ attempts (but (conns_in_room w) excl) payload oks"
    "pruned connT (refused (but (conns_in_room w) excl) oks) (tabs w) (tabs w1)" by (rule send_room)
  from s(1) assms have "sr = Inr ()" "w1 = w'" by simp_all
  with s(2-4) listing [of w] show ?thesis unfolding told_def by blast
qed

lemma slide_saved:
  assumes h: "slideSync (D d st) default_room i page w = Some (Inr (), w')"
  shows "role_in connT (tabs w) i = Some ''presenter''"
    "\<exists>payload new tb. json_Marshal P (slideSyncMessage page) = Inr payload \<and> tb connT = tabs w connT \<and>
       log w' = log w @ new \<and> told connT tb i payload new (tabs w')"
    "tabs w' stateT [Some (AS default_room)] = Some (room_item \<lparr>st_Room = default_room, st_Page = page\<rparr>)"
proof -
  let ?r = "room_item \<lparr>st_Room = default_room, st_Page = page\<rparr>"
  obtain g w1 where g: "conn_Get S default_room i w = (g, w1)" by fastforce
  from h g obtain c where c: "g = Inr c" "Role c = ''presenter''"
    by (cases g) (auto simp: slidesync_Handle_def split: if_splits)
  with h g obtain payload where p: "json_Marshal P (slideSyncMessage page) = Inr payload"
    by (auto simp: slidesync_Handle_def split: sum.splits)
  obtain pr w2 where s: "PutState RS default_room page w1 = (pr, w2)" by fastforce
  with h g c p have pr: "pr = Inr ()" by (cases pr) (auto simp: slidesync_Handle_def)
  from h g c p s pr have x: "Send (B d st) default_room payload i w2 = Some (Inr (), w')"
    by (auto simp: slidesync_Handle_def split: option.splits sum.splits prod.splits)
  from told_room [OF x] obtain new where n: "log w' = log w2 @ new" "told connT (tabs w2) i payload new (tabs w')"
    by blast
  show "role_in connT (tabs w) i = Some ''presenter''"
    using get_conn_role [OF g [unfolded c(1)]] c(2) by simp
  note t1 = get_conn(1,2) [OF g]
  have "tabs w2 connT = tabs w connT" "log w2 = log w"
    using put_state(2) [OF s, of connT] put_state(1) [OF s] t1 by simp_all
  with n p show "\<exists>payload new tb. json_Marshal P (slideSyncMessage page) = Inr payload \<and> tb connT = tabs w connT \<and>
       log w' = log w @ new \<and> told connT tb i payload new (tabs w')" by metis
  from n(2) have "tabs w' stateT = tabs w2 stateT"
    unfolding told_def using pruned_other by (metis tables_ne(5))
  with put_state(3) [OF s pr] show "tabs w' stateT [Some (AS default_room)] = Some ?r" by simp
qed

lemma state_shown:
  assumes "tabs w stateT [Some (AS default_room)] = Some (room_item \<lparr>st_Room = default_room, st_Page = page\<rparr>)"
    and h: "handleGetState H j (D d st) w = ((200, None), w')"
  shows "\<exists>payload ok. json_Marshal P (slideSyncResponse page) = Inr payload \<and> log w' = log w @ [(j, payload, ok)]"
proof -
  obtain g w1 where g: "GetState RS default_room w = (g, w1)" by fastforce
  with h obtain n where n: "g = Inr n" by (cases g) (auto simp: handleGetState_def fail_def)
  from get_state(3) [OF g n] assms(1) have "n = page" by (simp add: room_item_def int_attr_def)
  with h g n obtain payload where p: "json_Marshal P (slideSyncResponse page) = Inr payload"
    by (auto simp: handleGetState_def send_json_def fail_def split: sum.splits)
  obtain sr w2 where s: "SendToOne (B d st) default_room j payload w1 = (sr, w2)" by fastforce
  with h g n \<open>n = page\<close> p have "w' = w2"
    by (auto simp: handleGetState_def send_json_def split: sum.splits)
  moreover from s obtain ok where "log w2 = log w1 @ [(j, payload, ok)]" by (rule send_single)
  ultimately show ?thesis using p get_state(2) [OF g] by simp
qed

text \<open>The number of connections.\<close>

lemma announce_outcome:
  assumes "announce_count (CountByRoom S) (json_Marshal P) (B d st) excl w = Some ((200, None), w')"
  shows "\<exists>payload new. json_Marshal P (ViewerCountMessage (room_size connT default_room (tabs w))) = Inr payload \<and>
    log w' = log w @ new \<and> told connT (tabs w) excl payload new (tabs w')"
proof -
  from count_conns [of w] obtain cr w1 where c: "CountByRoom S default_room w = Some (cr, w1)"
    "tabs w1 = tabs w" "log w1 = log w" "\<forall>n. cr = Inr n \<longrightarrow> n = int (length (conns_in_room w))" by blast
  from assms c(1) obtain n where n: "cr = Inr n"
    by (cases cr) (auto simp: announce_count_def fail_def)
  with c(4) listing_size [OF listing, of w] have sz: "n = room_size connT default_room (tabs w)" by simp
  from assms c(1) n obtain payload where p: "json_Marshal P (ViewerCountMessage n) = Inr payload"
    by (auto simp: announce_count_def fail_def split: sum.splits)
  from assms c(1) n p have "Send (B d st) default_room payload excl w1 = Some (Inr (), w')"
    by (auto simp: announce_count_def fail_def split: option.splits sum.splits prod.splits)
  from told_room [OF this] c(2,3) p sz show ?thesis by auto
qed

lemma told_keeps:
  "told T tb excl payload new tb' \<Longrightarrow> tb' T (ckey default_room excl) = tb T (ckey default_room excl)"
proof -
  assume "told T tb excl payload new tb'"
  then obtain cs oks where p: "pruned T (refused (but cs excl) oks) tb tb'" unfolding told_def by blast
  have "ckey default_room excl \<notin> refused (but cs excl) oks"
    by (auto simp: refused_def dest: set_zip_leftD)
  with p show ?thesis unfolding pruned_def by blast
qed

lemma connect_outcome:
  assumes h: "connect_handle (connect_handler_of P cfg connT sessT) req w = Some ((200, None), w')"
  defines "token \<equiv> extractCookie (if rq_Headers req ''cookie'' = [] then rq_Headers req ''Cookie''
      else rq_Headers req ''cookie'') ''slide_auth''"
    and "i \<equiv> rq_ConnectionID req"
  defines "role \<equiv> if token_valid sessT (tabs w) token then ''presenter'' else ''viewer''"
  shows "role_in connT (tabs w') i = Some role \<and>
    (\<exists>t tb payload new. tb = set_item connT (ckey default_room i)
       (Some (conn_item \<lparr>Room = default_room, ConnectionID = i, Role = role, conn_TTL = t\<rparr>)) (tabs w) \<and>
     json_Marshal P (ViewerCountMessage (room_size connT default_room tb)) = Inr payload \<and>
     log w' = log w @ new \<and> told connT tb i payload new (tabs w'))"
proof -
  let ?h = "connect_handler_of P cfg connT sessT" and ?ss = "connection_NewSessionStore (dynamodb_NewFromConfig P cfg) sessT"
  let ?b = "B (rq_DomainName req) (rq_Stage req)"
  have parts: "ch_IsValid ?h = IsValid ?ss" "ch_Put ?h = conn_Put S" "ch_CountByRoom ?h = CountByRoom S"
    "ch_jsonMarshal ?h = json_Marshal P" "ch_newBroadcaster ?h (rq_DomainName req) (rq_Stage req) = ?b"
    by (simp_all add: connect_handler_of_def new_connectHandler_def bc_of_def)
  obtain vr w1 where v: "IsValid ?ss token w = (vr, w1)" by fastforce
  with h parts obtain valid where valid: "vr = Inr valid"
    by (cases vr) (auto simp: connect_handle_def token_def fail_def Let_def)
  note t1 = is_valid(1,2) [OF v] and vv = is_valid(3) [OF v valid]
  have role: "role = (if valid then ''presenter'' else ''viewer'')" by (simp add: role_def vv)
  let ?c = "\<lparr>Room = default_room, ConnectionID = i, Role = role, conn_TTL = 0\<rparr>"
  obtain pr w2 where p: "conn_Put S ?c w1 = (pr, w2)" by fastforce
  with h parts v valid have pr: "pr = Inr ()"
    by (cases pr) (auto simp: connect_handle_def token_def fail_def Let_def i_def role)
  from h parts v valid p pr
  have a: "announce_count (CountByRoom S) (json_Marshal P) ?b i w2 = Some ((200, None), w')"
    by (simp add: connect_handle_def token_def Let_def i_def role)
  from connections.put_outcome [OF conn_tab p [unfolded pr]] t1 obtain t where
    t2: "tabs w2 = set_item connT (ckey default_room i) (Some (conn_item (?c\<lparr>conn_TTL := t\<rparr>))) (tabs w)" by auto
  have l2: "log w2 = log w" using deliveries.conn_put_log [OF gateway p] t1 by simp
  from announce_outcome [OF a] obtain payload new where o:
    "json_Marshal P (ViewerCountMessage (room_size connT default_room (tabs w2))) = Inr payload"
    "log w' = log w2 @ new" "told connT (tabs w2) i payload new (tabs w')" by blast
  from told_keeps [OF o(3)] t2 have "role_in connT (tabs w') i = Some role"
    by (simp add: role_in_def conn_item_def str_attr_def)
  with o t2 l2 show ?thesis by auto
qed

lemma disconnect_outcome:
  assumes h: "disconnect_handle (disconnect_handler_of P cfg connT) req w = Some ((200, None), w')"
  defines "i \<equiv> rq_ConnectionID req"
  shows "role_in connT (tabs w') i = None \<and>
    (\<exists>tb payload new. tb = set_item connT (ckey default_room i) None (tabs w) \<and>
     json_Marshal P (ViewerCountMessage (room_size connT default_room tb)) = Inr payload \<and>
     log w' = log w @ new \<and> told connT tb [] payload new (tabs w'))"
proof -
  let ?h = "disconnect_handler_of P cfg connT" and ?b = "B (rq_DomainName req) (rq_Stage req)"
  have parts: "dh_Delete ?h = conn_Delete S" "dh_CountByRoom ?h = CountByRoom S"
    "dh_jsonMarshal ?h = json_Marshal P" "dh_newBroadcaster ?h (rq_DomainName req) (rq_Stage req) = ?b"
    by (simp_all add: disconnect_handler_of_def new_disconnectHandler_def bc_of_def)
  obtain dr w1 where dl: "conn_Delete S default_room i w = (dr, w1)" by fastforce
  with h parts have dr: "dr = Inr ()" by (cases dr) (auto simp: disconnect_handle_def fail_def i_def)
  from connections.delete_outcome [OF conn_tab dl] dr
  have t1: "tabs w1 = set_item connT (ckey default_room i) None (tabs w)" by simp
  have l1: "log w1 = log w" by (rule deliveries.conn_delete_log [OF gateway dl])
  from h parts dl dr have a: "announce_count (CountByRoom S) (json_Marshal P) ?b [] w1 = Some ((200, None), w')"
    by (simp add: disconnect_handle_def i_def)
  from announce_outcome [OF a] obtain payload new where o:
    "json_Marshal P (ViewerCountMessage (room_size connT default_room (tabs w1))) = Inr payload"
    "log w' = log w1 @ new" "told connT (tabs w1) [] payload new (tabs w')" by blast
  from o(3) t1 have "tabs w' connT (ckey default_room i) = None"
    unfolding told_def by (auto intro: pruned_keep)
  with o t1 l1 show ?thesis by (auto simp: role_in_def)
qed

end

section \<open>Votes\<close>

context presenter
begin

lemma send_json_ok:
  assumes "send_json H i v what (D d st) w = ((200, None), w')"
  shows "\<exists>payload ok. json_Marshal P v = Inr payload \<and> log w' = log w @ [(i, payload, ok)] \<and>
    tabs w' pollT = tabs w pollT"
proof -
  from assms obtain payload where p: "json_Marshal P v = Inr payload"
    by (auto simp: send_json_def fail_def split: sum.splits)
  obtain sr w1 where s: "SendToOne (B d st) default_room i payload w = (sr, w1)" by fastforce
  with assms p have "w' = w1" by (auto simp: send_json_def split: sum.splits)
  moreover from s obtain ok where "log w1 = log w @ [(i, payload, ok)]"
    "pruned connT (if ok then {} else {ckey default_room i}) (tabs w) (tabs w1)" by (rule send_single)
  ultimately show ?thesis using p pruned_other tables_ne(4) by blast
qed

lemma broadcast_ok:
  assumes "broadcastPollState H ps (D d st) w = Some ((200, None), w')"
  shows "\<exists>payload new. json_Marshal P (pollStateResponse ps) = Inr payload \<and> log w' = log w @ new \<and>
    told connT (tabs w) [] payload new (tabs w')"
proof -
  from assms obtain payload where p: "json_Marshal P (pollStateResponse ps) = Inr payload"
    by (auto simp: broadcastPollState_def fail_def split: sum.splits)
  with assms have "Send (B d st) default_room payload [] w = Some (Inr (), w')"
    by (auto simp: broadcastPollState_def fail_def split: option.splits sum.splits prod.splits)
  from told_room [OF this] p show ?thesis by blast
qed

lemma refresh_ok:
  assumes "refreshAndBroadcastPoll H p i (D d st) w = Some ((200, None), w')" and "visitor_ok i"
    and "poll_inv poll_ks pollT (tabs w)"
  shows "\<exists>ps payload new. ps_PollID ps = p \<and> distinct (ps_MyChoices ps) \<and>
    set (ps_MyChoices ps) = my_votes pollT (tabs w) p i \<and>
    json_Marshal P (pollStateResponse ps) = Inr payload \<and> log w' = log w @ new \<and>
    told connT (tabs w) [] payload new (tabs w')"
proof -
  obtain g w1 where g: "Get PS p i None 0 False w = (g, w1)" by fastforce
  from assms(1) g obtain ps where ps: "g = Inr ps"
    by (cases g) (auto simp: refreshAndBroadcastPoll_def poll_call_def fail_def)
  with assms(1) g have b: "broadcastPollState H ps (D d st) w1 = Some ((200, None), w')"
    by (simp add: refreshAndBroadcastPoll_def poll_call_def)
  from g ps obtain m w2 mc where m: "getMeta PS p w = (Inr m, w2)" and mc: "getMyChoices PS p i w2 = (Inr mc, w1)"
    and pe: "ps_PollID ps = PollID m" "ps_MyChoices ps = mc"
    by (auto simp: Get_def split: prod.splits sum.splits)
  have t2: "tabs w2 = tabs w" by (rule poll_store.get_meta_frame [OF poll_tab m])
  from poll_store_current.get_meta_current [OF poll_table m] obtain it where
    it: "tabs w pollT (pkey p metaSK) = Some it" "m = meta_of it" by auto
  have "PollID m = p"
    using dynamo.keyed [OF db it(1)] poll_store.schema [OF poll_tab] it(2) by (simp add: meta_of_def str_attr_def)
  moreover have "distinct mc" "set mc = my_votes pollT (tabs w) p i"
    using poll_store_current.my_choices_current [OF poll_table mc assms(2)] t2 assms(3) by simp_all
  moreover have "tabs w1 = tabs w" "log w1 = log w" using Get_reads [OF g] poll_log(1) [OF g] by simp_all
  ultimately show ?thesis using broadcast_ok [OF b] pe by auto
qed

lemma poll_error_ok:
  assumes "handlePollError H i p v err (D d st) w = ((200, None), w')"
  shows "isPollBusinessError err" "\<exists>payload ok. log w' = log w @ [(i, payload, ok)]" "tabs w' pollT = tabs w pollT"
proof -
  from assms show be: "isPollBusinessError err" by (auto simp: handlePollError_def fail_def split: if_splits)
  have "(\<exists>payload ok. log w' = log w @ [(i, payload, ok)]) \<and> tabs w' pollT = tabs w pollT"
  proof (cases "errors_is err (Poll_error ErrPollNotFound)")
    case True
    with assms be have "sendError H i (Error_text (ext_Error P) err) (D d st) w = ((200, None), w')"
      by (simp add: handlePollError_def)
    from send_json_ok [OF this [unfolded sendError_def]] show ?thesis by blast
  next
    case False
    obtain g w1 where g: "Get PS p v None 0 False w = (g, w1)" by fastforce
    with assms be False obtain ps where "g = Inr ps"
      by (cases g) (auto simp: handlePollError_def poll_call_def fail_def)
    with assms be False g have
      "send_json H i (pollErrorResponse p (Error_text (ext_Error P) err) ps) ''poll_error'' (D d st) w1 = ((200, None), w')"
      by (simp add: handlePollError_def poll_call_def)
    from send_json_ok [OF this] Get_reads [OF g] poll_log(1) [OF g] show ?thesis by auto
  qed
  then show "\<exists>payload ok. log w' = log w @ [(i, payload, ok)]" "tabs w' pollT = tabs w pollT" by auto
qed

text \<open>What becomes of a vote that is answered with 200.\<close>

lemma vote_answered:
  assumes h: "handlePollVote H i msg (D d st) w = Some ((200, None), w')"
    and ne: "im_PollID msg \<noteq> []" "im_Choice msg \<noteq> []" and v: "visitor_ok i"
    and inv: "poll_inv poll_ks pollT (tabs w)" and vote: "Vote PS (im_PollID msg) i (im_Choice msg) w = (r, w1)"
  shows "case r of
      Inr _ \<Rightarrow> \<exists>ps payload new. ps_PollID ps = im_PollID msg \<and>
        set (ps_MyChoices ps) = my_votes pollT (tabs w1) (im_PollID msg) i \<and>
        json_Marshal P (pollStateResponse ps) = Inr payload \<and> log w' = log w @ new \<and>
        told connT (tabs w1) [] payload new (tabs w')
    | Inl err \<Rightarrow> tabs w' pollT = tabs w pollT \<and> (\<exists>payload ok. log w' = log w @ [(i, payload, ok)])"
proof (cases r)
  case (Inr u)
  with h ne vote have "refreshAndBroadcastPoll H (im_PollID msg) i (D d st) w1 = Some ((200, None), w')"
    by (simp add: handlePollVote_def poll_call_def)
  moreover have "poll_inv poll_ks pollT (tabs w1)"
    using poll_store.Vote_wrote [OF poll_tab vote v] inv
      write_inv [where sc = sc and s = PS and tb = "tabs w" and tb' = "tabs w1", OF poll_store.schema [OF poll_tab]]
    by auto
  ultimately show ?thesis using refresh_ok [OF _ v] poll_log(2) [OF vote] Inr by fastforce
next
  case (Inl err)
  with h ne vote have e: "handlePollError H i (im_PollID msg) i (map_go_error Poll_error err) (D d st) w1 = ((200, None), w')"
    by (simp add: handlePollVote_def poll_call_def)
  have "tabs w1 = tabs w \<or> (\<exists>e. err = Wrapf ''transact vote'' (Foreign e))"
    by (rule poll_store.Vote_outcome [OF poll_tab vote]) (use Inl in auto)
  with poll_error_ok(1) [OF e] have "tabs w1 = tabs w" by (auto simp: isPollBusinessError_def)
  with poll_error_ok(2,3) [OF e] poll_log(2) [OF vote] Inl show ?thesis by simp
qed

end

section \<open>Login\<close>

text \<open>What a browser sends back of a cookie it was told to set.\<close>

definition browser_cookie :: "string \<Rightarrow> string" where
  "browser_cookie set_cookie = takeWhile (\<lambda>c. c \<noteq> CHR '';'') set_cookie"

lemma slide_auth_token: "isToken ''slide_auth''"
  by (simp add: isToken_def is_token_char_def less_eq_char_def)

lemma cookie_returned:
  assumes "isToken tok"
  shows "Request_Cookie (browser_cookie (auth_cookie tok)) ''slide_auth'' = Some tok"
proof -
  have "CHR '';'' \<notin> set tok" using assms by (auto simp: isToken_def list_all_iff dest: is_token_charD)
  then have "browser_cookie (auth_cookie tok) = ''slide_auth'' @ ''='' @ tok"
    by (simp add: browser_cookie_def auth_cookie_def) (subst takeWhile_append2; auto)
  with cookie_roundtrip [OF slide_auth_token assms] show ?thesis by simp
qed

context presenter
begin

abbreviation L :: "string \<Rightarrow> 'w login_vars" where
  "L arn \<equiv> new_login P cfg arn (dynamodb_NewFromConfig P cfg) sessT"

lemma login_parts [simp]:
  "secretGetter (L arn) = secrets_NewFromConfig P cfg" "secretARN (L arn) = arn"
  "sessCreator (L arn) = session_Create (session_NewStore P (dynamodb_NewFromConfig P cfg) sessT)"
  "sessValidator (L arn) = IsValid (connection_NewSessionStore (dynamodb_NewFromConfig P cfg) sessT)"
  "tokenFn (L arn) = generateToken (rand_ReadFull P)" "compareHashFn (L arn) = bcrypt_Compare P"
  "lg_jsonMarshal (L arn) = json_Marshal P" "jsonUnmarshalLogin (L arn) = json_Unmarshal_login P"
  by (simp_all add: new_login_def)

lemma login_accepted:
  assumes h: "handlePost (L arn) req w = (resp, w')" and "StatusCode resp = 302"
  shows "\<exists>tok hash pw w1. Cookies resp = [auth_cookie tok] \<and> length tok = 64 \<and> isToken tok \<and>
    token_valid sessT (tabs w') tok \<and> json_Unmarshal_login P (hr_Body req) = Inr pw \<and>
    secrets_NewFromConfig P cfg arn w = (Inr (Some hash), w1) \<and> bcrypt_Compare P hash pw = Hash_ok"
proof -
  from assms obtain pw where pw: "json_Unmarshal_login P (hr_Body req) = Inr pw"
    by (auto simp: handlePost_def respond_def Let_def split: sum.splits)
  obtain sr w1 where s: "secrets_NewFromConfig P cfg arn w = (sr, w1)" by fastforce
  from assms pw s obtain hash where hash: "sr = Inr (Some hash)" "hash \<noteq> []"
    by (auto simp: handlePost_def respond_def Let_def split: sum.splits option.splits if_splits)
  from assms pw s hash have cmp: "bcrypt_Compare P hash pw = Hash_ok"
    by (auto simp: handlePost_def respond_def Let_def split: hash_answer.splits)
  obtain tr w2 where t: "generateToken (rand_ReadFull P) w1 = (tr, w2)" by fastforce
  from assms pw s hash cmp t obtain tok where tok: "tr = Inr tok"
    by (cases tr) (auto simp: handlePost_def respond_def Let_def)
  obtain cr w3 where c: "session_Create (session_NewStore P (dynamodb_NewFromConfig P cfg) sessT) tok w2 = (cr, w3)"
    by fastforce
  from assms pw s hash cmp t tok c have ok: "cr = Inr ()" "w' = w3" "Cookies resp = [auth_cookie tok]"
    by (cases cr; auto simp: handlePost_def respond_def Let_def)+
  from t tok obtain bs where bs: "rand_ReadFull P 32 w1 = (Inr bs, w2)" "tok = hex_encode bs"
    by (auto simp: generateToken_def split: prod.splits sum.splits)
  with rand_bytes [OF bs(1)] have "bs \<noteq> []" "length tok = 64" by auto
  with bs(2) hex_token have "isToken tok" by simp
  moreover from create_session(2) [OF c ok(1)] ok(2) \<open>length tok = 64\<close> have "token_valid sessT (tabs w') tok"
    by (auto simp: token_valid_def session_item_def)
  ultimately show ?thesis using ok(3) \<open>length tok = 64\<close> pw s hash(1) cmp by blast
qed

lemma login_refused:
  assumes h: "handlePost (L arn) req w = (resp, w')"
    and no: "\<And>hash pw w1. secrets_NewFromConfig P cfg arn w = (Inr (Some hash), w1) \<Longrightarrow>
      json_Unmarshal_login P (hr_Body req) = Inr pw \<Longrightarrow> bcrypt_Compare P hash pw \<noteq> Hash_ok"
  shows "StatusCode resp \<in> {400, 401, 500}" "Cookies resp = []" "tabs w' = tabs w"
proof -
  obtain sr w1 where s: "secrets_NewFromConfig P cfg arn w = (sr, w1)" by fastforce
  note t1 = secret_tabs [OF s]
  have "StatusCode resp \<in> {400, 401, 500} \<and> Cookies resp = [] \<and> w' \<in> {w, w1}"
  proof (cases "json_Unmarshal_login P (hr_Body req)")
    case (Inl e)
    with h show ?thesis by (auto simp: handlePost_def respond_def Let_def)
  next
    case (Inr pw)
    with h s no [of _ w1 pw] show ?thesis
      by (auto simp: handlePost_def respond_def Let_def split: sum.splits option.splits if_splits hash_answer.splits)
  qed
  with t1 show "StatusCode resp \<in> {400, 401, 500}" "Cookies resp = []" "tabs w' = tabs w" by auto
qed

lemma login_checked:
  assumes h: "handleGet (L arn) req w = (resp, w')" and "StatusCode resp \<noteq> 500"
  shows "StatusCode resp = (if token_valid sessT (tabs w) (requestCookieValue req ''slide_auth'') then 200 else 401)"
    "tabs w' = tabs w"
proof -
  let ?t = "requestCookieValue req ''slide_auth''"
  obtain vr w1 where v: "IsValid (connection_NewSessionStore (dynamodb_NewFromConfig P cfg) sessT) ?t w = (vr, w1)"
    by fastforce
  note tw = is_valid(1) [OF v]
  have "StatusCode resp = (if token_valid sessT (tabs w) ?t then 200 else 401) \<and> tabs w' = tabs w"
  proof (cases "?t = []")
    case True
    with h show ?thesis by (auto simp: handleGet_def respond_def token_valid_def)
  next
    case False
    with assms v obtain b where b: "vr = Inr b" by (cases vr) (auto simp: handleGet_def respond_def Let_def)
    with is_valid(3) [OF v] have "b = token_valid sessT (tabs w) ?t" by simp
    with assms v b False tw show ?thesis
      by (auto simp: handleGet_def respond_def Let_def split: sum.splits if_splits)
  qed
  then show "StatusCode resp = (if token_valid sessT (tabs w) ?t then 200 else 401)" "tabs w' = tabs w" by auto
qed

end
end
