(* ===== verification/Presenter_Instance.thy ===== *)
theory Presenter_Instance
  imports Presenter_Flows Poll_Instance
begin
text \<open>
  An in-memory instance of the presenter: the in-memory DynamoDB client with a log of delivery
  attempts and a list of connections that are gone, and how its parts compute.
\<close>

section \<open>The instance\<close>

record ws_world = mem +
  ws_log :: "attempt list"
  ws_gone :: "string list"

definition demo_sc :: "string \<Rightarrow> string list" where
  "demo_sc T = (if T = ''conns'' then [''room'', ''connectionId''] else if T = ''polls'' then poll_ks
     else if T = ''state'' then [''room''] else [''token''])"

definition demo_post :: "string \<Rightarrow> string \<Rightarrow> ws_world \<Rightarrow> (ext_error + unit) \<times> ws_world" where
  "demo_post i p w =
     (if i \<in> set (ws_gone w) then (Inl (Api_error ''GoneException''), w\<lparr>ws_log := ws_log w @ [(i, p, False)]\<rparr>)
      else (Inr (), w\<lparr>ws_log := ws_log w @ [(i, p, True)]\<rparr>))"

text \<open>The instance's JSON of a struct is its first field.\<close>

fun demo_marshal :: "json \<Rightarrow> ext_error + string" where
  "demo_marshal (JObj ((_, JStr t) # _)) = Inr t"
| "demo_marshal _ = Inl (Opaque_error ''json'')"

definition demo_message :: "string \<Rightarrow> incomingMessage" where
  "demo_message t = \<lparr>im_Type = t, im_Page = 3, im_Instruction = ''run it'', im_Placeholder = [],
     im_PollID = ''q1'', im_Options = None, im_MaxChoices = 1, im_Choice = ''a'', im_From = [], im_To = []\<rparr>"

definition demo_platform :: "(unit, ws_world) platform" where
  "demo_platform = \<lparr>loadConfig = (\<lambda>w. (Inr (), w)), Getenv = (\<lambda>v. ''set''),
     dynamodb_NewFromConfig = (\<lambda>c. mem_client demo_sc), apigw_NewFromConfig = (\<lambda>c ep. demo_post),
     secrets_NewFromConfig = (\<lambda>c arn w. (Inr (Some ''hash''), w)), Now_Unix = (\<lambda>w. (0, w)),
     MarshalConn = (\<lambda>c. Inr (conn_item c)), UnmarshalConn = (\<lambda>it. Inr (conn_of it)),
     MarshalMeta = (\<lambda>r. Inr (meta_item r)), UnmarshalMeta = (\<lambda>it. Inr (meta_of it)),
     MarshalRoom = (\<lambda>r. Inr (room_item r)), UnmarshalRoom = (\<lambda>it. Inr (room_of it)),
     MarshalSession = (\<lambda>si. Inr (session_item si)), json_Marshal = demo_marshal,
     json_Unmarshal = (\<lambda>b. Inr (demo_message b)), json_Unmarshal_login = (\<lambda>b. Inr b),
     ext_Error = (\<lambda>e. ''aws''), rand_ReadFull = (\<lambda>n w. (Inr (replicate n (CHR ''x'')), w)),
     bcrypt_Compare = (\<lambda>h p. if p = ''secret'' then Hash_ok else Hash_mismatch)\<rparr>"

lemma demo_platform_parts [simp]:
  "dynamodb_NewFromConfig demo_platform c = mem_client demo_sc" "apigw_NewFromConfig demo_platform c ep = demo_post"
  "secrets_NewFromConfig demo_platform c arn w = (Inr (Some ''hash''), w)" "Now_Unix demo_platform = (\<lambda>w. (0, w))"
  "MarshalConn demo_platform = (\<lambda>c. Inr (conn_item c))" "UnmarshalConn demo_platform = (\<lambda>it. Inr (conn_of it))"
  "MarshalMeta demo_platform = (\<lambda>r. Inr (meta_item r))" "UnmarshalMeta demo_platform = (\<lambda>it. Inr (meta_of it))"
  "MarshalRoom demo_platform = (\<lambda>r. Inr (room_item r))" "UnmarshalRoom demo_platform = (\<lambda>it. Inr (room_of it))"
  "MarshalSession demo_platform = (\<lambda>si. Inr (session_item si))" "json_Marshal demo_platform = demo_marshal"
  "json_Unmarshal demo_platform b = Inr (demo_message b)" "json_Unmarshal_login demo_platform b = Inr b"
  "ext_Error demo_platform e = ''aws''" "rand_ReadFull demo_platform n w = (Inr (replicate n (CHR ''x'')), w)"
  "bcrypt_Compare demo_platform h p = (if p = ''secret'' then Hash_ok else Hash_mismatch)"
  "loadConfig demo_platform w = (Inr (), w)" "Getenv demo_platform v = ''set''"
  by (simp_all add: demo_platform_def)

lemma demo_sc_simps [simp]:
  "demo_sc ''conns'' = [''room'', ''connectionId'']" "demo_sc ''polls'' = poll_ks" "demo_sc ''state'' = [''room'']"
  "demo_sc ''sessions'' = [''token'']"
  by (simp_all add: demo_sc_def)

abbreviation demo_conns :: "ws_world conn_store" where
  "demo_conns \<equiv> conns_of demo_platform () ''conns''"

lemma mem_log:
  "mem_put scm T it c w = (r1, w') \<Longrightarrow> ws_log w' = ws_log w"
  "mem_get scm T ky b w = (r2, w') \<Longrightarrow> ws_log w' = ws_log w"
  "mem_delete scm T ky w = (r3, w') \<Longrightarrow> ws_log w' = ws_log w"
  "mem_query scm q w = (r4, w') \<Longrightarrow> ws_log w' = ws_log w"
  by (auto simp: mem_put_def mem_get_def mem_delete_def mem_with_def dest: mem_query_world split: if_splits)

lemma mem_seq_log: "mem_seq scm ts w = Some w' \<Longrightarrow> ws_log w' = ws_log w"
proof (induction ts arbitrary: w)
  case (Cons t ts)
  have "ws_log w1 = ws_log w" if "mem_ti scm t w = Some w1" for w1
    using that by (cases t) (auto simp: mem_with_def split: if_splits)
  with Cons show ?case by (auto simp: bind_eq_Some_conv)
qed simp

lemma mem_transact_log: "mem_transact scm ts w = (r, w') \<Longrightarrow> ws_log w' = ws_log w"
  by (auto simp: mem_transact_def dest: mem_seq_log split: if_splits option.splits)

lemma mem_tabs_log [simp]: "mem_tabs scm (w\<lparr>ws_log := l\<rparr>) = mem_tabs scm w"
  by (simp add: mem_tabs_def fun_eq_iff)

lemma demo_connections: "connections_current demo_conns (mem_tabs demo_sc) demo_sc (mem_view demo_sc)"
  unfolding connections_current_def connections_def
  by (intro conjI, simp_all add: mem_dynamo mem_dynamo_current)
    (intro connections_axioms.intro; simp)

lemma demo_deliveries: "deliveries demo_conns (mem_tabs demo_sc) demo_sc (mem_view demo_sc) demo_post ws_log"
proof (rule deliveries.intro [OF demo_connections deliveries_axioms.intro])
  show "mem_tabs demo_sc w' = mem_tabs demo_sc w" if "demo_post i p w = (r, w')" for i p r and w w' :: ws_world
    using that by (auto simp: demo_post_def split: if_splits)
  show "ws_log w' = ws_log w @ [(i, p, r = Inr ())]" if "demo_post i p w = (r, w')" for i p r w w'
    using that by (auto simp: demo_post_def split: if_splits)
qed (auto simp: mem_client_def dest: mem_log mem_transact_log)

lemma demo_presenter_polls: "poll_store_current (polls_of demo_platform () ''polls'') (mem_tabs demo_sc) demo_sc (mem_view demo_sc)"
proof (intro poll_store_current.intro poll_store_current_axioms.intro poll_store.intro poll_store_axioms.intro)
  let ?s = "polls_of demo_platform () ''polls''"
  have c: "client ?s = mem_client demo_sc" by simp
  show "dynamo (client ?s) (mem_tabs demo_sc) demo_sc" unfolding c by (rule mem_dynamo)
  show "dynamo_current (client ?s) (mem_tabs demo_sc) demo_sc (mem_view demo_sc)" unfolding c by (rule mem_dynamo_current)
qed (auto simp: polls_of_def mem_client_def mem_query_def choices_query_def Let_def)

lemma demo_presenter:
  "presenter demo_platform () ''conns'' ''polls'' ''state'' ''sessions'' (mem_tabs demo_sc) demo_sc (mem_view demo_sc) ws_log"
proof (rule presenter.intro)
  show "deliveries demo_conns (mem_tabs demo_sc) demo_sc (mem_view demo_sc) (apigw_NewFromConfig demo_platform () ep) ws_log" for ep
    using demo_deliveries by simp
qed (use demo_presenter_polls in auto)

interpretation conns: connections_current demo_conns "mem_tabs demo_sc" demo_sc "mem_view demo_sc"
  by (rule demo_connections)

interpretation gateway: deliveries demo_conns "mem_tabs demo_sc" demo_sc "mem_view demo_sc" demo_post ws_log
  by (rule demo_deliveries)

interpretation demo_presenter: presenter demo_platform "()" "''conns''" "''polls''" "''state''" "''sessions''"
  "mem_tabs demo_sc" demo_sc "mem_view demo_sc" ws_log
  by (rule demo_presenter)
end
