(* ===== verification/Presenter_Demo.thy ===== *)
theory Presenter_Demo
  imports Presenter_Instance
begin
text \<open>
  How the in-memory instance of the presenter computes on a small world: three connections, a
  presenter \<^verbatim>\<open>p\<close>, viewers \<^verbatim>\<open>v\<close> and \<^verbatim>\<open>g\<close> (gone), one poll, one slide, one session.
\<close>

definition crow :: "string \<Rightarrow> string \<Rightarrow> item" where
  "crow i role = conn_item \<lparr>Room = default_room, ConnectionID = i, Role = role, conn_TTL = 24 * 60 * 60\<rparr>"

definition srow :: "int \<Rightarrow> item" where
  "srow n = room_item \<lparr>st_Room = default_room, st_Page = n\<rparr>"

definition trow :: "string \<Rightarrow> item" where
  "trow t = session_item \<lparr>Token = t, si_Status = ''valid''\<rparr>"

definition wsw :: "item list \<Rightarrow> item list \<Rightarrow> item list \<Rightarrow> item list \<Rightarrow> attempt list \<Rightarrow> string list \<Rightarrow> ws_world" where
  "wsw cs ps st se l g = \<lparr>mem_items = (\<lambda>T. if T = ''conns'' then cs else if T = ''polls'' then ps
     else if T = ''state'' then st else if T = ''sessions'' then se else []), ws_log = l, ws_gone = g\<rparr>"

lemma wsw_parts [simp]:
  "mem_items (wsw cs ps st se l g) ''conns'' = cs" "mem_items (wsw cs ps st se l g) ''polls'' = ps"
  "mem_items (wsw cs ps st se l g) ''state'' = st" "mem_items (wsw cs ps st se l g) ''sessions'' = se"
  "ws_log (wsw cs ps st se l g) = l" "ws_gone (wsw cs ps st se l g) = g"
  "(wsw cs ps st se l g)\<lparr>ws_log := l'\<rparr> = wsw cs ps st se l' g"
  by (simp_all add: wsw_def)

lemma wsw_with [simp]:
  "mem_with ''conns'' x (wsw cs ps st se l g) = wsw x ps st se l g"
  "mem_with ''polls'' x (wsw cs ps st se l g) = wsw cs x st se l g"
  "mem_with ''state'' x (wsw cs ps st se l g) = wsw cs ps x se l g"
  "mem_with ''sessions'' x (wsw cs ps st se l g) = wsw cs ps st x l g"
  by (auto simp: mem_with_def wsw_def fun_eq_iff)

lemma wsw_tabs [simp]:
  "mem_tabs demo_sc (wsw cs ps st se l g) ''conns'' k = mem_find [''room'', ''connectionId''] k cs"
  "mem_tabs demo_sc (wsw cs ps st se l g) ''polls'' k = mem_find poll_ks k ps"
  "mem_tabs demo_sc (wsw cs ps st se l g) ''state'' k = mem_find [''room''] k st"
  "mem_tabs demo_sc (wsw cs ps st se l g) ''sessions'' k = mem_find [''token''] k se"
  by (simp_all add: mem_tabs_def)

lemma row_parts [simp]:
  "key_of [''room'', ''connectionId''] (crow i r) = ckey default_room i" "crow i r ''room'' = Some (AS default_room)"
  "crow i r ''role'' = Some (AS r)"
  "conn_of (crow i r) = \<lparr>Room = default_room, ConnectionID = i, Role = r, conn_TTL = 24 * 60 * 60\<rparr>"
  "key_of [''room''] (srow n) = [Some (AS default_room)]" "room_of (srow n) = \<lparr>st_Room = default_room, st_Page = n\<rparr>"
  "key_of [''token''] (trow t) = [Some (AS t)]" "trow t ''status'' = Some (AS ''valid'')"
  "srow n ''room'' = Some (AS default_room)" "trow t ''token'' = Some (AS t)"
  "crow i r ''connectionId'' = Some (AS i)"
  by (simp_all add: crow_def) (simp_all add: conn_item_def srow_def room_item_def trow_def session_item_def
      room_of_def str_attr_def int_attr_def)

section \<open>The calls\<close>

lemma demo_get_conn [simp]:
  "conn_Get demo_conns room i (wsw cs ps st se l g) =
     (case mem_find [''room'', ''connectionId''] (ckey room i) cs of
        None \<Rightarrow> Inl (Sentinel Conn_ErrNotFound) | Some it \<Rightarrow> Inr (conn_of it), wsw cs ps st se l g)"
  by (simp add: conn_Get_def mem_get_def conn_key_def split: option.splits)

lemma demo_unmarshal [simp]: "unmarshal_conns demo_conns its = Inr (map conn_of its)"
  by (induction its) simp_all

lemma demo_query [simp]:
  "QueryByRoom demo_conns room (wsw cs ps st se l g) =
     Some (Inr (map conn_of (filter (\<lambda>it. it ''room'' = Some (AS room)) (mem_listing [''room'', ''connectionId''] cs))),
           wsw cs ps st se l g)"
  unfolding QueryByRoom_def
  by (subst query_pages.simps) (simp add: room_query_def mem_query_def mem_view_def Let_def)

lemma demo_count [simp]:
  "CountByRoom demo_conns room (wsw cs ps st se l g) =
     Some (Inr (int (length (filter (\<lambda>it. it ''room'' = Some (AS room)) (mem_listing [''room'', ''connectionId''] cs)))),
           wsw cs ps st se l g)"
  unfolding CountByRoom_def
  by (subst count_pages.simps) (simp add: room_query_def mem_query_def mem_view_def Let_def)

lemma demo_put_conn [simp]:
  "conn_Put demo_conns \<lparr>Room = default_room, ConnectionID = i, Role = r, conn_TTL = n\<rparr> (wsw cs ps st se l g) =
     (Inr (), wsw (mem_store [''room'', ''connectionId''] (crow i r) cs) ps st se l g)"
  by (simp add: conn_Put_def mem_put_def Let_def flip: crow_def) (simp add: crow_def)

lemma demo_delete_conn [simp]:
  "conn_Delete demo_conns room i (wsw cs ps st se l g) =
     (Inr (), wsw (mem_drop [''room'', ''connectionId''] (ckey room i) cs) ps st se l g)"
  by (simp add: conn_Delete_def mem_delete_def conn_key_def)

lemma demo_post [simp]:
  "demo_post i p (wsw cs ps st se l g) =
     (if i \<in> set g then Inl (Api_error ''GoneException'') else Inr (), wsw cs ps st se (l @ [(i, p, i \<notin> set g)]) g)"
  by (simp add: demo_post_def)

lemma demo_put_state [simp]:
  "PutState (states_of demo_platform () ''state'') default_room n (wsw cs ps st se l g) =
     (Inr (), wsw cs ps (mem_store [''room''] (srow n) st) se l g)"
  by (simp add: PutState_def mem_put_def flip: srow_def)

lemma demo_get_state [simp]:
  "GetState (states_of demo_platform () ''state'') default_room (wsw cs ps st se l g) =
     (Inr (case mem_find [''room''] [Some (AS default_room)] st of None \<Rightarrow> 0 | Some it \<Rightarrow> st_Page (room_of it)),
      wsw cs ps st se l g)"
  by (simp add: GetState_def mem_get_def room_key_def split: option.splits)

lemma demo_valid [simp]:
  "IsValid (connection_NewSessionStore (mem_client demo_sc) ''sessions'') t (wsw cs ps st se l g) =
     (Inr (t \<noteq> [] \<and> (case mem_find [''token''] [Some (AS t)] se of None \<Rightarrow> False
        | Some it \<Rightarrow> it ''status'' = Some (AS ''valid''))), wsw cs ps st se l g)"
  by (simp add: IsValid_def connection_NewSessionStore_def mem_get_def token_key_def split: option.splits attr.splits)

lemma demo_create [simp]:
  "session_Create (session_NewStore demo_platform (mem_client demo_sc) ''sessions'') t (wsw cs ps st se l g) =
     (Inr (), wsw cs ps st (mem_store [''token''] (trow t) se) l g)"
  by (simp add: session_Create_def session_NewStore_def mem_put_def flip: trow_def)

lemma demo_send [simp]:
  "Send (NewBroadcaster demo_post demo_conns) room payload excl (wsw cs ps st se l g) =
     Some (send_loop (NewBroadcaster demo_post demo_conns)
       (map conn_of (filter (\<lambda>it. it ''room'' = Some (AS room)) (mem_listing [''room'', ''connectionId''] cs)))
       payload excl (wsw cs ps st se l g))"
  by (simp add: Send_def)

lemma demo_send_one [simp]:
  "SendToOne (NewBroadcaster demo_post demo_conns) room i payload (wsw cs ps st se l g) =
     (Inr (), if i \<in> set g then wsw (mem_drop [''room'', ''connectionId''] (ckey room i) cs) ps st se (l @ [(i, payload, False)]) g
        else wsw cs ps st se (l @ [(i, payload, True)]) g)"
  by (simp add: SendToOne_def isGoneError_def)

lemma gone_code [simp]: "isGoneError (Foreign (Api_error c)) \<longleftrightarrow> c = ''GoneException''"
  by (simp add: isGoneError_def)

lemma demo_bc [simp]: "bc_of demo_platform () ''conns'' d st = NewBroadcaster demo_post demo_conns"
  by (simp add: bc_of_def)

text \<open>The small world.\<close>

definition small_rows :: "item list" where
  "small_rows = [crow ''p'' ''presenter'', crow ''v'' ''viewer'', crow ''g'' ''viewer'']"

definition small :: ws_world where
  "small = wsw small_rows [demo_meta 1 []] [] [trow ''t''] [] [''g'']"

lemma small_listing [simp]: "mem_listing [''room'', ''connectionId''] small_rows = small_rows"
  by (simp add: small_rows_def)

lemma small_find [simp]:
  "mem_find [''room'', ''connectionId''] (ckey default_room i) small_rows =
     (if i = ''p'' then Some (crow ''p'' ''presenter'') else if i = ''v'' then Some (crow ''v'' ''viewer'')
      else if i = ''g'' then Some (crow ''g'' ''viewer'') else None)"
  by (simp add: small_rows_def)

definition req_of :: "string \<Rightarrow> string \<Rightarrow> ws_request" where
  "req_of i body = \<lparr>rq_ConnectionID = i, rq_DomainName = ''d'', rq_Stage = ''s'', rq_Headers = (\<lambda>h. []), rq_Body = body\<rparr>"

lemma req_parts [simp]:
  "rq_ConnectionID (req_of i b) = i" "rq_DomainName (req_of i b) = ''d''" "rq_Stage (req_of i b) = ''s''"
  "rq_Headers (req_of i b) h = []" "rq_Body (req_of i b) = b"
  by (simp_all add: req_of_def)

lemma handle_small:
  "message_handle (message_handler_of demo_platform () ''conns'' ''polls'' ''state'') (req_of i b) w =
   dispatch (message_handler_of demo_platform () ''conns'' ''polls'' ''state'') i (demo_message b)
     (deps_of demo_platform () ''conns'' ''state'' ''d'' ''s'') w"
  by (simp add: message_handle_def deps_of_def)

lemma viewer_denied:
  "message_handle (message_handler_of demo_platform () ''conns'' ''polls'' ''state'') (req_of ''v'' ''slide_sync'') small =
   Some ((200, None), wsw small_rows [demo_meta 1 []] [] [trow ''t''] [(''v'', ''error'', True)] [''g''])"
  by (simp add: handle_small dispatch_def demo_message_def handleSlideSync_def slidesync_Handle_def small_def
      sendError_def send_json_def errorResponse_def ok_def)

lemma presenter_slides:
  "message_handle (message_handler_of demo_platform () ''conns'' ''polls'' ''state'') (req_of ''p'' ''slide_sync'') small =
   Some ((200, None), wsw [crow ''p'' ''presenter'', crow ''v'' ''viewer''] [demo_meta 1 []] [srow 3] [trow ''t'']
     [(''v'', ''slide_sync'', True), (''g'', ''slide_sync'', False)] [''g''])"
  by (simp add: handle_small dispatch_def demo_message_def handleSlideSync_def slidesync_Handle_def small_def
      slideSyncMessage_def ok_def mem_store_def mem_drop_def small_rows_def isGoneError_def)
end
