(* ===== verification/Presenter_Properties.thy ===== *)
theory Presenter_Properties
  imports Presenter_Demo
begin
text \<open>
  The properties of the presenter: the connections of a room, the delivery of messages, what a
  connection may cause, slides, votes and the login, with their instances on the small world of
  \<open>Presenter_Demo\<close>.
\<close>

section \<open>Rooms\<close>

text \<open>C17. Counting a room and listing it agree: with current reads both loops over the pages end,
  change nothing, and, if neither reports an error, the count is the length of the list, which has
  one entry per row of the room.\<close>

theorem count_agrees_with_listing:
  assumes "connections_current s tabs sc view"
  shows "\<exists>lr w1 cr w2. QueryByRoom s room w = Some (lr, w1) \<and> CountByRoom s room w = Some (cr, w2) \<and>
    tabs w1 = tabs w \<and> tabs w2 = tabs w \<and>
    (\<forall>cs. lr = Inr cs \<longrightarrow> room_listing (cs_tableName s) room (tabs w) cs \<and> (\<forall>n. cr = Inr n \<longrightarrow> n = int (length cs)))"
proof -
  from connections_current.query_room [OF assms, of "\<lambda>w. ()" room w] obtain lr w1 where l:
    "QueryByRoom s room w = Some (lr, w1)" "tabs w1 = tabs w"
    "\<forall>xs. lr = Inr xs \<longrightarrow> xs = map conn_of (view w (cs_tableName s) [Key_eq ''room'' (AS room)])" by blast
  from connections_current.count_room [OF assms, of "\<lambda>w. ()" room w] obtain cr w2 where c:
    "CountByRoom s room w = Some (cr, w2)" "tabs w2 = tabs w"
    "\<forall>n. cr = Inr n \<longrightarrow> n = int (length (view w (cs_tableName s) [Key_eq ''room'' (AS room)]))" by blast
  from l c connections_current.items_listing [OF assms, of room w] show ?thesis by auto
qed

theorem count_agrees_with_listing_witness:
  "room_listing ''conns'' default_room (mem_tabs demo_sc small)
     [conn_of (crow ''p'' ''presenter''), conn_of (crow ''v'' ''viewer''), conn_of (crow ''g'' ''viewer'')]"
  using count_agrees_with_listing [OF demo_connections, of default_room small]
  by (simp add: small_def) (simp add: small_rows_def)

text \<open>C18. A message to a room always comes to an end, and unless an error is reported every
  connection of the room but the excluded one is tried exactly once; only rows of connections that
  were not reached are removed, and without outages all of those are.\<close>

theorem send_reaches_everyone:
  assumes "deliveries s tabs sc view post log"
  shows "\<exists>r w'. Send (NewBroadcaster post s) room payload excl w = Some (r, w') \<and>
    (r = Inr () \<longrightarrow> (\<exists>cs oks. room_listing (cs_tableName s) room (tabs w) cs \<and>
       length oks = length (but cs excl) \<and> log w' = log w @ attempts (but cs excl) payload oks \<and>
       pruned (cs_tableName s) (refused (but cs excl) oks) (tabs w) (tabs w') \<and>
       (dynamo_up (cs_client s) tabs sc view \<longrightarrow>
          (\<forall>k \<in> refused (but cs excl) oks. tabs w' (cs_tableName s) k = None))))"
proof -
  let ?cs = "map conn_of (view w (cs_tableName s) [Key_eq ''room'' (AS room)])"
  obtain r w' oks where s: "Send (NewBroadcaster post s) room payload excl w = Some (r, w')"
    "r = Inr () \<longrightarrow> length oks = length (but ?cs excl)" "log w' = log w @ attempts (but ?cs excl) payload oks"
    "pruned (cs_tableName s) (refused (but ?cs excl) oks) (tabs w) (tabs w')"
    "dynamo_up (cs_client s) tabs sc view \<longrightarrow> r = Inr () \<longrightarrow>
       (\<forall>k \<in> refused (but ?cs excl) oks. tabs w' (cs_tableName s) k = None)"
    by (rule deliveries.send_outcome [OF assms])
  have l: "room_listing (cs_tableName s) room (tabs w) ?cs"
    by (rule connections_current.items_listing [OF deliveries.axioms(1) [OF assms]])
  show ?thesis
    by (intro exI conjI impI, rule s(1), rule l) (use s in auto)
qed

theorem send_reaches_everyone_witness:
  "\<exists>cs oks. room_listing ''conns'' default_room (mem_tabs demo_sc small) cs \<and> length oks = length (but cs ''p'') \<and>
     [(''v'', ''hi'', True), (''g'', ''hi'', False)] = attempts (but cs ''p'') ''hi'' oks"
proof -
  have "Send (NewBroadcaster demo_post demo_conns) default_room ''hi'' ''p'' small =
      Some (Inr (), wsw [crow ''p'' ''presenter'', crow ''v'' ''viewer''] [demo_meta 1 []] [] [trow ''t'']
        [(''v'', ''hi'', True), (''g'', ''hi'', False)] [''g''])"
    by (simp add: small_def) (simp add: small_rows_def isGoneError_def mem_drop_def)
  with send_reaches_everyone [OF demo_deliveries, of default_room "''hi''" "''p''" small]
  show ?thesis by (auto simp: small_def)
qed

section \<open>What a viewer can cause\<close>

text \<open>C19. A message of a connection that is not a presenter, whatever it says, does not move the
  slides, opens no poll and changes no poll's limit, creates no session and gives nobody a role;
  what it sends goes to that connection alone, except the state of a poll after a vote.\<close>

theorem viewer_is_powerless:
  assumes "presenter P cfg connT pollT stateT sessT tabs sc view log"
    and "role_in connT (tabs w) (rq_ConnectionID req) \<noteq> Some ''presenter''"
    and "message_handle (message_handler_of P cfg connT pollT stateT) req w = Some (resp, w')"
  shows "tabs w' stateT = tabs w stateT \<and> tabs w' sessT = tabs w sessT \<and>
    meta_max pollT (tabs w') = meta_max pollT (tabs w) \<and>
    (\<forall>k. tabs w' connT k \<noteq> None \<longrightarrow> tabs w' connT k = tabs w connT k) \<and>
    (\<exists>new. log w' = log w @ new \<and> (\<forall>a \<in> set new. fst a = rq_ConnectionID req \<or>
      (\<exists>st. json_Marshal P (pollStateResponse st) = Inr (fst (snd a)))))"
  using presenter.viewer_quiet [OF assms] unfolding presenter.quiet_def [OF assms(1)] by blast

theorem viewer_is_powerless_witness:
  "mem_tabs demo_sc (wsw small_rows [demo_meta 1 []] [] [trow ''t''] [(''v'', ''error'', True)] [''g'']) ''state'' =
   mem_tabs demo_sc small ''state''"
proof -
  have "role_in ''conns'' (mem_tabs demo_sc small) (rq_ConnectionID (req_of ''v'' ''slide_sync'')) \<noteq> Some ''presenter''"
    by (simp add: role_in_def small_def str_attr_def)
  from viewer_is_powerless [OF demo_presenter this viewer_denied] show ?thesis by blast
qed

section \<open>Slides\<close>



section \<open>Connections\<close>


definition demo_join :: ws_request where
  "demo_join = (req_of ''n'' [])\<lparr>rq_Headers := (\<lambda>h. if h = ''Cookie'' then ''slide_auth=t'' else [])\<rparr>"

lemma demo_join_cookie: "extractCookie ''slide_auth=t'' ''slide_auth'' = ''t''"
proof -
  have "isToken ''t''" by (simp add: isToken_def is_token_char_def less_eq_char_def)
  from cookie_roundtrip [OF slide_auth_token this] show ?thesis by (simp add: extractCookie_def)
qed

lemma demo_join_step:
  "connect_handle (connect_handler_of demo_platform () ''conns'' ''sessions'') demo_join small =
   Some ((200, None), wsw [crow ''p'' ''presenter'', crow ''v'' ''viewer'', crow ''n'' ''presenter''] [demo_meta 1 []] []
     [trow ''t''] [(''p'', ''viewer_count'', True), (''v'', ''viewer_count'', True), (''g'', ''viewer_count'', False)] [''g''])"
  by (simp add: connect_handle_def demo_join_def demo_join_cookie connect_handler_of_def new_connectHandler_def Let_def
      small_def announce_count_def ViewerCountMessage_def mem_store_def)
    (simp add: small_rows_def mem_drop_def ok_def)




section \<open>Votes\<close>


abbreviation demo_polls_ws :: "ws_world Store" where
  "demo_polls_ws \<equiv> polls_of demo_platform () ''polls''"

lemma polls_ws_parts [simp]:
  "marshalMapFn demo_polls_ws r = Inr (meta_item r)" "unmarshalMeta demo_polls_ws it = Inr (meta_of it)"
  by (simp_all add: polls_of_def)

lemma meta_not_v [simp]: "metaSK \<noteq> CHR ''v'' # s"
  by (simp add: metaSK_def)

lemma wsw_pollsI: "ps = ps' \<Longrightarrow> wsw cs ps st se l g = wsw cs ps' st se l g"
  by simp

lemma demo_get_meta_ws [simp]:
  "getMeta demo_polls_ws p (wsw cs ps st se l g) =
     (case mem_find poll_ks (pkey p metaSK) ps of None \<Rightarrow> Inl (Sentinel ErrPollNotFound)
      | Some it \<Rightarrow> Inr (meta_of it), wsw cs ps st se l g)"
  by (simp add: getMeta_def mem_get_def split: option.splits)

lemma demo_choices_ws [simp]:
  "v \<noteq> [] \<Longrightarrow> getMyChoices demo_polls_ws p v (wsw cs ps st se l g) =
     (Inr (choices_of_items (filter (\<lambda>it. it ''pollId'' = Some (AS p) \<and>
        (\<exists>c. it ''connectionId'' = Some (AS (v @ ''#'' @ c)))) (mem_listing poll_ks ps))), wsw cs ps st se l g)"
  by (simp add: getMyChoices_def choices_query_def mem_query_def mem_view_def Let_def)

lemma demo_vote_ws:
  "Vote demo_polls_ws ''q1'' ''v'' ''a'' (wsw cs [demo_meta 1 []] st se l g) =
     (Inr (), wsw cs [demo_vote ''v'' ''a'', demo_meta 1 [(''a'', 1)]] st se l g)"
  by (simp add: Vote_def vote_check_def eval_transact, intro wsw_pollsI)
    (simp add: demo_meta_votes demo_vote_def, auto simp: fun_eq_iff)

lemma demo_poll_inv_ws: "poll_inv poll_ks ''polls'' (mem_tabs demo_sc (wsw cs [demo_meta m []] st se l g))"
proof -
  let ?tb = "mem_tabs demo_sc (wsw cs [demo_meta m []] st se l g)"
  have "vote_sks ''polls'' ?tb p = {}" for p
    by (auto simp: vote_sks_def)
  then show ?thesis by (auto simp: poll_inv_def tally_def count_in_def split: if_splits)
qed

lemma demo_vote_handled:
  "handlePollVote (message_handler_of demo_platform () ''conns'' ''polls'' ''state'') ''v'' (demo_message ''poll_vote'')
     (deps_of demo_platform () ''conns'' ''state'' ''d'' ''s'') small =
   Some ((200, None), wsw [crow ''p'' ''presenter'', crow ''v'' ''viewer'']
     [demo_vote ''v'' ''a'', demo_meta 1 [(''a'', 1)]] [] [trow ''t'']
     [(''p'', ''poll_state'', True), (''v'', ''poll_state'', True), (''g'', ''poll_state'', False)] [''g''])"
  by (simp add: handlePollVote_def demo_message_def poll_call_def small_def demo_vote_ws refreshAndBroadcastPoll_def
      Get_def broadcastPollState_def pollStateResponse_def metaSK_def vote_sk_def)
    (simp add: small_rows_def mem_drop_def ok_def)


section \<open>Login\<close>

text \<open>C24. A login that is redirected had the right password, and the cookie it sets is good: whoever
  sends it back is authenticated and connects as a presenter.\<close>

theorem login_roundtrip:
  assumes "presenter P cfg connT pollT stateT sessT tabs sc view log"
    and "handlePost (new_login P cfg arn (dynamodb_NewFromConfig P cfg) sessT) req w = (resp, w1)"
    and "StatusCode resp = 302" and "tabs w2 sessT = tabs w1 sessT"
  shows "\<exists>hash pw w' set_cookie. secrets_NewFromConfig P cfg arn w = (Inr (Some hash), w') \<and>
    json_Unmarshal_login P (hr_Body req) = Inr pw \<and> bcrypt_Compare P hash pw = Hash_ok \<and>
    Cookies resp = [set_cookie] \<and>
    (\<forall>gr. hr_Cookies gr = [browser_cookie set_cookie] \<longrightarrow>
       StatusCode (fst (handleGet (new_login P cfg arn (dynamodb_NewFromConfig P cfg) sessT) gr w2)) \<in> {200, 500}) \<and>
    (\<forall>con w3. rq_Headers con ''cookie'' = browser_cookie set_cookie \<longrightarrow>
       connect_handle (connect_handler_of P cfg connT sessT) con w2 = Some ((200, None), w3) \<longrightarrow>
       role_in connT (tabs w3) (rq_ConnectionID con) = Some ''presenter'')"
proof -
  let ?L = "new_login P cfg arn (dynamodb_NewFromConfig P cfg) sessT"
  from presenter.login_accepted [OF assms(1-3)] obtain tok hash pw w' where a:
    "Cookies resp = [auth_cookie tok]" "isToken tok" "token_valid sessT (tabs w1) tok"
    "json_Unmarshal_login P (hr_Body req) = Inr pw" "secrets_NewFromConfig P cfg arn w = (Inr (Some hash), w')"
    "bcrypt_Compare P hash pw = Hash_ok" by blast
  have v: "token_valid sessT (tabs w2) tok" using a(3) assms(4) by (simp add: token_valid_def)
  note ret = cookie_returned [OF a(2)]
  have got: "StatusCode (fst (handleGet ?L gr w2)) \<in> {200, 500}"
    if "hr_Cookies gr = [browser_cookie (auth_cookie tok)]" for gr
  proof -
    obtain ans w4 where g: "handleGet ?L gr w2 = (ans, w4)" by fastforce
    have "requestCookieValue gr ''slide_auth'' = tok"
      using that ret a(2) by (simp add: requestCookieValue_def parseCookieValue_def isToken_def)
    with presenter.login_checked(1) [OF assms(1) g] v g show ?thesis by auto
  qed
  have conn: "role_in connT (tabs w3) (rq_ConnectionID con) = Some ''presenter''"
    if "rq_Headers con ''cookie'' = browser_cookie (auth_cookie tok)"
      "connect_handle (connect_handler_of P cfg connT sessT) con w2 = Some ((200, None), w3)" for con w3
  proof -
    from ret have "browser_cookie (auth_cookie tok) \<noteq> []" by auto
    with that(1) ret have "extractCookie (if rq_Headers con ''cookie'' = [] then rq_Headers con ''Cookie''
        else rq_Headers con ''cookie'') ''slide_auth'' = tok" by (simp add: extractCookie_def)
    with presenter.connect_outcome [OF assms(1) that(2)] v show ?thesis by simp
  qed
  from a got conn show ?thesis by blast
qed

definition demo_login :: "string \<Rightarrow> http_request" where
  "demo_login pw = \<lparr>hr_Method = ''POST'', hr_Body = pw, hr_Cookies = []\<rparr>"

theorem login_roundtrip_witness:
  "\<exists>hash pw. bcrypt_Compare demo_platform hash pw = Hash_ok \<and> json_Unmarshal_login demo_platform ''secret'' = Inr pw"
proof -
  let ?L = "new_login demo_platform () ''arn'' (dynamodb_NewFromConfig demo_platform ()) ''sessions''"
  obtain resp w1 where h: "handlePost ?L (demo_login ''secret'') small = (resp, w1)" by fastforce
  then have "StatusCode resp = 302"
    by (auto simp: handlePost_def demo_login_def new_login_def generateToken_def small_def Let_def)
  from login_roundtrip [OF demo_presenter h this refl] show ?thesis
    by (auto simp: demo_login_def)
qed

text \<open>C25. A login with a password that does not match, or whose comparison fails, sets no cookie,
  creates no session and is answered with 400, 401 or 500.\<close>

theorem login_refusal:
  assumes "presenter P cfg connT pollT stateT sessT tabs sc view log"
    and "handlePost (new_login P cfg arn (dynamodb_NewFromConfig P cfg) sessT) req w = (resp, w')"
    and "\<forall>hash pw w1. secrets_NewFromConfig P cfg arn w = (Inr (Some hash), w1) \<longrightarrow>
      json_Unmarshal_login P (hr_Body req) = Inr pw \<longrightarrow> bcrypt_Compare P hash pw \<noteq> Hash_ok"
  shows "StatusCode resp \<in> {400, 401, 500} \<and> Cookies resp = [] \<and> tabs w' = tabs w"
proof -
  note l = presenter.login_refused [OF assms(1,2)]
  have "StatusCode resp \<in> {400, 401, 500}" by (rule l(1)) (use assms(3) in blast)
  moreover have "Cookies resp = []" by (rule l(2)) (use assms(3) in blast)
  moreover have "tabs w' = tabs w" by (rule l(3)) (use assms(3) in blast)
  ultimately show ?thesis by blast
qed

theorem login_refusal_witness:
  "StatusCode (fst (handlePost (new_login demo_platform () ''arn'' (dynamodb_NewFromConfig demo_platform ()) ''sessions'')
     (demo_login ''guess'') small)) \<in> {400, 401, 500}"
proof -
  let ?L = "new_login demo_platform () ''arn'' (dynamodb_NewFromConfig demo_platform ()) ''sessions''"
  obtain resp w1 where h: "handlePost ?L (demo_login ''guess'') small = (resp, w1)" by fastforce
  from login_refusal [OF demo_presenter h] have "StatusCode resp \<in> {400, 401, 500}"
    by (simp add: demo_login_def)
  then show ?thesis by (simp only: h fst_conv)
qed

section \<open>The functions' start\<close>

end
