(* ===== verification/Spec2Isabelle.thy ===== *)
theory Spec2Isabelle
  imports Runner_Validate Runner_Shell_Properties Runner_Properties Runner_Concurrency Registration Broker_Process Broker_Http_Properties Broker_Liveness
    Broker_Interference Poll_Properties Presenter_Properties
begin

text \<open>
  Verification development of the demo platform: a slide show whose viewers vote in polls and try
  commands in a shell of their own.  The Go services of the repository are three programs.

  \<^bold>\<open>The runner\<close> (\<^verbatim>\<open>src/runner\<close>) holds bash sessions and executes commands in them.  At its start it resolves who
  it is, registers with the broker and then serves \<^verbatim>\<open>/api/session\<close> and \<^verbatim>\<open>/api/execute\<close>.
  \<^item> \<open>Runner_Validate\<close>: \<^verbatim>\<open>validate.go\<close>, the white list (\<open>classifyCommand\<close>), and that no white-listed command
    carries a shell operator.
  \<^item> \<open>Runner_Shell\<close>: \<^verbatim>\<open>shell.go\<close>, the bash session.  The record \<open>bashShell\<close> holds the fields of the struct that
    matter between calls, the lines that the scanner has not read and what was written to bash; \<open>call_env\<close> are
    the inputs of one call (clock, context, pipes, what bash writes).  \<open>ExecuteStream\<close> and \<open>Close\<close> are the methods,
    \<open>scan_loop\<close> the loop over the output, \<open>readStderr\<close> the reader of the standard error.  A call that waits
    forever is \<open>None\<close>.  \<open>Runner_Shell_Facts\<close> has the lemmas on lines and markers, \<open>Runner_Shell_Properties\<close>
    the properties of a single session.
  \<^item> \<open>Runner_Service\<close>: \<^verbatim>\<open>session.go\<close> (\<open>SessionManager\<close>), \<^verbatim>\<open>llm_validator.go\<close> (the request \<open>judge_request\<close> with its
    prompt and tool, \<open>Validate\<close>, \<open>parseToolUseResult\<close>) and
    \<^verbatim>\<open>handler.go\<close> (\<open>handleExecute\<close> and the other handlers over \<open>run_ctx\<close>).
  \<^item> \<open>Runner_Process\<close>: \<^verbatim>\<open>identity.go\<close>, \<^verbatim>\<open>register.go\<close> and \<^verbatim>\<open>main.go\<close> over the record \<open>runner_platform\<close> of everything
    that the process takes from outside.
  \<^item> \<open>Runner_Contract\<close>: the locale \<open>shell_pool\<close>, what the session manager relies on in its shells; inside it,
    the guard of the execute handler and that the table of sessions is exactly the set of open shells
    (\<open>tidy\<close>).  \<open>Runner_Instance\<close> interprets it on the bash sessions of \<open>Runner_Shell\<close> in a world with an arbitrary
    outside; \<open>Runner_Lifecycle\<close> follows a process from \<open>main\<close> to its end; \<open>Runner_Properties\<close> has the properties.
  \<^item> \<open>Runner_Concurrency\<close>: requests as threads (\<open>runner_step\<close> over \<open>phase\<close>s), interleaved between the locked
    sections of the session manager (\<open>insert_session\<close>, \<open>take_session\<close>, \<open>take_all\<close>); \<open>handler_runs\<close> shows that the steps of
    one request alone compose to the handler of the code, \<open>sound\<close> is the invariant of any interleaving.

  \<^bold>\<open>The broker\<close> (\<^verbatim>\<open>src/broker\<close>) gives every browser session a runner of its own.
  \<^item> \<open>Broker_Store\<close>: \<^verbatim>\<open>model/runner.go\<close> and \<^verbatim>\<open>store/\<close>, the runner records in a DynamoDB table.  \<open>AcquireIdle\<close> has the loop
    \<open>acquire_loop\<close> over the candidates of a bucket.
  \<^item> \<open>Broker_Contract\<close>: the locale \<open>repository\<close> (and \<open>repository_current\<close>, with reads that see all writes), the
    promise of the interface to the service; \<open>Broker_Repository\<close> proves that the DynamoDB store keeps it.
  \<^item> \<open>Broker_Service\<close>: \<^verbatim>\<open>service/service.go\<close>: \<open>ResolveSession\<close>, \<open>CloseSession\<close>, registration, over any repository;
    \<open>Broker_System\<close>: the broker as a transition system whose steps are the requests and the outside world;
    \<open>Broker_Instance\<close> interprets everything on a table in memory.
  \<^item> \<open>Broker_Handler\<close>: \<^verbatim>\<open>handler/\<close>, \<^verbatim>\<open>healthcheck/\<close> and the routes; \<open>Broker_Process\<close>: \<^verbatim>\<open>main.go\<close>.
    \<open>Broker_Properties\<close> and \<open>Broker_Http_Properties\<close> have the properties.
  \<^item> \<open>Broker_Liveness\<close>: the broker while nothing is out of order (locales \<open>repository_up\<close>, \<open>broker_service_up\<close> and
    \<open>broker_up\<close>, each from the one below it): no idle runner that answers its health check is thrown away, and a visitor
    is refused only when there is none.
  \<^item> \<open>Broker_Shared\<close>, \<open>Broker_Concurrency\<close>: the broker while others write to the table between its calls, and with index
    reads that show anything (locales \<open>shared_dynamo\<close>, \<open>broker_shared\<close>): what the others may do is a relation on
    tables, every request does the same to them.  \<open>Broker_Interference\<close> interprets them on a table that others
    change before every call, and has the property of concurrent requests.

  \<^bold>\<open>The presenter\<close> (\<^verbatim>\<open>src/presenter\<close>) are four functions behind a WebSocket gateway and a login page.
  \<^item> \<open>Poll_Store\<close>: \<^verbatim>\<open>internal/poll\<close>: opening, voting, withdrawing and moving a vote as DynamoDB transactions;
    \<open>Poll_Contract\<close>, \<open>Poll_Operations\<close>, \<open>Poll_Instance\<close> and \<open>Poll_Properties\<close>: their atomic effects, the counters
    in any interleaving, the limit of choices.
  \<^item> \<open>Ws_Stores\<close>: \<^verbatim>\<open>internal/connection\<close>, \<^verbatim>\<open>broadcast\<close>, \<^verbatim>\<open>roomstate\<close> and \<^verbatim>\<open>session\<close>, with paged queries
    (\<open>query_pages\<close>, \<open>count_pages\<close>) and \<open>send_loop\<close>; \<open>Ws_Contract\<close> states their promises as the locales \<open>connections\<close> and
    \<open>connections_current\<close>, \<open>Ws_Delivery\<close> what a broadcast reaches (locale \<open>deliveries\<close>).
  \<^item> \<open>Presenter_Handlers\<close>: \<^verbatim>\<open>internal/slidesync\<close>, \<^verbatim>\<open>handson\<close>, \<^verbatim>\<open>viewercount\<close> and the handlers of \<^verbatim>\<open>cmd/message\<close>, \<^verbatim>\<open>cmd/connect\<close> and
    \<^verbatim>\<open>cmd/disconnect\<close>; \<open>Presenter_Wiring\<close>: \<^verbatim>\<open>cmd/login\<close> and the \<^verbatim>\<open>run\<close> functions over the record \<open>platform\<close>.
  \<^item> \<open>Presenter_Contract\<close>, \<open>Presenter_System\<close> (locale \<open>presenter\<close>), \<open>Presenter_Messages\<close>, \<open>Presenter_Flows\<close>: who hears
    what, and what a request may change; \<open>Presenter_Instance\<close>, \<open>Presenter_Demo\<close>: the interpretation and concrete
    runs; \<open>Presenter_Properties\<close> has the properties.

  \<^bold>\<open>Shared.\<close>  \<open>Prelude\<close> has Go's error values (\<open>go_error\<close>, \<open>errors_is\<close>, \<open>errors_as\<close>) and generic lemmas; \<open>Go_Strings\<close> and
  \<open>Go_Cookies\<close> what the code uses of Go's \<^verbatim>\<open>strings\<close>, \<^verbatim>\<open>strconv\<close>, \<^verbatim>\<open>hex\<close> and \<^verbatim>\<open>net/http\<close>.  Strings are bytes.  \<open>Dynamo\<close> has the
  requests of the DynamoDB API as data (keys, conditions, updates, transactions) and their effects on
  tables, \<open>Dynamo_Contract\<close> the documented behaviour of the service as locales (\<open>dynamo\<close>, \<open>dynamo_current\<close> for a
  service whose index reads are current, and \<open>dynamo_up\<close> for one without outages), with an interpretation on tables in memory.

  \<^bold>\<open>How programs meet.\<close>  \<open>Registration\<close> connects the runner's \<open>register\<close> with the broker's \<open>PostRegister\<close>, and
  the broker's health check (\<open>Check\<close>) with the route of the runner that \<open>handleHealth\<close> answers, so that a visitor of the
  broker is followed to the runner that registered.  The services share no memory; all their shared
  state is in the tables, and each access of a table is one step, so that interleavings of requests are
  sequences of such steps.

  \<^bold>\<open>Conventions.\<close>  A Go function with a result, an error and effects is a function of an explicit world
  \<open>'w\<close> to a sum and a new world; code outside the repository (DynamoDB, the API gateway, Bedrock, bcrypt, JSON,
  the web framework, bash, the clock, random sources) is an argument, its documented behaviour a locale.
  Loops that may run forever (\<open>acquire_loop\<close>, \<open>drain_bucket\<close>, \<open>query_pages\<close>, \<open>count_pages\<close>, \<open>register_loop\<close>) are partial
  functions into \<open>option\<close>; that they return is proved where it holds, and for \<open>register\<close> exactly when.
  No definition uses fuel, except that \<open>converse_attempts\<close> and \<open>strip_all\<close> count what the code counts down itself: the
  attempts, and the length of the text.

  \<^bold>\<open>What the properties say.\<close>  Runner: only judged commands reach a shell, callers get exactly the output of
  their command, a session stays in step with bash or is given up, no shell outlives the process or is
  lost or closed twice by concurrent requests,
  the model is asked at most three times, registration ends exactly when it should.  Broker: a runner
  never serves two sessions, also while requests of several brokers run concurrently, sessions are sticky,
  every resolution ends, the HTTP status of a registration is truthful, and without outages a visitor is refused only
  when no healthy runner is idle.  Presenter: counters equal the votes in any interleaving, limits hold for
  requests in sequence (and not for concurrent ones), viewers cannot act as presenters, broadcasts reach
  everyone, the slide that is set is the slide that is read, login needs the password.

  \<^bold>\<open>Limits that are proved.\<close>  A call of the shell whose marker is lost on the standard error blocks its
  session; concurrent votes of one visitor exceed the limit; a poll that is reopened after its record expired
  counts below zero; a resolution that is cancelled during the health check strands its runner.

  \<^bold>\<open>Not modelled.\<close>  The front end (TypeScript), the infrastructure (Terraform, nginx, compose), the test and load
  programs.  Of the Go code: the wrapper of \<^verbatim>\<open>exec.Cmd\<close> in the runner's shell, whose methods only
  forward to the library (their answers are inputs of \<open>newBashShellFromCommander\<close> and \<open>Close\<close>), interface
  declarations (the fields of the records are their methods) and the function variables that tests replace;
  the broker's log line about an unhealthy runner (the runner's log lines are modelled).  The address of a peer that the
  runner audits is the framework's \<^verbatim>\<open>ClientIP\<close>, a field of the request here, whatever proxies are trusted.
  Mutexes are not modelled as such: what they
  serialise is one step.  Timeouts appear as errors of the calls they cut short.
\<close>

end
